theory Spec2Isabelle
  imports Main "HOL-Library.Word"
begin

section \<open>Common vocabulary\<close>

unbundle bit_operations_syntax

text \<open>
  Failures that end a call without a result: a C \<open>assert\<close> that does not hold (the
  string is the asserted expression), a \<open>memcpy\<close> that would leave the bounds of
  one of its two buffers, and the use of a local variable that nothing has written.
\<close>

datatype error =
    Assertion_failed string
  | Write_out_of_bounds
  | Read_out_of_bounds
  | Indeterminate_read

section \<open>Rift driver: the feature report builder (\<open>rift_hmd.c\<close>)\<close>

text \<open>
  \<open>memcpy(buffer + off, src, n)\<close> on a destination array \<open>buffer\<close>: the bytes
  \<open>off .. off + n - 1\<close> of the destination are replaced by the first \<open>n\<close> bytes of
  the source. The model reports a copy that leaves the destination array or reads
  beyond the source instead of performing it.
\<close>

definition memcpy_at :: "8 word list \<Rightarrow> nat \<Rightarrow> 8 word list \<Rightarrow> nat \<Rightarrow> error + 8 word list" where
  "memcpy_at buffer off src n =
     (if length buffer < off + n then Inl Write_out_of_bounds
      else if length src < n then Inl Read_out_of_bounds
      else Inr (take off buffer @ take n src @ drop (off + n) buffer))"

text \<open>
  \<open>rift_send_report\<close>, with the two uses of the macro \<open>REPORT_WRITE_DATA\<close> expanded
  in place (\<open>REPORT_WRITE_VALUE(report_id)\<close> is \<open>REPORT_WRITE_DATA(&report_id, 1)\<close>).
  \<open>REPORT_MAX_SIZE\<close> is declared in a header outside the sources at hand and is a
  parameter; \<open>sizeof(buffer)\<close>, \<open>length\<close> and \<open>data_length\<close> are \<open>size_t\<close>, 64 bits
  wide. \<open>buffer0\<close> is the content of the uninitialised stack array at entry.
  \<open>os_hid_set_feature\<close> is the HID layer: it receives the first \<open>length\<close> bytes of the
  buffer and answers with an \<open>int\<close>.

  The result is the returned \<open>int\<close> together with the bytes handed to
  \<open>os_hid_set_feature\<close>, \<open>None\<close> when it was not invoked.
\<close>

definition rift_send_report ::
  "nat \<Rightarrow> (8 word list \<Rightarrow> int) \<Rightarrow> 8 word list \<Rightarrow> 8 word \<Rightarrow> 8 word list \<Rightarrow> 64 word
     \<Rightarrow> error + (int \<times> 8 word list option)" where
  "rift_send_report REPORT_MAX_SIZE os_hid_set_feature buffer0 report_id data data_length =
     (let sizeof_buffer = (of_nat REPORT_MAX_SIZE :: 64 word);
          length0 = (0 :: 64 word)
      in if 1 > sizeof_buffer - length0 then Inr (- 1, None)
         else case memcpy_at buffer0 (unat length0) [report_id] 1 of
           Inl e \<Rightarrow> Inl e
         | Inr buffer1 \<Rightarrow>
             let length1 = length0 + 1
             in if data_length > sizeof_buffer - length1 then Inr (- 1, None)
                else (case memcpy_at buffer1 (unat length1) data (unat data_length) of
                  Inl e \<Rightarrow> Inl e
                | Inr buffer2 \<Rightarrow>
                    let length2 = length1 + data_length;
                        sent = take (unat length2) buffer2;
                        result = os_hid_set_feature sent
                    in if result < 0 then Inr (result, Some sent) else Inr (0, Some sent)))"

section \<open>High level scratch images (\<open>comp_high_level_scratch.c\<close>)\<close>

record VkExtent2D =
  width :: "32 word"
  height :: "32 word"

type_synonym VkFormat = int

definition VK_FORMAT_UNDEFINED :: VkFormat where
  "VK_FORMAT_UNDEFINED = 0"

definition VK_FORMAT_R8G8B8A8_UNORM :: VkFormat where
  "VK_FORMAT_R8G8B8A8_UNORM = 37"

definition VK_FORMAT_R8G8B8A8_SRGB :: VkFormat where
  "VK_FORMAT_R8G8B8A8_SRGB = 43"

text \<open>
  The Vulkan objects a \<open>chl_scratch\<close> can hold: the shared render pass, the ring of
  images of view \<open>i\<close> (a \<open>comp_scratch_single_images\<close>), and the render target
  resources of image \<open>k\<close> of view \<open>i\<close>.
\<close>

datatype resource =
    Render_pass
  | Scratch_images nat
  | Target_resources nat nat

text \<open>
  The calls into the render and scratch layers, in the order they are made. The two
  calls that can fail carry their result; \<open>Images_ensure i m ok\<close> stands for
  \<open>comp_scratch_single_images_ensure_mutable\<close> when \<open>m\<close> holds and for
  \<open>comp_scratch_single_images_ensure\<close> otherwise.
\<close>

datatype scratch_call =
    Render_pass_init VkFormat bool
  | Render_pass_fini
  | Images_ensure nat bool bool
  | Images_free nat
  | Target_resources_init nat nat
  | Target_resources_fini nat nat

text \<open>
  \<open>struct chl_scratch\<close>. The arrays \<open>render_pass\<close> and \<open>views\<close> hold Vulkan
  handles; the model keeps the set \<open>live\<close> of objects that exist and the list
  \<open>calls\<close> of calls made so far in their place.
\<close>

record chl_scratch =
  view_count :: "32 word"
  extent :: VkExtent2D
  format :: VkFormat
  render_pass_initialized :: bool
  live :: "resource set"
  calls :: "scratch_call list"

text \<open>
  What the code cannot decide: the ring size \<open>COMP_SCRATCH_NUM_IMAGES\<close> (a constant
  of a header outside the sources at hand), whether \<open>render_gfx_render_pass_init\<close>
  succeeds, and whether the images of view \<open>i\<close> can be created. Within one call of
  \<open>chl_scratch_ensure\<close> the render pass is initialised at most once and each view is
  ensured at most once, so one answer per view covers every run.
\<close>

record scratch_env =
  COMP_SCRATCH_NUM_IMAGES :: nat
  render_pass_init_ok :: bool
  images_ensure_ok :: "nat \<Rightarrow> bool"

definition render_gfx_render_pass_init :: "scratch_env \<Rightarrow> VkFormat \<Rightarrow> chl_scratch \<Rightarrow> bool \<times> chl_scratch" where
  "render_gfx_render_pass_init env fmt s =
     (let ok = render_pass_init_ok env
      in (ok, s\<lparr>live := (if ok then insert Render_pass (live s) else live s),
                calls := calls s @ [Render_pass_init fmt ok]\<rparr>))"

definition render_gfx_render_pass_fini :: "chl_scratch \<Rightarrow> chl_scratch" where
  "render_gfx_render_pass_fini s =
     s\<lparr>live := live s - {Render_pass}, calls := calls s @ [Render_pass_fini]\<rparr>"

text \<open>
  A failed creation of the images of a view creates nothing: that is the contract of
  \<open>comp_scratch_single_images_ensure\<close>, which is not part of the sources at hand.
\<close>

definition comp_scratch_single_images_ensure ::
  "scratch_env \<Rightarrow> nat \<Rightarrow> bool \<Rightarrow> chl_scratch \<Rightarrow> bool \<times> chl_scratch" where
  "comp_scratch_single_images_ensure env i mutable_format s =
     (let ok = images_ensure_ok env i
      in (ok, s\<lparr>live := (if ok then insert (Scratch_images i) (live s) else live s),
                calls := calls s @ [Images_ensure i mutable_format ok]\<rparr>))"

definition comp_scratch_single_images_free :: "nat \<Rightarrow> chl_scratch \<Rightarrow> chl_scratch" where
  "comp_scratch_single_images_free i s =
     s\<lparr>live := live s - {Scratch_images i}, calls := calls s @ [Images_free i]\<rparr>"

definition render_gfx_target_resources_init :: "nat \<Rightarrow> nat \<Rightarrow> chl_scratch \<Rightarrow> chl_scratch" where
  "render_gfx_target_resources_init i k s =
     s\<lparr>live := insert (Target_resources i k) (live s),
       calls := calls s @ [Target_resources_init i k]\<rparr>"

definition render_gfx_target_resources_fini :: "nat \<Rightarrow> nat \<Rightarrow> chl_scratch \<Rightarrow> chl_scratch" where
  "render_gfx_target_resources_fini i k s =
     s\<lparr>live := live s - {Target_resources i k},
       calls := calls s @ [Target_resources_fini i k]\<rparr>"

text \<open>The body of the outer loop of \<open>chl_scratch_free_resources\<close>, for view \<open>i\<close>.\<close>

definition free_view :: "scratch_env \<Rightarrow> nat \<Rightarrow> chl_scratch \<Rightarrow> chl_scratch" where
  "free_view env i s =
     comp_scratch_single_images_free i
       (fold (render_gfx_target_resources_fini i) [0..<COMP_SCRATCH_NUM_IMAGES env] s)"

definition chl_scratch_free_resources :: "scratch_env \<Rightarrow> chl_scratch \<Rightarrow> chl_scratch" where
  "chl_scratch_free_resources env s =
     (let s1 = fold (free_view env) [0..<unat (view_count s)] s;
          s2 = s1\<lparr>view_count := 0, extent := \<lparr>width = 0, height = 0\<rparr>,
                  format := VK_FORMAT_UNDEFINED\<rparr>
      in if render_pass_initialized s2
         then (render_gfx_render_pass_fini s2)\<lparr>render_pass_initialized := False\<rparr>
         else s2)"

text \<open>
  The loop \<open>for (i = 0; i < view_count; i++)\<close> of \<open>chl_scratch_ensure\<close>, over the
  indices still to visit. The loop variable is a \<open>uint32_t\<close> below \<open>view_count\<close>, so
  \<open>i + 1\<close> does not wrap. The index into \<open>scratch->views\<close> is not checked by the code:
  a \<open>view_count\<close> of at most \<open>XRT_MAX_VIEWS\<close> is the caller's obligation.
\<close>

fun ensure_views ::
  "scratch_env \<Rightarrow> VkExtent2D \<Rightarrow> VkFormat \<Rightarrow> nat list \<Rightarrow> chl_scratch \<Rightarrow> bool \<times> chl_scratch" where
  "ensure_views env ext fmt [] s = (True, s)"
| "ensure_views env ext fmt (i # rest) s =
     (case comp_scratch_single_images_ensure env i (fmt = VK_FORMAT_R8G8B8A8_SRGB) s of
        (bret, s1) \<Rightarrow>
          if \<not> bret then (False, chl_scratch_free_resources env s1)
          else
            let s2 = fold (render_gfx_target_resources_init i) [0..<COMP_SCRATCH_NUM_IMAGES env] s1;
                s3 = s2\<lparr>view_count := of_nat (i + 1)\<rparr>
            in ensure_views env ext fmt rest s3)"

definition chl_scratch_ensure ::
  "scratch_env \<Rightarrow> chl_scratch \<Rightarrow> 32 word \<Rightarrow> VkExtent2D \<Rightarrow> VkFormat \<Rightarrow> bool \<times> chl_scratch" where
  "chl_scratch_ensure env s vc ext fmt =
     (if view_count s = vc \<and> width (extent s) = width ext \<and>
         height (extent s) = height ext \<and> format s = fmt
      then (True, s)
      else
        case render_gfx_render_pass_init env fmt (chl_scratch_free_resources env s) of
          (bret, s2) \<Rightarrow>
            if \<not> bret then (False, s2)
            else
              (case ensure_views env ext fmt [0..<unat vc] (s2\<lparr>render_pass_initialized := True\<rparr>) of
                 (ok, s4) \<Rightarrow>
                   if \<not> ok then (False, s4)
                   else (True, s4\<lparr>extent := ext, format := fmt\<rparr>)))"

text \<open>
  The bookkeeping invariant of a \<open>chl_scratch\<close>: every object that exists is accounted
  for by \<open>render_pass_initialized\<close> and \<open>view_count\<close>.
\<close>

definition accounted :: "scratch_env \<Rightarrow> bool \<Rightarrow> nat \<Rightarrow> resource set" where
  "accounted env rp n =
     (if rp then {Render_pass} else {}) \<union> Scratch_images ` {..<n} \<union>
     (\<lambda>(i, k). Target_resources i k) ` ({..<n} \<times> {..<COMP_SCRATCH_NUM_IMAGES env})"

definition scratch_inv :: "scratch_env \<Rightarrow> chl_scratch \<Rightarrow> bool" where
  "scratch_inv env s \<longleftrightarrow>
     live s \<subseteq> accounted env (render_pass_initialized s) (unat (view_count s))"

text \<open>Nothing is held and nothing is configured.\<close>

definition nothing_allocated :: "chl_scratch \<Rightarrow> bool" where
  "nothing_allocated s \<longleftrightarrow>
     view_count s = 0 \<and> width (extent s) = 0 \<and> height (extent s) = 0 \<and>
     format s = VK_FORMAT_UNDEFINED \<and> \<not> render_pass_initialized s \<and> live s = {}"

text \<open>The calls that release an object, and those that create one.\<close>

fun is_free_call :: "scratch_call \<Rightarrow> bool" where
  "is_free_call Render_pass_fini = True"
| "is_free_call (Images_free i) = True"
| "is_free_call (Target_resources_fini i k) = True"
| "is_free_call c = False"

text \<open>A zero-initialised \<open>chl_scratch\<close>, as \<open>chl_scratch_init\<close> expects it.\<close>

definition chl_scratch_zero :: chl_scratch where
  "chl_scratch_zero =
     \<lparr>view_count = 0, extent = \<lparr>width = 0, height = 0\<rparr>, format = 0,
      render_pass_initialized = False, live = {}, calls = []\<rparr>"

text \<open>The objects of view \<open>i\<close>, and the calls that release them, in the order of the loop body.\<close>

definition view_resources :: "scratch_env \<Rightarrow> nat \<Rightarrow> resource set" where
  "view_resources env i =
     insert (Scratch_images i) (Target_resources i ` {..<COMP_SCRATCH_NUM_IMAGES env})"

definition free_view_calls :: "scratch_env \<Rightarrow> nat \<Rightarrow> scratch_call list" where
  "free_view_calls env i =
     map (Target_resources_fini i) [0..<COMP_SCRATCH_NUM_IMAGES env] @ [Images_free i]"

text \<open>The calls that create the objects of view \<open>i\<close>, when the images can be created.\<close>

definition ensure_view_calls :: "scratch_env \<Rightarrow> VkFormat \<Rightarrow> nat \<Rightarrow> scratch_call list" where
  "ensure_view_calls env fmt i =
     Images_ensure i (fmt = VK_FORMAT_R8G8B8A8_SRGB) True #
     map (Target_resources_init i) [0..<COMP_SCRATCH_NUM_IMAGES env]"

text \<open>The calls \<open>chl_scratch_free_resources\<close> makes from a given state.\<close>

definition free_calls :: "scratch_env \<Rightarrow> chl_scratch \<Rightarrow> scratch_call list" where
  "free_calls env s =
     concat (map (free_view_calls env) [0..<unat (view_count s)]) @
     (if render_pass_initialized s then [Render_pass_fini] else [])"

text \<open>The test at the head of \<open>chl_scratch_ensure\<close>: the configuration is the requested one.\<close>

definition configured :: "chl_scratch \<Rightarrow> 32 word \<Rightarrow> VkExtent2D \<Rightarrow> VkFormat \<Rightarrow> bool" where
  "configured s vc ext fmt \<longleftrightarrow>
     view_count s = vc \<and> width (extent s) = width ext \<and>
     height (extent s) = height ext \<and> format s = fmt"

text \<open>Two environments with a ring of two images: one where every creation succeeds, one where
  the images of view 1 cannot be created.\<close>

definition env_ok :: scratch_env where
  "env_ok = \<lparr>COMP_SCRATCH_NUM_IMAGES = 2, render_pass_init_ok = True,
             images_ensure_ok = (\<lambda>i. True)\<rparr>"

definition env_view1_fails :: scratch_env where
  "env_view1_fails = \<lparr>COMP_SCRATCH_NUM_IMAGES = 2, render_pass_init_ok = True,
             images_ensure_ok = (\<lambda>i. i < 1)\<rparr>"

section \<open>The compositor renderer (\<open>comp_renderer.c\<close>)\<close>

subsection \<open>Results, frames and the calls into the collaborators\<close>

datatype VkResult =
    VK_SUCCESS
  | VK_NOT_READY
  | VK_TIMEOUT
  | VK_SUBOPTIMAL_KHR
  | VK_ERROR_OUT_OF_DATE_KHR
  | VK_ERROR_DEVICE_LOST
  | VK_ERROR_SURFACE_LOST_KHR
  | VK_ERROR_OUT_OF_HOST_MEMORY
  | VK_ERROR_EXTENSION_NOT_PRESENT

datatype xrt_result =
    XRT_SUCCESS
  | XRT_ERROR_VULKAN
  | XRT_ERROR_ALLOCATION

datatype timing_point =
    COMP_TARGET_TIMING_POINT_WAKE_UP
  | COMP_TARGET_TIMING_POINT_BEGIN
  | COMP_TARGET_TIMING_POINT_SUBMIT_BEGIN
  | COMP_TARGET_TIMING_POINT_SUBMIT_END

text \<open>
  \<open>struct comp_frame\<close>, one lifecycle slot of the compositor (\<open>c->frame.waited\<close>,
  \<open>c->frame.rendering\<close>). The field \<open>id\<close> of the source is \<open>frame_id\<close> here, since
  \<open>id\<close> is the identity function of HOL. All four fields are \<open>int64_t\<close>.
\<close>

record comp_frame =
  frame_id :: "64 word"
  predicted_display_time_ns :: "64 word"
  desired_present_time_ns :: "64 word"
  present_slop_ns :: "64 word"

text \<open>
  Modelled from the spec: \<open>comp_frame.h\<close>, with \<open>comp_frame_is_invalid_locked\<close>,
  \<open>comp_frame_clear_locked\<close> and \<open>comp_frame_move_and_clear_locked\<close>, is not part
  of the sources at hand. The spec has \<open>is_invalid(slot)\<close> as a query, \<open>clear(slot)\<close>
  that "marks a slot invalid", and \<open>move_and_clear(dst_slot, src_slot)\<close> that
  "transfers a frame's data from one lifecycle slot to another and invalidates the
  source" and "fails (as a programming error, not a runtime error) if \<open>dst_slot\<close> is
  already valid". A slot is invalid when its id is \<open>-1\<close>, the value the sources use
  for "no frame" (\<open>frame_id = -1\<close> in \<open>target_calc_frame_pacing\<close>).
\<close>

definition comp_frame_is_invalid_locked :: "comp_frame \<Rightarrow> bool" where
  "comp_frame_is_invalid_locked f \<longleftrightarrow> frame_id f = - 1"

definition comp_frame_clear_locked :: "comp_frame \<Rightarrow> comp_frame" where
  "comp_frame_clear_locked slot = slot\<lparr>frame_id := - 1\<rparr>"

text \<open>The result is the pair of the new \<open>dst\<close> and the new \<open>src\<close>.\<close>

definition comp_frame_move_and_clear_locked ::
  "comp_frame \<Rightarrow> comp_frame \<Rightarrow> error + (comp_frame \<times> comp_frame)" where
  "comp_frame_move_and_clear_locked dst src =
     (if \<not> comp_frame_is_invalid_locked dst
      then Inl (Assertion_failed ''comp_frame_is_invalid_locked(dst)'')
      else Inr (src, comp_frame_clear_locked src))"

text \<open>
  Every call the renderer makes into a collaborator (the target, Vulkan, the clock, the
  render helpers, the debug mirror, the peek window) is an event; a call that answers
  carries its answer. The list of events so far is the history of a run.

  \<^item> \<open>Target_create_images image_usage\<close>: \<open>comp_target_create_images\<close> with a
    create info of that \<open>image_usage\<close>; the other fields of the create info (extent,
    colour space, present mode, formats) are copies of settings that the renderer never
    writes, and are left out;
  \<^item> \<open>Target_acquire ret index\<close>: \<open>comp_target_acquire\<close> returned \<open>ret\<close> and the
    variable behind \<open>out_index\<close> holds \<open>index\<close> afterwards;
  \<^item> \<open>Target_present index value ret\<close>: \<open>comp_target_present\<close> of image \<open>index\<close>
    with the timeline value \<open>value\<close>;
  \<^item> \<open>Target_mark point id when\<close>: \<open>comp_target_mark_begin\<close>,
    \<open>comp_target_mark_submit_begin\<close> and \<open>comp_target_mark_submit_end\<close>;
  \<^item> \<open>Fence_wait i ret\<close>, \<open>Fence_reset i ret\<close>: \<open>vkWaitForFences\<close> and
    \<open>vkResetFences\<close> on \<open>r->fences[i]\<close>;
  \<^item> \<open>Queue_submit i ret\<close>: \<open>vk_cmd_submit_locked\<close> with the fence \<open>r->fences[i]\<close>;
  \<^item> \<open>Renderings_created n\<close>, \<open>Fences_created n\<close>: the loops of
    \<open>renderer_create_renderings_and_fences\<close> over \<open>n\<close> buffers;
    \<open>Renderings_closed\<close>, \<open>Fences_destroyed\<close>: those of
    \<open>renderer_close_renderings_and_fences\<close>;
  \<^item> \<open>Pipeline compute index\<close>: the pose, viewport and pipeline work of
    \<open>dispatch_compute\<close> or \<open>dispatch_graphics\<close> for the acquired buffer;
  \<^item> \<open>Log_error\<close>: a \<open>COMP_ERROR\<close> or \<open>VK_ERROR\<close> line; \<open>Log_frame_lag d\<close>: the
    \<open>LOG_FRAME_LAG\<close> warning with the lag \<open>d\<close> in nanoseconds;
  \<^item> \<open>Peek_acquire ret current\<close>: \<open>comp_target_acquire\<close> on the peek window's target
    returned \<open>ret\<close>, and \<open>current\<close> is what the local variable of that name holds
    afterwards (\<open>None\<close> while nothing has been written to it);
  \<^item> \<open>Peek_commands index ret\<close>: the command buffer of the peek blit, which copies into
    the image \<open>index\<close> of the peek window, with the result of \<open>vkEndCommandBuffer\<close>;
    \<open>Peek_submit ret\<close> its submission, \<open>Peek_present index ret\<close> the
    \<open>vkQueuePresentKHR\<close> of image \<open>index\<close>.
\<close>

datatype event =
    Clock "64 word"
  | Target_check_ready bool
  | Target_has_images bool
  | Target_create_images "32 word"
  | Target_acquire VkResult "32 word"
  | Target_present "32 word" "64 word" VkResult
  | Target_wait_for_present VkResult
  | Target_flush
  | Target_update_timings
  | Target_mark timing_point "64 word" "64 word"
  | Target_info_gpu "64 word" "64 word" "64 word" "64 word"
  | Distortion_images_ensure bool
  | Queue_wait_idle
  | Renderings_created "32 word"
  | Renderings_closed
  | Fences_created "32 word"
  | Fences_destroyed
  | Fence_wait "32 word" VkResult
  | Fence_reset "32 word" VkResult
  | Queue_submit "32 word" VkResult
  | Frame_state_init
  | Frame_state_fini
  | Pipeline bool "32 word"
  | Mirror_fixup_ui_state
  | Mirror_is_ready_and_active bool
  | Mirror_do_blit xrt_result
  | Get_timestamps bool
  | Log_error string
  | Log_frame_lag "64 word"
  | Peek_create_images
  | Peek_check_ready bool
  | Peek_acquire VkResult "32 word option"
  | Peek_commands "32 word" VkResult
  | Peek_submit VkResult
  | Peek_present "32 word" VkResult

text \<open>
  The collaborators are not part of the renderer: what each of them answers is a
  parameter, a function of the history up to the call, so that an answer may depend on
  everything that happened before. \<open>o_acquire\<close> and \<open>o_peek_acquire\<close> answer with
  the result and, when the target wrote \<open>*out_index\<close>, the index.
  \<open>o_wait_for_present_supported\<close> is the field \<open>wait_for_present_supported\<close> of the
  target, \<open>o_image_count\<close> its \<open>image_count\<close>, and \<open>o_peek_extent\<close> the width and
  height of the peek window's swapchain.
\<close>

record env =
  o_now_ns :: "event list \<Rightarrow> 64 word"
  o_check_ready :: "event list \<Rightarrow> bool"
  o_has_images :: "event list \<Rightarrow> bool"
  o_image_count :: "event list \<Rightarrow> 32 word"
  o_acquire :: "event list \<Rightarrow> VkResult \<times> 32 word option"
  o_present :: "event list \<Rightarrow> VkResult"
  o_wait_for_present_supported :: bool
  o_wait_for_present :: "event list \<Rightarrow> VkResult"
  o_distortion_images_ensure :: "event list \<Rightarrow> bool"
  o_wait_for_fences :: "event list \<Rightarrow> VkResult"
  o_reset_fences :: "event list \<Rightarrow> VkResult"
  o_cmd_submit :: "event list \<Rightarrow> VkResult"
  o_mirror_is_ready_and_active :: "event list \<Rightarrow> bool"
  o_mirror_do_blit :: "event list \<Rightarrow> xrt_result"
  o_get_timestamps :: "event list \<Rightarrow> (64 word \<times> 64 word) option"
  o_peek_check_ready :: "event list \<Rightarrow> bool"
  o_peek_extent :: "event list \<Rightarrow> 32 word \<times> 32 word"
  o_peek_acquire :: "event list \<Rightarrow> VkResult \<times> 32 word option"
  o_peek_end_command_buffer :: "event list \<Rightarrow> VkResult"
  o_peek_submit :: "event list \<Rightarrow> VkResult"
  o_peek_present :: "event list \<Rightarrow> VkResult"

datatype comp_window_peek_eye =
    COMP_WINDOW_PEEK_EYE_LEFT
  | COMP_WINDOW_PEEK_EYE_RIGHT
  | COMP_WINDOW_PEEK_EYE_BOTH

text \<open>
  \<open>struct comp_window_peek\<close>: the fields the blit reads. \<open>peek_width\<close> and
  \<open>peek_height\<close> are the fields \<open>width\<close> and \<open>height\<close> of the source, the size of
  the window as the event thread last saw it.
\<close>

record comp_window_peek =
  eye :: comp_window_peek_eye
  peek_width :: "32 word"
  peek_height :: "32 word"
  running :: bool
  hidden :: bool

text \<open>
  \<open>struct comp_renderer\<close>, together with the state it reaches through \<open>r->c\<close> and
  \<open>r->settings\<close>: the two frame slots, \<open>use_compute\<close>, the fast path flag and the
  layer count of the frame. The peek window \<open>c->peek\<close>, which the renderer only reads,
  is an argument of its own, \<open>c_peek\<close>, of every function that reads it or calls one
  that does (\<open>None\<close> for a null pointer).
  \<open>acquired_buffer\<close> and \<open>fenced_buffer\<close> are \<open>int32_t\<close>, read through \<open>sint\<close>;
  \<open>rtr_array\<close> and \<open>fences\<close> say whether the pointer of that name is non-null.
  \<open>trace\<close> is the history of calls into the collaborators.
\<close>

record comp_renderer =
  acquired_buffer :: "32 word"
  fenced_buffer :: "32 word"
  rtr_array :: bool
  fences :: bool
  buffer_count :: "32 word"
  waited :: comp_frame
  rendering :: comp_frame
  use_compute :: bool
  one_projection_layer_fast_path :: bool
  layer_count :: "32 word"
  trace :: "event list"

definition emit :: "event \<Rightarrow> comp_renderer \<Rightarrow> comp_renderer" where
  "emit e r = r\<lparr>trace := trace r @ [e]\<rparr>"

definition os_monotonic_get_ns :: "env \<Rightarrow> comp_renderer \<Rightarrow> 64 word \<times> comp_renderer" where
  "os_monotonic_get_ns env r =
     (let t = o_now_ns env (trace r) in (t, emit (Clock t) r))"

definition comp_target_check_ready :: "env \<Rightarrow> comp_renderer \<Rightarrow> bool \<times> comp_renderer" where
  "comp_target_check_ready env r =
     (let b = o_check_ready env (trace r) in (b, emit (Target_check_ready b) r))"

definition comp_target_has_images :: "env \<Rightarrow> comp_renderer \<Rightarrow> bool \<times> comp_renderer" where
  "comp_target_has_images env r =
     (let b = o_has_images env (trace r) in (b, emit (Target_has_images b) r))"

text \<open>\<open>buffer_index\<close> is the value of the caller's variable before the call.\<close>

definition comp_target_acquire ::
  "env \<Rightarrow> 32 word \<Rightarrow> comp_renderer \<Rightarrow> VkResult \<times> 32 word \<times> comp_renderer" where
  "comp_target_acquire env buffer_index r =
     (case o_acquire env (trace r) of
        (ret, out_index) \<Rightarrow>
          let index = (case out_index of None \<Rightarrow> buffer_index | Some i \<Rightarrow> i)
          in (ret, index, emit (Target_acquire ret index) r))"

definition comp_target_present ::
  "env \<Rightarrow> 32 word \<Rightarrow> 64 word \<Rightarrow> comp_renderer \<Rightarrow> VkResult \<times> comp_renderer" where
  "comp_target_present env index signal_value r =
     (let ret = o_present env (trace r)
      in (ret, emit (Target_present index signal_value ret) r))"

definition comp_target_wait_for_present :: "env \<Rightarrow> comp_renderer \<Rightarrow> VkResult \<times> comp_renderer" where
  "comp_target_wait_for_present env r =
     (let ret = o_wait_for_present env (trace r)
      in (ret, emit (Target_wait_for_present ret) r))"

definition render_distortion_images_ensure :: "env \<Rightarrow> comp_renderer \<Rightarrow> bool \<times> comp_renderer" where
  "render_distortion_images_ensure env r =
     (let b = o_distortion_images_ensure env (trace r)
      in (b, emit (Distortion_images_ensure b) r))"

text \<open>\<open>comp_target_mark_*(ct, frame_id, os_monotonic_get_ns())\<close>: the clock is read first.\<close>

definition comp_target_mark :: "env \<Rightarrow> timing_point \<Rightarrow> 64 word \<Rightarrow> comp_renderer \<Rightarrow> comp_renderer" where
  "comp_target_mark env point fid r =
     (case os_monotonic_get_ns env r of
        (when_ns, r1) \<Rightarrow> emit (Target_mark point fid when_ns) r1)"

text \<open>
  Modelled from the spec: \<open>U_TIME_1MS_IN_NS\<close> is a constant of \<open>u_time.h\<close>, which is
  not part of the sources at hand; the spec has the threshold as "one millisecond", in
  the nanoseconds of the clock.
\<close>

definition U_TIME_1MS_IN_NS :: "64 word" where
  "U_TIME_1MS_IN_NS = 1000 * 1000"


subsection \<open>Images, renderings and fences\<close>

text \<open>
  \<open>VkImageUsageFlags\<close> is a mask of 32 bits. The three bits the renderer sets are
  constants of the Vulkan headers, with the values they have there.
\<close>

definition VK_IMAGE_USAGE_TRANSFER_SRC_BIT :: "32 word" where
  "VK_IMAGE_USAGE_TRANSFER_SRC_BIT = 0x00000001"

definition VK_IMAGE_USAGE_STORAGE_BIT :: "32 word" where
  "VK_IMAGE_USAGE_STORAGE_BIT = 0x00000008"

definition VK_IMAGE_USAGE_COLOR_ATTACHMENT_BIT :: "32 word" where
  "VK_IMAGE_USAGE_COLOR_ATTACHMENT_BIT = 0x00000010"

definition renderer_wait_queue_idle :: "comp_renderer \<Rightarrow> comp_renderer" where
  "renderer_wait_queue_idle r = emit Queue_wait_idle r"

text \<open>
  A failing \<open>vkCreateFence\<close> is logged and the loop goes on, so the loops are one event
  each.
\<close>

definition renderer_create_renderings_and_fences :: "comp_renderer \<Rightarrow> error + comp_renderer" where
  "renderer_create_renderings_and_fences r =
     (if fences r then Inl (Assertion_failed ''r->fences == NULL'')
      else if buffer_count r = 0
      then Inr (emit (Log_error ''Requested 0 command buffers.'') r)
      else
        let r1 = (if \<not> use_compute r
                  then emit (Renderings_created (buffer_count r)) (r\<lparr>rtr_array := True\<rparr>)
                  else r)
        in Inr (emit (Fences_created (buffer_count r1)) (r1\<lparr>fences := True\<rparr>)))"

definition renderer_close_renderings_and_fences :: "comp_renderer \<Rightarrow> comp_renderer" where
  "renderer_close_renderings_and_fences r =
     (let r1 = (if 0 < buffer_count r \<and> rtr_array r
                then emit Renderings_closed (r\<lparr>rtr_array := False\<rparr>)
                else r);
          r2 = (if 0 < buffer_count r1 \<and> fences r1
                then emit Fences_destroyed (r1\<lparr>fences := False\<rparr>)
                else r1)
      in r2\<lparr>buffer_count := 0, acquired_buffer := - 1, fenced_buffer := - 1\<rparr>)"

text \<open>
  In \<open>force_recreate || !comp_target_has_images(target) || (r->buffer_count == 0)\<close> the
  target is asked only when \<open>force_recreate\<close> is false.
\<close>

definition renderer_ensure_images_and_renderings ::
  "env \<Rightarrow> comp_window_peek option \<Rightarrow> bool \<Rightarrow> comp_renderer
     \<Rightarrow> error + (bool \<times> comp_renderer)" where
  "renderer_ensure_images_and_renderings env c_peek force_recreate r =
     (case comp_target_check_ready env r of
        (ready, r1) \<Rightarrow>
          if \<not> ready then Inr (False, r1)
          else
            (case (if force_recreate then (True, r1)
                   else (case comp_target_has_images env r1 of
                           (has, r2) \<Rightarrow> (\<not> has \<or> buffer_count r2 = 0, r2))) of
               (create, r2) \<Rightarrow>
                 if \<not> create then Inr (True, r2)
                 else
                   let r3 = renderer_wait_queue_idle r2;
                       r4 = renderer_close_renderings_and_fences r3;
                       image_usage = 0;
                       image_usage = (if use_compute r4
                                      then image_usage OR VK_IMAGE_USAGE_STORAGE_BIT
                                      else image_usage OR VK_IMAGE_USAGE_COLOR_ATTACHMENT_BIT);
                       image_usage = (if c_peek \<noteq> None
                                      then image_usage OR VK_IMAGE_USAGE_TRANSFER_SRC_BIT
                                      else image_usage);
                       r5 = emit (Target_create_images image_usage) r4
                   in (case render_distortion_images_ensure env r5 of
                         (ok, r6) \<Rightarrow>
                           if \<not> ok then Inr (False, r6)
                           else
                             (case renderer_create_renderings_and_fences
                                     (r6\<lparr>buffer_count := o_image_count env (trace r6)\<rparr>) of
                                Inl e \<Rightarrow> Inl e
                              | Inr r7 \<Rightarrow>
                                  if buffer_count r7 = 0
                                  then Inl (Assertion_failed ''r->buffer_count != 0'')
                                  else Inr (True, r7)))))"

subsection \<open>Fences and submission\<close>

definition renderer_wait_for_last_fence :: "env \<Rightarrow> comp_renderer \<Rightarrow> comp_renderer" where
  "renderer_wait_for_last_fence env r =
     (if sint (fenced_buffer r) < 0 then r
      else
        let ret = o_wait_for_fences env (trace r);
            r1 = emit (Fence_wait (fenced_buffer r) ret) r;
            r2 = (if ret \<noteq> VK_SUCCESS then emit (Log_error ''vkWaitForFences'') r1 else r1)
        in r2\<lparr>fenced_buffer := - 1\<rparr>)"

text \<open>
  \<open>VK_CHK_AND_RET(ret, name)\<close> logs and returns \<open>ret\<close> when it is not \<open>VK_SUCCESS\<close>.
  The semaphores of the submit info do not decide anything here and are left out. The
  second assertion on the frame is the one under \<open>VK_KHR_timeline_semaphore\<close>.
\<close>

definition renderer_submit_queue :: "env \<Rightarrow> comp_renderer \<Rightarrow> error + (VkResult \<times> comp_renderer)" where
  "renderer_submit_queue env r =
     (let fid = frame_id (rendering r)
      in if \<not> 0 \<le> sint fid then Inl (Assertion_failed ''frame_id >= 0'')
         else
           let r1 = renderer_wait_for_last_fence env r
           in if \<not> sint (fenced_buffer r1) < 0
              then Inl (Assertion_failed ''r->fenced_buffer < 0'')
              else if \<not> 0 \<le> sint (acquired_buffer r1)
              then Inl (Assertion_failed ''r->acquired_buffer >= 0'')
              else
                let ret = o_reset_fences env (trace r1);
                    r2 = emit (Fence_reset (acquired_buffer r1) ret) r1
                in if ret \<noteq> VK_SUCCESS then Inr (ret, emit (Log_error ''vkResetFences'') r2)
                   else if comp_frame_is_invalid_locked (rendering r2)
                   then Inl (Assertion_failed ''!comp_frame_is_invalid_locked(&r->c->frame.rendering)'')
                   else
                     let r3 = comp_target_mark env COMP_TARGET_TIMING_POINT_SUBMIT_BEGIN fid r2;
                         ret = o_cmd_submit env (trace r3);
                         r4 = emit (Queue_submit (acquired_buffer r3) ret) r3;
                         r5 = comp_target_mark env COMP_TARGET_TIMING_POINT_SUBMIT_END fid r4
                     in if ret \<noteq> VK_SUCCESS
                        then Inr (ret, emit (Log_error ''vk_cmd_submit_locked'') r5)
                        else Inr (ret, r5\<lparr>fenced_buffer := acquired_buffer r5\<rparr>))"

subsection \<open>Acquire, resize and present\<close>

definition is_stale :: "VkResult \<Rightarrow> bool" where
  "is_stale ret \<longleftrightarrow> ret = VK_ERROR_OUT_OF_DATE_KHR \<or> ret = VK_SUBOPTIMAL_KHR"

definition renderer_acquire_swapchain_image ::
  "env \<Rightarrow> comp_window_peek option \<Rightarrow> comp_renderer \<Rightarrow> error + comp_renderer" where
  "renderer_acquire_swapchain_image env c_peek r =
     (if \<not> sint (acquired_buffer r) < 0 then Inl (Assertion_failed ''r->acquired_buffer < 0'')
      else
        case renderer_ensure_images_and_renderings env c_peek False r of
          Inl e \<Rightarrow> Inl e
        | Inr (ok, r1) \<Rightarrow>
            if \<not> ok then Inr r1
            else
              (case comp_target_acquire env 0 r1 of
                 (ret, buffer_index, r2) \<Rightarrow>
                   if is_stale ret then
                     (case renderer_ensure_images_and_renderings env c_peek True r2 of
                        Inl e \<Rightarrow> Inl e
                      | Inr (ok2, r3) \<Rightarrow>
                          if \<not> ok2
                          then Inr (emit (Log_error ''force re-create image and renderings failed'') r3)
                          else
                            (case comp_target_acquire env buffer_index r3 of
                               (ret2, buffer_index2, r4) \<Rightarrow>
                                 let r5 = (if ret2 \<noteq> VK_SUCCESS
                                           then emit (Log_error ''comp_target_acquire'') r4
                                           else r4)
                                 in Inr (r5\<lparr>acquired_buffer := buffer_index2\<rparr>)))
                   else
                     let r3 = (if ret \<noteq> VK_SUCCESS
                               then emit (Log_error ''comp_target_acquire'') r2
                               else r2)
                     in Inr (r3\<lparr>acquired_buffer := buffer_index\<rparr>)))"

definition renderer_resize ::
  "env \<Rightarrow> comp_window_peek option \<Rightarrow> comp_renderer \<Rightarrow> error + comp_renderer" where
  "renderer_resize env c_peek r =
     (case comp_target_check_ready env r of
        (ready, r1) \<Rightarrow>
          if \<not> ready then Inr (renderer_close_renderings_and_fences r1)
          else
            (case renderer_ensure_images_and_renderings env c_peek True r1 of
               Inl e \<Rightarrow> Inl e
             | Inr (ok, r2) \<Rightarrow> Inr r2))"

text \<open>
  The desired present time and the present slop of the frame are handed through to
  \<open>comp_target_present\<close> as they come and decide nothing in the renderer; they are
  left out of the arguments and of the event.
\<close>

definition renderer_present_swapchain_image ::
  "env \<Rightarrow> comp_window_peek option \<Rightarrow> comp_renderer \<Rightarrow> error + comp_renderer" where
  "renderer_present_swapchain_image env c_peek r =
     (if comp_frame_is_invalid_locked (rendering r)
      then Inl (Assertion_failed ''!comp_frame_is_invalid_locked(&r->c->frame.rendering)'')
      else
        case comp_target_present env (acquired_buffer r) (frame_id (rendering r)) r of
          (ret, r1) \<Rightarrow>
            let r2 = r1\<lparr>acquired_buffer := - 1\<rparr>
            in if is_stale ret then renderer_resize env c_peek r2
               else Inr (if ret \<noteq> VK_SUCCESS
                         then emit (Log_error ''vk_swapchain_present'') r2
                         else r2))"

definition renderer_wait_for_present ::
  "env \<Rightarrow> comp_window_peek option \<Rightarrow> 64 word \<Rightarrow> comp_renderer \<Rightarrow> error + comp_renderer" where
  "renderer_wait_for_present env c_peek desired_present_time r =
     (case comp_target_check_ready env r of
        (ready, r1) \<Rightarrow>
          if \<not> ready then Inr r1
          else
            (case os_monotonic_get_ns env r1 of
               (before_ns, r2) \<Rightarrow>
                 (case (if o_wait_for_present_supported env
                        then (case comp_target_wait_for_present env r2 of
                                (result, r3) \<Rightarrow>
                                  if result = VK_ERROR_EXTENSION_NOT_PRESENT
                                  then Inl (Assertion_failed ''result != VK_ERROR_EXTENSION_NOT_PRESENT'')
                                  else Inr r3)
                        else renderer_acquire_swapchain_image env c_peek r2) of
                    Inl e \<Rightarrow> Inl e
                  | Inr r4 \<Rightarrow>
                      (case os_monotonic_get_ns env r4 of
                         (after_ns, r5) \<Rightarrow>
                           if before_ns + U_TIME_1MS_IN_NS < after_ns \<and>
                              desired_present_time + U_TIME_1MS_IN_NS < after_ns
                           then Inr (emit (Log_frame_lag (after_ns - desired_present_time)) r5)
                           else Inr r5))))"

subsection \<open>Reading a history\<close>

text \<open>The kinds of events the properties below count or collect.\<close>

definition is_clock :: "event \<Rightarrow> bool" where
  "is_clock e = (case e of Clock t \<Rightarrow> True | _ \<Rightarrow> False)"

definition is_lag :: "event \<Rightarrow> bool" where
  "is_lag e = (case e of Log_frame_lag d \<Rightarrow> True | _ \<Rightarrow> False)"

definition is_acquire :: "event \<Rightarrow> bool" where
  "is_acquire e = (case e of Target_acquire ret i \<Rightarrow> True | _ \<Rightarrow> False)"

definition is_present :: "event \<Rightarrow> bool" where
  "is_present e = (case e of Target_present i v ret \<Rightarrow> True | _ \<Rightarrow> False)"

definition is_submit :: "event \<Rightarrow> bool" where
  "is_submit e = (case e of Queue_submit i ret \<Rightarrow> True | _ \<Rightarrow> False)"

definition is_fence_wait :: "event \<Rightarrow> bool" where
  "is_fence_wait e = (case e of Fence_wait i ret \<Rightarrow> True | _ \<Rightarrow> False)"

definition is_fence_reset :: "event \<Rightarrow> bool" where
  "is_fence_reset e = (case e of Fence_reset i ret \<Rightarrow> True | _ \<Rightarrow> False)"

definition is_peek_event :: "event \<Rightarrow> bool" where
  "is_peek_event e =
     (case e of
        Peek_create_images \<Rightarrow> True
      | Peek_check_ready b \<Rightarrow> True
      | Peek_acquire ret current \<Rightarrow> True
      | Peek_commands i ret \<Rightarrow> True
      | Peek_submit ret \<Rightarrow> True
      | Peek_present i ret \<Rightarrow> True
      | _ \<Rightarrow> False)"

text \<open>The events of a call: what the history gained from state \<open>r\<close> to state \<open>r'\<close>.\<close>

definition new_events :: "comp_renderer \<Rightarrow> comp_renderer \<Rightarrow> event list" where
  "new_events r r' = drop (length (trace r)) (trace r')"

text \<open>
  The fence that is outstanding after a history: a successful submission leaves the
  fence it was given pending, until that fence is waited on or the fences are
  destroyed. \<open>fence_inv\<close> says that \<open>fenced_buffer\<close> tells the truth about it.
\<close>

definition fence_step :: "32 word option \<Rightarrow> event \<Rightarrow> 32 word option" where
  "fence_step p e =
     (case e of
        Queue_submit i ret \<Rightarrow> (if ret = VK_SUCCESS then Some i else p)
      | Fence_wait i ret \<Rightarrow> (if p = Some i then None else p)
      | Fences_destroyed \<Rightarrow> None
      | _ \<Rightarrow> p)"

definition pending_fence :: "event list \<Rightarrow> 32 word option" where
  "pending_fence tr = foldl fence_step None tr"

definition fence_inv :: "comp_renderer \<Rightarrow> bool" where
  "fence_inv r \<longleftrightarrow>
     pending_fence (trace r) =
       (if sint (fenced_buffer r) < 0 then None else Some (fenced_buffer r))"

text \<open>
  Starting with the fence \<open>p\<close> outstanding, every submission among the events is made
  when no fence is outstanding.
\<close>

fun submits_ok :: "32 word option \<Rightarrow> event list \<Rightarrow> bool" where
  "submits_ok p [] = True"
| "submits_ok p (e # es) = ((is_submit e \<longrightarrow> p = None) \<and> submits_ok (fence_step p e) es)"

text \<open>
  The event of the first \<open>comp_target_acquire\<close> of \<open>renderer_acquire_swapchain_image\<close>,
  made in state \<open>r1\<close> with \<open>buffer_index\<close> still 0.
\<close>

definition first_acquire :: "env \<Rightarrow> comp_renderer \<Rightarrow> event" where
  "first_acquire env r1 =
     (case o_acquire env (trace r1) of
        (ret, index) \<Rightarrow> Target_acquire ret (case index of None \<Rightarrow> 0 | Some i \<Rightarrow> i))"

text \<open>The event of the \<open>comp_target_present\<close> that is made in state \<open>r\<close>.\<close>

definition present_event :: "env \<Rightarrow> comp_renderer \<Rightarrow> event" where
  "present_event env r =
     Target_present (acquired_buffer r) (frame_id (rendering r)) (o_present env (trace r))"

text \<open>
  Events that are none of the kinds above but plain bookkeeping of images, renderings
  and fences; \<open>quiet\<close> for a list of them, \<open>calm\<close> when acquires may occur as well.
\<close>

definition quiet_event :: "event \<Rightarrow> bool" where
  "quiet_event e \<longleftrightarrow>
     \<not> is_clock e \<and> \<not> is_lag e \<and> \<not> is_acquire e \<and> \<not> is_present e \<and> \<not> is_submit e \<and>
     \<not> is_fence_wait e \<and> \<not> is_fence_reset e \<and> \<not> is_peek_event e"

definition quiet :: "event list \<Rightarrow> bool" where
  "quiet evs \<longleftrightarrow> (\<forall>e \<in> set evs. quiet_event e)"

definition calm :: "event list \<Rightarrow> bool" where
  "calm evs \<longleftrightarrow> (\<forall>e \<in> set evs. quiet_event e \<or> is_acquire e)"

text \<open>The events of \<open>renderer_wait_for_last_fence\<close> in state \<open>r\<close>.\<close>

definition wait_events :: "env \<Rightarrow> comp_renderer \<Rightarrow> event list" where
  "wait_events env r =
     (if sint (fenced_buffer r) < 0 then []
      else Fence_wait (fenced_buffer r) (o_wait_for_fences env (trace r)) #
           (if o_wait_for_fences env (trace r) \<noteq> VK_SUCCESS
            then [Log_error ''vkWaitForFences''] else []))"


text \<open>
  The events of \<open>renderer_close_renderings_and_fences\<close> in state \<open>r\<close>, and those of
  \<open>renderer_create_renderings_and_fences\<close> for \<open>n\<close> buffers, \<open>n\<close> not 0.
\<close>

definition close_events :: "comp_renderer \<Rightarrow> event list" where
  "close_events r =
     (if 0 < buffer_count r \<and> rtr_array r then [Renderings_closed] else []) @
     (if 0 < buffer_count r \<and> fences r then [Fences_destroyed] else [])"

definition create_events :: "bool \<Rightarrow> 32 word \<Rightarrow> event list" where
  "create_events compute n =
     (if compute then [] else [Renderings_created n]) @ [Fences_created n]"

text \<open>
  The usage mask the renderer asks for: storage images for the compute path, colour
  attachments for the graphics path, and a transfer source as well when there is a peek
  window to copy them to.
\<close>

definition target_image_usage :: "bool \<Rightarrow> comp_window_peek option \<Rightarrow> 32 word" where
  "target_image_usage compute c_peek =
     (if compute then VK_IMAGE_USAGE_STORAGE_BIT else VK_IMAGE_USAGE_COLOR_ATTACHMENT_BIT) OR
     (if c_peek \<noteq> None then VK_IMAGE_USAGE_TRANSFER_SRC_BIT else 0)"

text \<open>
  The events of a forced recreation in state \<open>r\<close> on a ready target: the readiness
  check, the wait for the queue, the closing of what there is, one
  \<open>comp_target_create_images\<close>, the distortion images with the answer \<open>ok\<close>, and, when
  that answer is true, the new renderings and fences for the \<open>n\<close> images of the target.
\<close>

definition recreate_events ::
  "comp_window_peek option \<Rightarrow> comp_renderer \<Rightarrow> bool \<Rightarrow> 32 word \<Rightarrow> event list" where
  "recreate_events c_peek r ok n =
     Target_check_ready True # Queue_wait_idle # close_events r @
     [Target_create_images (target_image_usage (use_compute r) c_peek),
      Distortion_images_ensure ok] @
     (if ok then create_events (use_compute r) n else [])"
subsection \<open>The peek window (\<open>comp_window_peek.c\<close>)\<close>

text \<open>
  The loop \<open>while (!comp_target_check_ready(&w->base.base));\<close> of
  \<open>comp_window_peek_blit\<close>: it polls the peek target until it is ready, and does not
  return when the target never is (\<open>None\<close>).
\<close>

partial_function (option) peek_wait_ready :: "env \<Rightarrow> event list \<Rightarrow> event list option" where
  "peek_wait_ready env tr =
     (if o_peek_check_ready env tr then Some (tr @ [Peek_check_ready True])
      else peek_wait_ready env (tr @ [Peek_check_ready False]))"

declare peek_wait_ready.simps [code]

text \<open>
  \<open>comp_window_peek_blit\<close> changes nothing but Vulkan and swapchain state, so it maps
  the history to the new history; it has no result (\<open>void\<close>). The source image and its
  size only enter the recorded commands and are left out. \<open>Peek_commands\<close> stands for
  the command buffer from \<open>vkBeginCommandBuffer\<close> to \<open>vkEndCommandBuffer\<close>, with the
  result of the latter.

  \<open>peek_blit_present\<close>, \<open>peek_blit_submit\<close> and \<open>peek_blit_commands\<close> are the
  function from its last step backwards: the present, the submission before it, and
  the acquire and the command buffer before that, which follow the polling loop.

  The local variable \<open>current\<close> is declared without a value and written by
  \<open>comp_target_acquire\<close> only. A failed acquire is logged and the function goes on to
  \<open>w->base.base.images[current].handle\<close>: when the acquire has left \<open>current\<close>
  unwritten, that is the use of an indeterminate index, where the blit has no defined
  behaviour left (\<open>Indeterminate_read\<close>).
\<close>

definition peek_blit_present :: "env \<Rightarrow> 32 word \<Rightarrow> event list \<Rightarrow> event list" where
  "peek_blit_present env current tr =
     (let ret = o_peek_present env tr;
          tr1 = tr @ [Peek_present current ret]
      in if ret \<noteq> VK_SUCCESS then tr1 @ [Log_error ''could not present to queue.''] else tr1)"

definition peek_blit_submit :: "env \<Rightarrow> 32 word \<Rightarrow> event list \<Rightarrow> event list" where
  "peek_blit_submit env current tr =
     (let ret = o_peek_submit env tr;
          tr1 = tr @ [Peek_submit ret]
      in if ret \<noteq> VK_SUCCESS then tr1 @ [Log_error ''Could not submit to queue.'']
         else peek_blit_present env current tr1)"

definition peek_blit_commands :: "env \<Rightarrow> event list \<Rightarrow> error + event list" where
  "peek_blit_commands env tr =
     (case o_peek_acquire env tr of
        (ret, current) \<Rightarrow>
          let tr1 = tr @ [Peek_acquire ret current];
              tr2 = (if ret \<noteq> VK_SUCCESS then tr1 @ [Log_error ''comp_target_acquire'']
                     else tr1)
          in (case current of
                None \<Rightarrow> Inl Indeterminate_read
              | Some dst \<Rightarrow>
                  let ret = o_peek_end_command_buffer env tr2;
                      tr3 = tr2 @ [Peek_commands dst ret]
                  in if ret \<noteq> VK_SUCCESS
                     then Inr (tr3 @ [Log_error ''Could not end command buffer.''])
                     else Inr (peek_blit_submit env dst tr3)))"

text \<open>
  The history at which the polling loop starts: the swapchain is recreated first when
  the window has another size than the swapchain.
\<close>

definition peek_start :: "env \<Rightarrow> comp_window_peek \<Rightarrow> event list \<Rightarrow> event list" where
  "peek_start env w tr =
     (if (peek_width w, peek_height w) \<noteq> o_peek_extent env tr
      then tr @ [Peek_create_images] else tr)"

definition comp_window_peek_blit ::
  "env \<Rightarrow> comp_window_peek \<Rightarrow> event list \<Rightarrow> (error + event list) option" where
  "comp_window_peek_blit env w tr =
     (if hidden w \<or> \<not> running w then Some (Inr tr)
      else
        case peek_wait_ready env (peek_start env w tr) of
          None \<Rightarrow> None
        | Some tr2 \<Rightarrow> Some (peek_blit_commands env tr2))"

subsection \<open>Dispatch and the frame\<close>

definition dispatch_graphics :: "env \<Rightarrow> comp_renderer \<Rightarrow> error + (VkResult \<times> comp_renderer)" where
  "dispatch_graphics env r =
     (case renderer_submit_queue env (emit (Pipeline False (acquired_buffer r)) r) of
        Inl e \<Rightarrow> Inl e
      | Inr (ret, r1) \<Rightarrow>
          Inr (ret, if ret \<noteq> VK_SUCCESS then emit (Log_error ''renderer_submit_queue'') r1 else r1))"

definition dispatch_compute :: "env \<Rightarrow> comp_renderer \<Rightarrow> error + (VkResult \<times> comp_renderer)" where
  "dispatch_compute env r =
     (case renderer_submit_queue env (emit (Pipeline True (acquired_buffer r)) r) of
        Inl e \<Rightarrow> Inl e
      | Inr (ret, r1) \<Rightarrow>
          Inr (ret, if ret \<noteq> VK_SUCCESS then emit (Log_error ''renderer_submit_queue'') r1 else r1))"

text \<open>
  \<open>comp_renderer_draw\<close> in three parts. \<open>draw_finish\<close> is the part from
  \<open>renderer_present_swapchain_image\<close> to the final \<open>return xret\<close>.
\<close>

definition draw_finish ::
  "env \<Rightarrow> comp_window_peek option \<Rightarrow> comp_renderer
     \<Rightarrow> error + (xrt_result \<times> comp_renderer)" where
  "draw_finish env c_peek r =
     (case renderer_present_swapchain_image env c_peek r of
        Inl e \<Rightarrow> Inl e
      | Inr r1 \<Rightarrow>
          let fid = frame_id (rendering r1);
              desired_present_time = desired_present_time_ns (rendering r1);
              r2 = r1\<lparr>rendering := comp_frame_clear_locked (rendering r1)\<rparr>;
              r3 = emit Mirror_fixup_ui_state r2;
              active = o_mirror_is_ready_and_active env (trace r3);
              r4 = emit (Mirror_is_ready_and_active active) r3;
              xret = (if active then o_mirror_do_blit env (trace r4) else XRT_SUCCESS);
              r5 = (if active then emit (Mirror_do_blit xret) r4 else r4);
              r6 = renderer_wait_queue_idle r5;
              r7 = emit Frame_state_fini r6;
              r8 = (if xret = XRT_SUCCESS
                    then (case o_get_timestamps env (trace r7) of
                            None \<Rightarrow> emit (Get_timestamps False) r7
                          | Some (gpu_start_ns, gpu_end_ns) \<Rightarrow>
                              (case os_monotonic_get_ns env (emit (Get_timestamps True) r7) of
                                 (now_ns, r') \<Rightarrow>
                                   emit (Target_info_gpu fid gpu_start_ns gpu_end_ns now_ns) r'))
                    else r7)
          in (case renderer_wait_for_present env c_peek desired_present_time r8 of
                Inl e \<Rightarrow> Inl e
              | Inr r9 \<Rightarrow> Inr (xret, emit Target_update_timings r9)))"

text \<open>
  \<open>draw_render\<close> is the part from \<open>comp_target_flush\<close> to the peek blit. A peek blit
  that does not return keeps the frame from returning (\<open>None\<close>), and one that leaves
  defined behaviour takes the frame with it.
\<close>

definition draw_render ::
  "env \<Rightarrow> comp_window_peek option \<Rightarrow> comp_renderer
     \<Rightarrow> (error + (xrt_result \<times> comp_renderer)) option" where
  "draw_render env c_peek r =
     (let r1 = emit Target_flush r;
          r2 = emit Target_update_timings r1
      in case (if sint (acquired_buffer r2) < 0
               then renderer_acquire_swapchain_image env c_peek r2 else Inr r2) of
           Inl e \<Rightarrow> Some (Inl e)
         | Inr r3 \<Rightarrow>
             let r4 = emit Target_update_timings r3
             in if \<not> (\<not> one_projection_layer_fast_path r4 \<or> 1 \<le> layer_count r4)
                then Some (Inl (Assertion_failed ''!fast_path || c->base.layer_accum.layer_count >= 1''))
                else
                  let r5 = emit Frame_state_init r4
                  in (case (if use_compute r5 then dispatch_compute env r5
                            else dispatch_graphics env r5) of
                        Inl e \<Rightarrow> Some (Inl e)
                      | Inr (res, r6) \<Rightarrow>
                          if res \<noteq> VK_SUCCESS then Some (Inr (XRT_ERROR_VULKAN, r6))
                          else
                            (case (case c_peek of
                                     None \<Rightarrow> Some (Inr (trace r6))
                                   | Some w \<Rightarrow> comp_window_peek_blit env w (trace r6)) of
                               None \<Rightarrow> None
                             | Some (Inl e) \<Rightarrow> Some (Inl e)
                             | Some (Inr tr) \<Rightarrow>
                                 Some (draw_finish env c_peek (r6\<lparr>trace := tr\<rparr>)))))"

definition comp_renderer_draw ::
  "env \<Rightarrow> comp_window_peek option \<Rightarrow> comp_renderer
     \<Rightarrow> (error + (xrt_result \<times> comp_renderer)) option" where
  "comp_renderer_draw env c_peek r =
     (if comp_frame_is_invalid_locked (waited r)
      then Some (Inl (Assertion_failed ''!comp_frame_is_invalid_locked(&c->frame.waited)''))
      else if \<not> comp_frame_is_invalid_locked (rendering r)
      then Some (Inl (Assertion_failed ''comp_frame_is_invalid_locked(&c->frame.rendering)''))
      else
        case comp_frame_move_and_clear_locked (rendering r) (waited r) of
          Inl e \<Rightarrow> Some (Inl e)
        | Inr (dst, src) \<Rightarrow>
            let r1 = r\<lparr>rendering := dst, waited := src\<rparr>;
                fid = frame_id (rendering r1);
                r2 = comp_target_mark env COMP_TARGET_TIMING_POINT_BEGIN fid r1
            in (case comp_target_check_ready env r2 of
                  (ready, r3) \<Rightarrow>
                    if \<not> ready then
                      let r4 = comp_target_mark env COMP_TARGET_TIMING_POINT_SUBMIT_BEGIN fid r3;
                          r5 = comp_target_mark env COMP_TARGET_TIMING_POINT_SUBMIT_END fid r4
                      in Some (Inr (XRT_SUCCESS,
                                    r5\<lparr>rendering := comp_frame_clear_locked (rendering r5)\<rparr>))
                    else draw_render env c_peek r3))"

subsection \<open>Example runs\<close>

text \<open>
  A target with two images that is always ready and answers every call with success,
  image 0 on every acquire, a clock that stands at 0, no debug mirror, no GPU
  timestamps, and a peek target of 640 by 480 that is ready.
\<close>

definition env_fine :: env where
  "env_fine =
     \<lparr>o_now_ns = (\<lambda>tr. 0),
      o_check_ready = (\<lambda>tr. True),
      o_has_images = (\<lambda>tr. True),
      o_image_count = (\<lambda>tr. 2),
      o_acquire = (\<lambda>tr. (VK_SUCCESS, Some 0)),
      o_present = (\<lambda>tr. VK_SUCCESS),
      o_wait_for_present_supported = False,
      o_wait_for_present = (\<lambda>tr. VK_ERROR_EXTENSION_NOT_PRESENT),
      o_distortion_images_ensure = (\<lambda>tr. True),
      o_wait_for_fences = (\<lambda>tr. VK_SUCCESS),
      o_reset_fences = (\<lambda>tr. VK_SUCCESS),
      o_cmd_submit = (\<lambda>tr. VK_SUCCESS),
      o_mirror_is_ready_and_active = (\<lambda>tr. False),
      o_mirror_do_blit = (\<lambda>tr. XRT_SUCCESS),
      o_get_timestamps = (\<lambda>tr. None),
      o_peek_check_ready = (\<lambda>tr. True),
      o_peek_extent = (\<lambda>tr. (640, 480)),
      o_peek_acquire = (\<lambda>tr. (VK_SUCCESS, Some 0)),
      o_peek_end_command_buffer = (\<lambda>tr. VK_SUCCESS),
      o_peek_submit = (\<lambda>tr. VK_SUCCESS),
      o_peek_present = (\<lambda>tr. VK_SUCCESS)\<rparr>"

text \<open>The renderer as \<open>renderer_init\<close> leaves it, with frame 7 waited for.\<close>

definition frame_none :: comp_frame where
  "frame_none =
     \<lparr>frame_id = - 1, predicted_display_time_ns = 0, desired_present_time_ns = 0,
      present_slop_ns = 0\<rparr>"

definition frame7 :: comp_frame where
  "frame7 =
     \<lparr>frame_id = 7, predicted_display_time_ns = 0, desired_present_time_ns = 0,
      present_slop_ns = 0\<rparr>"

definition renderer0 :: comp_renderer where
  "renderer0 =
     \<lparr>acquired_buffer = - 1, fenced_buffer = - 1, rtr_array = False, fences = False,
      buffer_count = 0, waited = frame7, rendering = frame_none, use_compute = False,
      one_projection_layer_fast_path = False, layer_count = 0, trace = []\<rparr>"

text \<open>A peek window of the size of its swapchain, shown and running.\<close>

definition peek_shown :: comp_window_peek where
  "peek_shown =
     \<lparr>eye = COMP_WINDOW_PEEK_EYE_LEFT, peek_width = 640, peek_height = 480,
      running = True, hidden = False\<rparr>"

text \<open>Frame 8, the frame after frame 7.\<close>

definition frame8 :: comp_frame where
  "frame8 =
     \<lparr>frame_id = 8, predicted_display_time_ns = 0, desired_present_time_ns = 0,
      present_slop_ns = 0\<rparr>"

text \<open>The queue submission fails: the device is lost.\<close>

definition env_submit_fails :: env where
  "env_submit_fails = env_fine\<lparr>o_cmd_submit := (\<lambda>tr. VK_ERROR_DEVICE_LOST)\<rparr>"

text \<open>The target is not ready.\<close>

definition env_not_ready :: env where
  "env_not_ready = env_fine\<lparr>o_check_ready := (\<lambda>tr. False)\<rparr>"

text \<open>Every acquire of the target answers out-of-date and writes no index.\<close>

definition env_always_stale :: env where
  "env_always_stale = env_fine\<lparr>o_acquire := (\<lambda>tr. (VK_ERROR_OUT_OF_DATE_KHR, None))\<rparr>"

text \<open>
  The first acquire answers out-of-date, the later ones succeed with image 1.
\<close>

definition env_stale_once :: env where
  "env_stale_once =
     env_fine\<lparr>o_acquire := (\<lambda>tr. if filter is_acquire tr = []
                                    then (VK_ERROR_OUT_OF_DATE_KHR, None)
                                    else (VK_SUCCESS, Some 1))\<rparr>"

text \<open>
  Every acquire answers out-of-date and writes no index, and the target is ready only
  until the first acquire has been made: its window goes away while the frame is drawn.
\<close>

definition env_target_vanishes :: env where
  "env_target_vanishes =
     env_fine\<lparr>o_acquire := (\<lambda>tr. (VK_ERROR_OUT_OF_DATE_KHR, None)),
              o_check_ready := (\<lambda>tr. filter is_acquire tr = [])\<rparr>"

text \<open>The present answers out-of-date and the target is not ready: its window is gone.\<close>

definition env_target_gone :: env where
  "env_target_gone =
     env_fine\<lparr>o_present := (\<lambda>tr. VK_ERROR_OUT_OF_DATE_KHR), o_check_ready := (\<lambda>tr. False)\<rparr>"

text \<open>The peek target is never ready.\<close>

definition env_peek_never_ready :: env where
  "env_peek_never_ready = env_fine\<lparr>o_peek_check_ready := (\<lambda>tr. False)\<rparr>"

text \<open>
  The target supports waiting for the present; the clock stands at 10 ms until that
  wait has returned and at 10.5 ms afterwards.
\<close>

definition env_short_wait :: env where
  "env_short_wait =
     env_fine\<lparr>o_wait_for_present_supported := True,
              o_wait_for_present := (\<lambda>tr. VK_SUCCESS),
              o_now_ns := (\<lambda>tr. if filter (\<lambda>e. e = Target_wait_for_present VK_SUCCESS) tr = []
                                  then 10000000 else 10500000)\<rparr>"

text \<open>The same target with a wait of 5 ms, from 10 ms to 15 ms.\<close>

definition env_long_wait :: env where
  "env_long_wait =
     env_fine\<lparr>o_wait_for_present_supported := True,
              o_wait_for_present := (\<lambda>tr. VK_SUCCESS),
              o_now_ns := (\<lambda>tr. if filter (\<lambda>e. e = Target_wait_for_present VK_SUCCESS) tr = []
                                  then 10000000 else 15000000)\<rparr>"

text \<open>
  A renderer in the middle of a run: buffer 0 was submitted and its fence is pending,
  buffer 1 is acquired for frame 7.
\<close>

definition renderer_in_flight :: comp_renderer where
  "renderer_in_flight =
     renderer0\<lparr>acquired_buffer := 1, fenced_buffer := 0, rtr_array := True, fences := True,
               buffer_count := 2, waited := frame_none, rendering := frame7,
               trace := [Queue_submit 0 VK_SUCCESS]\<rparr>"

text \<open>A failed step on the main path of the frame: a fence reset or a submission.\<close>

definition is_failed_submission :: "event \<Rightarrow> bool" where
  "is_failed_submission e =
     (case e of
        Fence_reset i ret \<Rightarrow> ret \<noteq> VK_SUCCESS
      | Queue_submit i ret \<Rightarrow> ret \<noteq> VK_SUCCESS
      | _ \<Rightarrow> False)"

text \<open>The events of the peek blit: those of the peek window and its error lines.\<close>

definition is_peek_or_log :: "event \<Rightarrow> bool" where
  "is_peek_or_log e = (is_peek_event e \<or> (case e of Log_error s \<Rightarrow> True | _ \<Rightarrow> False))"

definition peek_events :: "event list \<Rightarrow> bool" where
  "peek_events evs \<longleftrightarrow> (\<forall>e \<in> set evs. is_peek_or_log e)"

section \<open>Properties of the feature report builder\<close>

lemma memcpy_at_ok:
  "off + n \<le> length buffer \<Longrightarrow> n \<le> length src \<Longrightarrow>
   memcpy_at buffer off src n = Inr (take off buffer @ take n src @ drop (off + n) buffer)"
  by (simp add: memcpy_at_def)

lemma unat_of_nat_size:
  "n < 2 ^ 64 \<Longrightarrow> unat (of_nat n :: 64 word) = n"
  by (simp add: unat_of_nat take_bit_nat_eq_self)

lemma unat_cap_minus_one:
  assumes "n < 2 ^ 64" "0 < n"
  shows "unat ((of_nat n :: 64 word) - 1) = n - 1"
proof -
  have "(of_nat n :: 64 word) - 1 = of_nat (n - 1)"
    using assms by simp
  moreover have "n - 1 < 2 ^ 64" using assms by simp
  ultimately show ?thesis by (simp add: unat_of_nat_size)
qed

lemma first_check:
  assumes "n < 2 ^ 64"
  shows "((1 :: 64 word) > of_nat n - 0) = (n = 0)"
proof -
  have "unat (of_nat n :: 64 word) = n" using assms by (rule unat_of_nat_size)
  then show ?thesis by (auto simp: word_less_nat_alt)
qed

lemma unat_one_plus:
  assumes "1 + unat (d :: 64 word) < 2 ^ 64"
  shows "unat (0 + 1 + d) = 1 + unat d"
  using assms by (simp add: unat_add_lem [THEN iffD1])

text \<open>
  Claim C10. Whatever the report id and the data, \<open>rift_send_report\<close> stays inside its
  stack buffer of \<open>REPORT_MAX_SIZE\<close> bytes (the result is never one of the two
  out-of-bounds errors). When \<open>1 + data_length\<close> exceeds \<open>REPORT_MAX_SIZE\<close> it
  returns \<open>-1\<close> and \<open>os_hid_set_feature\<close> is not invoked. Otherwise
  \<open>os_hid_set_feature\<close> receives exactly \<open>1 + data_length\<close> bytes, the report id
  followed by the data, and the call returns the negative answer of the HID layer, or 0.
  The caller's obligations are hypotheses: the buffer has \<open>REPORT_MAX_SIZE\<close> bytes, a
  size that fits \<open>size_t\<close>, and \<open>data\<close> points to at least \<open>data_length\<close> bytes.
\<close>

theorem rift_send_report_bounds:
  assumes cap: "REPORT_MAX_SIZE < 2 ^ 64"
    and buf: "length buffer0 = REPORT_MAX_SIZE"
    and src: "unat data_length \<le> length data"
  shows "(REPORT_MAX_SIZE < 1 + unat data_length \<longrightarrow>
            rift_send_report REPORT_MAX_SIZE os_hid_set_feature buffer0 report_id data data_length
              = Inr (- 1, None)) \<and>
         (1 + unat data_length \<le> REPORT_MAX_SIZE \<longrightarrow>
            rift_send_report REPORT_MAX_SIZE os_hid_set_feature buffer0 report_id data data_length
              = Inr (if os_hid_set_feature (report_id # take (unat data_length) data) < 0
                     then os_hid_set_feature (report_id # take (unat data_length) data) else 0,
                     Some (report_id # take (unat data_length) data)) \<and>
            length (report_id # take (unat data_length) data) = 1 + unat data_length)"
proof (cases "REPORT_MAX_SIZE = 0")
  case True
  then show ?thesis by (simp add: rift_send_report_def)
next
  case False
  then have pos: "0 < REPORT_MAX_SIZE" by simp
  have c1: "\<not> (1 :: 64 word) > of_nat REPORT_MAX_SIZE - 0"
    using first_check [OF cap] False by simp
  have m1: "memcpy_at buffer0 (unat (0 :: 64 word)) [report_id] 1 = Inr (report_id # drop 1 buffer0)"
    using buf pos by (simp add: memcpy_at_def)
  have c2: "(data_length > of_nat REPORT_MAX_SIZE - (0 + 1)) = (REPORT_MAX_SIZE < 1 + unat data_length)"
    using unat_cap_minus_one [OF cap pos] pos by (auto simp: word_less_nat_alt)
  show ?thesis
  proof (intro conjI impI)
    assume "REPORT_MAX_SIZE < 1 + unat data_length"
    then show "rift_send_report REPORT_MAX_SIZE os_hid_set_feature buffer0 report_id data data_length
              = Inr (- 1, None)"
      using c1 m1 c2 by (simp add: rift_send_report_def Let_def)
  next
    assume fit: "1 + unat data_length \<le> REPORT_MAX_SIZE"
    let ?n = "unat data_length"
    let ?b1 = "report_id # drop 1 buffer0"
    have m2: "memcpy_at ?b1 (unat (0 + 1 :: 64 word)) data ?n
                = Inr (report_id # take ?n data @ drop (1 + ?n) ?b1)"
      using fit buf src pos by (simp add: memcpy_at_def)
    have l2: "unat (0 + 1 + data_length) = 1 + ?n"
      using fit cap by (intro unat_one_plus) simp
    have tk: "take (1 + ?n) (report_id # take ?n data @ drop (1 + ?n) ?b1) = report_id # take ?n data"
      using src by simp
    show "rift_send_report REPORT_MAX_SIZE os_hid_set_feature buffer0 report_id data data_length
              = Inr (if os_hid_set_feature (report_id # take ?n data) < 0
                     then os_hid_set_feature (report_id # take ?n data) else 0,
                     Some (report_id # take ?n data))"
      using c1 m1 c2 fit m2 l2 tk
      by (simp add: rift_send_report_def Let_def del: add_0 One_nat_def)
    show "length (report_id # take ?n data) = 1 + ?n" using src by simp
  qed
qed

theorem rift_send_report_bounds_witness:
  "rift_send_report 4 (\<lambda>bs. 0) [0, 0, 0, 0] 7 [1, 2] 2 = Inr (0, Some [7, 1, 2]) \<and>
   rift_send_report 4 (\<lambda>bs. 0) [0, 0, 0, 0] 7 [1, 2, 3, 4] 4 = Inr (- 1, None)"
  using rift_send_report_bounds [of 4 "[0, 0, 0, 0]" 2 "[1, 2]" "\<lambda>bs. 0" 7]
    rift_send_report_bounds [of 4 "[0, 0, 0, 0]" 4 "[1, 2, 3, 4]" "\<lambda>bs. 0" 7]
  by (simp add: rift_send_report_def memcpy_at_def)

section \<open>Properties of the scratch images\<close>


lemmas scratch_prims =
  render_gfx_render_pass_init_def render_gfx_render_pass_fini_def
  comp_scratch_single_images_ensure_def comp_scratch_single_images_free_def
  render_gfx_target_resources_init_def render_gfx_target_resources_fini_def

lemma fold_fini:
  "fold (render_gfx_target_resources_fini i) ks s =
     s\<lparr>live := live s - Target_resources i ` set ks,
       calls := calls s @ map (Target_resources_fini i) ks\<rparr>"
proof (induction ks arbitrary: s)
  case Nil
  show ?case by simp
next
  case (Cons k ks)
  have "fold (render_gfx_target_resources_fini i) (k # ks) s =
          fold (render_gfx_target_resources_fini i) ks (render_gfx_target_resources_fini i k s)"
    by simp
  also have "\<dots> = (render_gfx_target_resources_fini i k s)
      \<lparr>live := live (render_gfx_target_resources_fini i k s) - Target_resources i ` set ks,
       calls := calls (render_gfx_target_resources_fini i k s) @ map (Target_resources_fini i) ks\<rparr>"
    by (rule Cons.IH)
  also have "\<dots> = s\<lparr>live := live s - Target_resources i ` set (k # ks),
       calls := calls s @ map (Target_resources_fini i) (k # ks)\<rparr>"
    by (rule chl_scratch.equality) (auto simp: render_gfx_target_resources_fini_def)
  finally show ?case .
qed

lemma fold_init:
  "fold (render_gfx_target_resources_init i) ks s =
     s\<lparr>live := live s \<union> Target_resources i ` set ks,
       calls := calls s @ map (Target_resources_init i) ks\<rparr>"
proof (induction ks arbitrary: s)
  case Nil
  show ?case by simp
next
  case (Cons k ks)
  have "fold (render_gfx_target_resources_init i) (k # ks) s =
          fold (render_gfx_target_resources_init i) ks (render_gfx_target_resources_init i k s)"
    by simp
  also have "\<dots> = (render_gfx_target_resources_init i k s)
      \<lparr>live := live (render_gfx_target_resources_init i k s) \<union> Target_resources i ` set ks,
       calls := calls (render_gfx_target_resources_init i k s) @ map (Target_resources_init i) ks\<rparr>"
    by (rule Cons.IH)
  also have "\<dots> = s\<lparr>live := live s \<union> Target_resources i ` set (k # ks),
       calls := calls s @ map (Target_resources_init i) (k # ks)\<rparr>"
    by (rule chl_scratch.equality) (auto simp: render_gfx_target_resources_init_def)
  finally show ?case .
qed

lemma free_view_eq:
  "free_view env i s =
     s\<lparr>live := live s - view_resources env i, calls := calls s @ free_view_calls env i\<rparr>"
  by (rule chl_scratch.equality)
    (auto simp: free_view_def fold_fini comp_scratch_single_images_free_def
      view_resources_def free_view_calls_def atLeast0LessThan)

lemma fold_free_view:
  "fold (free_view env) js s =
     s\<lparr>live := live s - (\<Union>i \<in> set js. view_resources env i),
       calls := calls s @ concat (map (free_view_calls env) js)\<rparr>"
proof (induction js arbitrary: s)
  case Nil
  show ?case by simp
next
  case (Cons j js)
  have "fold (free_view env) (j # js) s = fold (free_view env) js (free_view env j s)"
    by simp
  also have "\<dots> = (free_view env j s)
      \<lparr>live := live (free_view env j s) - (\<Union>i \<in> set js. view_resources env i),
       calls := calls (free_view env j s) @ concat (map (free_view_calls env) js)\<rparr>"
    by (rule Cons.IH)
  also have "\<dots> = s\<lparr>live := live s - (\<Union>i \<in> set (j # js). view_resources env i),
       calls := calls s @ concat (map (free_view_calls env) (j # js))\<rparr>"
    by (rule chl_scratch.equality) (auto simp: free_view_eq)
  finally show ?case .
qed

lemma accounted_eq:
  "accounted env rp n =
     (if rp then {Render_pass} else {}) \<union> (\<Union>i \<in> {..<n}. view_resources env i)"
  by (auto simp: accounted_def view_resources_def)

lemma free_resources_fields:
  "view_count (chl_scratch_free_resources env s) = 0"
  "width (extent (chl_scratch_free_resources env s)) = 0"
  "height (extent (chl_scratch_free_resources env s)) = 0"
  "format (chl_scratch_free_resources env s) = VK_FORMAT_UNDEFINED"
  "\<not> render_pass_initialized (chl_scratch_free_resources env s)"
  by (simp_all add: chl_scratch_free_resources_def Let_def render_gfx_render_pass_fini_def)

lemma free_resources_live:
  "live (chl_scratch_free_resources env s) =
     live s - accounted env (render_pass_initialized s) (unat (view_count s))"
  by (auto simp: chl_scratch_free_resources_def Let_def render_gfx_render_pass_fini_def
      fold_free_view accounted_eq atLeast0LessThan)

lemma free_resources_calls:
  "calls (chl_scratch_free_resources env s) =
     calls s @ concat (map (free_view_calls env) [0..<unat (view_count s)]) @
     (if render_pass_initialized s then [Render_pass_fini] else [])"
  by (simp add: chl_scratch_free_resources_def Let_def render_gfx_render_pass_fini_def
      fold_free_view)

lemma free_resources_clean:
  "scratch_inv env s \<Longrightarrow> nothing_allocated (chl_scratch_free_resources env s)"
  by (simp add: nothing_allocated_def free_resources_fields free_resources_live scratch_inv_def)

lemma images_ensure_fields:
  "comp_scratch_single_images_ensure env i m s = (b, s1) \<Longrightarrow>
     view_count s1 = view_count s \<and> extent s1 = extent s \<and> format s1 = format s \<and>
     render_pass_initialized s1 = render_pass_initialized s \<and>
     live s1 = (if b then insert (Scratch_images i) (live s) else live s) \<and>
     calls s1 = calls s @ [Images_ensure i m b]"
  by (auto simp: comp_scratch_single_images_ensure_def Let_def)

lemma unat_of_nat_word32:
  "n < 2 ^ 32 \<Longrightarrow> unat (of_nat n :: 32 word) = n"
  by (simp add: unat_of_nat take_bit_nat_eq_self)

lemma unat_Suc_word32:
  assumes "Suc j < 2 ^ 32"
  shows "unat (1 + of_nat j :: 32 word) = Suc j"
  using unat_of_nat_word32 [OF assms] by simp

lemma accounted_Suc:
  "accounted env rp (Suc j) = accounted env rp j \<union> view_resources env j"
  by (auto simp: accounted_eq lessThan_Suc)

lemma ensure_views_fail:
  "scratch_inv env s \<Longrightarrow> unat (view_count s) = j \<Longrightarrow> n < 2 ^ 32 \<Longrightarrow>
   ensure_views env e f [j..<n] s = (False, s') \<Longrightarrow> nothing_allocated s'"
proof (induction "n - j" arbitrary: j s)
  case 0
  then have "[j..<n] = []" by simp
  with "0.prems" show ?case by simp
next
  case (Suc d)
  then have jn: "j < n" by simp
  then have upt: "[j..<n] = j # [Suc j..<n]" by (rule upt_conv_Cons)
  obtain b s1 where ens:
    "comp_scratch_single_images_ensure env j (f = VK_FORMAT_R8G8B8A8_SRGB) s = (b, s1)"
    by (cases "comp_scratch_single_images_ensure env j (f = VK_FORMAT_R8G8B8A8_SRGB) s")
  note flds = images_ensure_fields [OF ens]
  show ?case
  proof (cases b)
    case False
    then have "s' = chl_scratch_free_resources env s1"
      using Suc.prems(4) upt ens by simp
    moreover have "scratch_inv env s1"
      using Suc.prems(1) flds False by (simp add: scratch_inv_def)
    ultimately show ?thesis by (simp add: free_resources_clean)
  next
    case True
    let ?s3 = "(fold (render_gfx_target_resources_init j) [0..<COMP_SCRATCH_NUM_IMAGES env] s1)
                 \<lparr>view_count := of_nat (j + 1)\<rparr>"
    have run: "ensure_views env e f [Suc j..<n] ?s3 = (False, s')"
      using Suc.prems(4) upt ens True by (simp add: Let_def)
    have vc: "unat (view_count ?s3) = Suc j"
      using jn Suc.prems(3) by (simp add: unat_Suc_word32)
    have "live ?s3 = live s \<union> view_resources env j"
      using flds True by (auto simp: fold_init view_resources_def atLeast0LessThan)
    moreover have "render_pass_initialized ?s3 = render_pass_initialized s"
      using flds by (simp add: fold_init)
    ultimately have inv: "scratch_inv env ?s3"
      using Suc.prems(1,2) vc by (auto simp: scratch_inv_def accounted_Suc)
    have "d = n - Suc j" using Suc.hyps(2) by simp
    from Suc.hyps(1) [OF this inv vc Suc.prems(3) run] show ?thesis .
  qed
qed

lemma ensure_views_ok:
  "ensure_views env e f js s = (True, s') \<Longrightarrow>
     view_count s' = (if js = [] then view_count s else of_nat (last js + 1)) \<and>
     extent s' = extent s \<and> format s' = format s"
proof (induction js arbitrary: s)
  case Nil
  then show ?case by simp
next
  case (Cons j js)
  obtain b s1 where ens:
    "comp_scratch_single_images_ensure env j (f = VK_FORMAT_R8G8B8A8_SRGB) s = (b, s1)"
    by (cases "comp_scratch_single_images_ensure env j (f = VK_FORMAT_R8G8B8A8_SRGB) s")
  note flds = images_ensure_fields [OF ens]
  let ?s3 = "(fold (render_gfx_target_resources_init j) [0..<COMP_SCRATCH_NUM_IMAGES env] s1)
               \<lparr>view_count := of_nat (j + 1)\<rparr>"
  have b: b using Cons.prems ens by (auto split: if_splits)
  then have run: "ensure_views env e f js ?s3 = (True, s')"
    using Cons.prems ens by (simp add: Let_def)
  from Cons.IH [OF run] flds show ?case by (simp add: fold_init)
qed

lemma ensure_views_calls:
  "\<exists>rest. calls (snd (ensure_views env e f js s)) = calls s @ rest"
proof (induction js arbitrary: s)
  case Nil
  show ?case by simp
next
  case (Cons j js)
  obtain b s1 where ens:
    "comp_scratch_single_images_ensure env j (f = VK_FORMAT_R8G8B8A8_SRGB) s = (b, s1)"
    by (cases "comp_scratch_single_images_ensure env j (f = VK_FORMAT_R8G8B8A8_SRGB) s")
  note flds = images_ensure_fields [OF ens]
  show ?case
  proof (cases b)
    case False
    then show ?thesis using ens flds by (simp add: free_resources_calls)
  next
    case True
    let ?s3 = "(fold (render_gfx_target_resources_init j) [0..<COMP_SCRATCH_NUM_IMAGES env] s1)
                 \<lparr>view_count := of_nat (j + 1)\<rparr>"
    obtain rest where "calls (snd (ensure_views env e f js ?s3)) = calls ?s3 @ rest"
      using Cons.IH by blast
    then show ?thesis using ens True flds by (simp add: Let_def fold_init)
  qed
qed

lemma last_upt_word:
  assumes "vc \<noteq> (0 :: 32 word)"
  shows "1 + of_nat (last [0..<unat vc]) = vc"
proof -
  obtain m where m: "unat vc = Suc m"
    using assms by (cases "unat vc") (auto simp: unat_eq_0)
  have "of_nat (unat vc) = vc" by simp
  then have "of_nat (Suc m) = vc" using m by simp
  then show ?thesis using m by simp
qed

lemma chl_scratch_ensure_configured:
  assumes "chl_scratch_ensure env s vc e f = (True, s1)"
  shows "view_count s1 = vc \<and> width (extent s1) = width e \<and>
         height (extent s1) = height e \<and> format s1 = f"
proof (cases "view_count s = vc \<and> width (extent s) = width e \<and>
         height (extent s) = height e \<and> format s = f")
  case True
  then show ?thesis using assms by (simp add: chl_scratch_ensure_def)
next
  case False
  let ?s0 = "chl_scratch_free_resources env s"
  obtain b s2 where rp: "render_gfx_render_pass_init env f ?s0 = (b, s2)"
    by (cases "render_gfx_render_pass_init env f ?s0")
  obtain ok s4 where ev:
    "ensure_views env e f [0..<unat vc] (s2\<lparr>render_pass_initialized := True\<rparr>) = (ok, s4)"
    by (cases "ensure_views env e f [0..<unat vc] (s2\<lparr>render_pass_initialized := True\<rparr>)")
  have b: b and ok: ok and s1: "s1 = s4\<lparr>extent := e, format := f\<rparr>"
    using assms False rp ev by (auto simp: chl_scratch_ensure_def split: if_splits)
  have "view_count s2 = 0"
    using rp by (auto simp: render_gfx_render_pass_init_def Let_def free_resources_fields)
  then have "view_count s4 = vc"
    using ensure_views_ok [OF ev [unfolded ok [THEN eqTrueI]]]
    by (cases "unat vc = 0") (auto simp: last_upt_word unat_eq_0)
  then show ?thesis using s1 by simp
qed

lemma chl_scratch_ensure_failed:
  assumes inv: "scratch_inv env s"
    and fail: "chl_scratch_ensure env s vc e f = (False, s')"
  shows "nothing_allocated s'"
proof -
  have nomatch: "\<not> (view_count s = vc \<and> width (extent s) = width e \<and>
         height (extent s) = height e \<and> format s = f)"
    using fail by (auto simp: chl_scratch_ensure_def)
  let ?s0 = "chl_scratch_free_resources env s"
  have clean0: "nothing_allocated ?s0" using inv by (rule free_resources_clean)
  obtain b s2 where rp: "render_gfx_render_pass_init env f ?s0 = (b, s2)"
    by (cases "render_gfx_render_pass_init env f ?s0")
  show ?thesis
  proof (cases b)
    case False
    then have "s' = s2" using fail nomatch rp by (simp add: chl_scratch_ensure_def)
    moreover have "nothing_allocated s2"
      using rp False clean0
      by (auto simp: render_gfx_render_pass_init_def Let_def nothing_allocated_def)
    ultimately show ?thesis by simp
  next
    case True
    let ?s3 = "s2\<lparr>render_pass_initialized := True\<rparr>"
    obtain ok s4 where ev: "ensure_views env e f [0..<unat vc] ?s3 = (ok, s4)"
      by (cases "ensure_views env e f [0..<unat vc] ?s3")
    have notok: "\<not> ok" and s': "s' = s4"
      using fail nomatch rp True ev by (auto simp: chl_scratch_ensure_def split: if_splits)
    have inv3: "scratch_inv env ?s3"
      using rp clean0
      by (auto simp: render_gfx_render_pass_init_def Let_def nothing_allocated_def
          scratch_inv_def accounted_def)
    have vc3: "unat (view_count ?s3) = 0"
      using rp clean0
      by (auto simp: render_gfx_render_pass_init_def Let_def nothing_allocated_def)
    have bound: "unat vc < 2 ^ 32" using unsigned_less [of vc] by simp
    from ensure_views_fail [OF inv3 vc3 bound] ev notok s' show ?thesis by simp
  qed
qed

lemma free_calls_are_frees: "list_all is_free_call (free_calls env s)"
  by (auto simp: free_calls_def free_view_calls_def list_all_iff)

lemma ensure_views_ok_calls:
  "ensure_views env e f js s = (True, s') \<Longrightarrow>
     calls s' = calls s @ concat (map (ensure_view_calls env f) js)"
proof (induction js arbitrary: s)
  case Nil
  then show ?case by simp
next
  case (Cons j js)
  obtain b s1 where ens:
    "comp_scratch_single_images_ensure env j (f = VK_FORMAT_R8G8B8A8_SRGB) s = (b, s1)"
    by (cases "comp_scratch_single_images_ensure env j (f = VK_FORMAT_R8G8B8A8_SRGB) s")
  note flds = images_ensure_fields [OF ens]
  let ?s3 = "(fold (render_gfx_target_resources_init j) [0..<COMP_SCRATCH_NUM_IMAGES env] s1)
               \<lparr>view_count := of_nat (j + 1)\<rparr>"
  have b: b using Cons.prems ens by (auto split: if_splits)
  then have run: "ensure_views env e f js ?s3 = (True, s')"
    using Cons.prems ens by (simp add: Let_def)
  from Cons.IH [OF run] flds b show ?case by (simp add: fold_init ensure_view_calls_def)
qed

lemma ensure_views_result:
  "fst (ensure_views env e f js s) = (\<forall>i \<in> set js. images_ensure_ok env i)"
proof (induction js arbitrary: s)
  case Nil
  show ?case by simp
next
  case (Cons j js)
  show ?case
    by (simp add: comp_scratch_single_images_ensure_def Let_def Cons.IH)
qed

text \<open>
  Claim C4. \<open>chl_scratch_ensure\<close> called with the view count, extent and format that are
  already configured returns true and leaves the scratch as it is: no call is made,
  nothing is freed or created. So a second call with the arguments of a successful
  first call returns true again, does no work, and this whatever the second call's
  allocations would have answered. Called with other arguments, it first makes the
  calls of \<open>chl_scratch_free_resources\<close>, all of them releases, after which (for a
  scratch whose objects are all accounted for) no object is left, and only then
  initialises the render pass and, when all succeeds, creates the images and the render
  target resources of each requested view in turn.
\<close>

theorem chl_scratch_ensure_idempotent:
  "(configured s vc e f \<longrightarrow> chl_scratch_ensure env s vc e f = (True, s)) \<and>
   (chl_scratch_ensure env s vc e f = (True, s1) \<longrightarrow>
      chl_scratch_ensure env' s1 vc e f = (True, s1)) \<and>
   (\<not> configured s vc e f \<longrightarrow>
      calls (chl_scratch_free_resources env s) = calls s @ free_calls env s \<and>
      list_all is_free_call (free_calls env s) \<and>
      (scratch_inv env s \<longrightarrow> live (chl_scratch_free_resources env s) = {}) \<and>
      (\<exists>rest. calls (snd (chl_scratch_ensure env s vc e f)) =
         calls s @ free_calls env s @ Render_pass_init f (render_pass_init_ok env) # rest) \<and>
      (chl_scratch_ensure env s vc e f = (True, s1) \<longrightarrow>
         calls s1 = calls s @ free_calls env s @ Render_pass_init f True #
                    concat (map (ensure_view_calls env f) [0..<unat vc])))"
proof (intro conjI impI)
  assume "configured s vc e f"
  then show "chl_scratch_ensure env s vc e f = (True, s)"
    by (simp add: chl_scratch_ensure_def configured_def)
next
  assume "chl_scratch_ensure env s vc e f = (True, s1)"
  from chl_scratch_ensure_configured [OF this]
  show "chl_scratch_ensure env' s1 vc e f = (True, s1)"
    by (simp add: chl_scratch_ensure_def)
next
  show "calls (chl_scratch_free_resources env s) = calls s @ free_calls env s"
    by (simp add: free_resources_calls free_calls_def)
next
  show "list_all is_free_call (free_calls env s)" by (rule free_calls_are_frees)
next
  assume "scratch_inv env s"
  from free_resources_clean [OF this]
  show "live (chl_scratch_free_resources env s) = {}" by (simp add: nothing_allocated_def)
next
  assume nc: "\<not> configured s vc e f"
  let ?s0 = "chl_scratch_free_resources env s"
  let ?s2 = "snd (render_gfx_render_pass_init env f ?s0)"
  have c2: "calls ?s2 = calls s @ free_calls env s @ [Render_pass_init f (render_pass_init_ok env)]"
    by (simp add: render_gfx_render_pass_init_def Let_def free_resources_calls free_calls_def)
  obtain rest where
    "calls (snd (ensure_views env e f [0..<unat vc] (?s2\<lparr>render_pass_initialized := True\<rparr>))) =
       calls (?s2\<lparr>render_pass_initialized := True\<rparr>) @ rest"
    using ensure_views_calls by blast
  then show "\<exists>rest. calls (snd (chl_scratch_ensure env s vc e f)) =
         calls s @ free_calls env s @ Render_pass_init f (render_pass_init_ok env) # rest"
    using nc c2
    by (auto simp: chl_scratch_ensure_def configured_def split: prod.splits)
next
  assume nc: "\<not> configured s vc e f"
    and ok: "chl_scratch_ensure env s vc e f = (True, s1)"
  let ?s0 = "chl_scratch_free_resources env s"
  obtain b s2 where rp: "render_gfx_render_pass_init env f ?s0 = (b, s2)"
    by (cases "render_gfx_render_pass_init env f ?s0")
  obtain ok' s4 where ev:
    "ensure_views env e f [0..<unat vc] (s2\<lparr>render_pass_initialized := True\<rparr>) = (ok', s4)"
    by (cases "ensure_views env e f [0..<unat vc] (s2\<lparr>render_pass_initialized := True\<rparr>)")
  have b: b and ok': ok' and s1: "s1 = s4\<lparr>extent := e, format := f\<rparr>"
    using ok nc rp ev by (auto simp: chl_scratch_ensure_def configured_def split: if_splits)
  have c2: "calls s2 = calls s @ free_calls env s @ [Render_pass_init f True]"
    using rp b
    by (auto simp: render_gfx_render_pass_init_def Let_def free_resources_calls free_calls_def)
  from ensure_views_ok_calls [OF ev [unfolded ok' [THEN eqTrueI]]] c2 s1
  show "calls s1 = calls s @ free_calls env s @ Render_pass_init f True #
                    concat (map (ensure_view_calls env f) [0..<unat vc])"
    by simp
qed

lemmas scratch_eval =
  chl_scratch_ensure_def chl_scratch_free_resources_def chl_scratch_zero_def
  render_gfx_render_pass_init_def render_gfx_render_pass_fini_def
  comp_scratch_single_images_ensure_def comp_scratch_single_images_free_def
  render_gfx_target_resources_init_def render_gfx_target_resources_fini_def
  free_view_def env_ok_def env_view1_fails_def VK_FORMAT_R8G8B8A8_SRGB_def
  VK_FORMAT_UNDEFINED_def configured_def Let_def upt_rec

theorem chl_scratch_ensure_idempotent_witness:
  "\<not> configured chl_scratch_zero 2 \<lparr>width = 1000, height = 1000\<rparr> VK_FORMAT_R8G8B8A8_SRGB \<and>
   fst (chl_scratch_ensure env_ok chl_scratch_zero 2 \<lparr>width = 1000, height = 1000\<rparr>
          VK_FORMAT_R8G8B8A8_SRGB) \<and>
   chl_scratch_ensure env_view1_fails
     (snd (chl_scratch_ensure env_ok chl_scratch_zero 2 \<lparr>width = 1000, height = 1000\<rparr>
          VK_FORMAT_R8G8B8A8_SRGB))
     2 \<lparr>width = 1000, height = 1000\<rparr> VK_FORMAT_R8G8B8A8_SRGB
   = chl_scratch_ensure env_ok chl_scratch_zero 2 \<lparr>width = 1000, height = 1000\<rparr>
          VK_FORMAT_R8G8B8A8_SRGB"
proof -
  let ?e = "\<lparr>width = 1000, height = 1000\<rparr>"
  let ?r = "chl_scratch_ensure env_ok chl_scratch_zero 2 ?e VK_FORMAT_R8G8B8A8_SRGB"
  have nc: "\<not> configured chl_scratch_zero 2 ?e VK_FORMAT_R8G8B8A8_SRGB"
    by (simp add: configured_def chl_scratch_zero_def)
  have ok: "fst ?r" by (simp add: scratch_eval)
  then have run: "?r = (True, snd ?r)" by (cases ?r) simp
  from chl_scratch_ensure_idempotent
    [of chl_scratch_zero 2 ?e VK_FORMAT_R8G8B8A8_SRGB env_ok "snd ?r" env_view1_fails]
  have "chl_scratch_ensure env_view1_fails (snd ?r) 2 ?e VK_FORMAT_R8G8B8A8_SRGB = (True, snd ?r)"
    using run by blast
  with nc ok run show ?thesis by simp
qed

text \<open>
  Claim C5. \<open>chl_scratch_ensure\<close> fails exactly when the configuration differs and the
  render pass cannot be initialised or the images of some requested view cannot be
  created. When it returns false, starting from a scratch whose objects are all
  accounted for, everything created so far (the views before the failing one and the
  shared render pass) has been released again: no object is left, \<open>view_count\<close> is 0,
  the extent is zero, the format is \<open>VK_FORMAT_UNDEFINED\<close> and
  \<open>render_pass_initialized\<close> is false.
\<close>

theorem chl_scratch_ensure_rollback:
  "(fst (chl_scratch_ensure env s vc e f) \<longleftrightarrow>
      configured s vc e f \<or>
      render_pass_init_ok env \<and> (\<forall>i < unat vc. images_ensure_ok env i)) \<and>
   (scratch_inv env s \<and> chl_scratch_ensure env s vc e f = (False, s') \<longrightarrow>
      view_count s' = 0 \<and> width (extent s') = 0 \<and> height (extent s') = 0 \<and>
      format s' = VK_FORMAT_UNDEFINED \<and> \<not> render_pass_initialized s' \<and> live s' = {})"
proof (rule conjI)
  show "fst (chl_scratch_ensure env s vc e f) \<longleftrightarrow>
      configured s vc e f \<or>
      render_pass_init_ok env \<and> (\<forall>i < unat vc. images_ensure_ok env i)"
  proof (cases "configured s vc e f")
    case True
    then show ?thesis by (simp add: chl_scratch_ensure_def configured_def)
  next
    case False
    let ?s0 = "chl_scratch_free_resources env s"
    obtain b s2 where rp: "render_gfx_render_pass_init env f ?s0 = (b, s2)"
      by (cases "render_gfx_render_pass_init env f ?s0")
    then have b: "b = render_pass_init_ok env"
      by (auto simp: render_gfx_render_pass_init_def Let_def)
    obtain ok s4 where ev:
      "ensure_views env e f [0..<unat vc] (s2\<lparr>render_pass_initialized := True\<rparr>) = (ok, s4)"
      by (cases "ensure_views env e f [0..<unat vc] (s2\<lparr>render_pass_initialized := True\<rparr>)")
    have ok: "ok = (\<forall>i < unat vc. images_ensure_ok env i)"
      using ensure_views_result [of env e f "[0..<unat vc]" "s2\<lparr>render_pass_initialized := True\<rparr>"] ev
      by auto
    have "fst (chl_scratch_ensure env s vc e f) = (b \<and> ok)"
      using False rp ev by (simp add: chl_scratch_ensure_def configured_def)
    then show ?thesis using False b ok by simp
  qed
next
  show "scratch_inv env s \<and> chl_scratch_ensure env s vc e f = (False, s') \<longrightarrow>
      view_count s' = 0 \<and> width (extent s') = 0 \<and> height (extent s') = 0 \<and>
      format s' = VK_FORMAT_UNDEFINED \<and> \<not> render_pass_initialized s' \<and> live s' = {}"
  proof (rule impI)
    assume "scratch_inv env s \<and> chl_scratch_ensure env s vc e f = (False, s')"
    then have "nothing_allocated s'" using chl_scratch_ensure_failed by blast
    then show "view_count s' = 0 \<and> width (extent s') = 0 \<and> height (extent s') = 0 \<and>
        format s' = VK_FORMAT_UNDEFINED \<and> \<not> render_pass_initialized s' \<and> live s' = {}"
      by (simp add: nothing_allocated_def)
  qed
qed

theorem chl_scratch_ensure_rollback_witness:
  "scratch_inv env_view1_fails chl_scratch_zero \<and>
   \<not> fst (chl_scratch_ensure env_view1_fails chl_scratch_zero 2 \<lparr>width = 1000, height = 1000\<rparr>
          VK_FORMAT_R8G8B8A8_SRGB) \<and>
   live (snd (chl_scratch_ensure env_view1_fails chl_scratch_zero 2
          \<lparr>width = 1000, height = 1000\<rparr> VK_FORMAT_R8G8B8A8_SRGB)) = {} \<and>
   calls (snd (chl_scratch_ensure env_view1_fails chl_scratch_zero 2
          \<lparr>width = 1000, height = 1000\<rparr> VK_FORMAT_R8G8B8A8_SRGB)) =
     [Render_pass_init 43 True, Images_ensure 0 True True,
      Target_resources_init 0 0, Target_resources_init 0 1,
      Images_ensure 1 True False, Target_resources_fini 0 0,
      Target_resources_fini 0 1, Images_free 0, Render_pass_fini]"
proof -
  let ?e = "\<lparr>width = 1000, height = 1000\<rparr>"
  let ?r = "chl_scratch_ensure env_view1_fails chl_scratch_zero 2 ?e VK_FORMAT_R8G8B8A8_SRGB"
  have inv: "scratch_inv env_view1_fails chl_scratch_zero"
    by (simp add: scratch_inv_def chl_scratch_zero_def)
  have no: "\<not> fst ?r" by (simp add: scratch_eval)
  then have run: "?r = (False, snd ?r)" by (cases ?r) simp
  have tr: "calls (snd ?r) =
     [Render_pass_init 43 True, Images_ensure 0 True True,
      Target_resources_init 0 0, Target_resources_init 0 1,
      Images_ensure 1 True False, Target_resources_fini 0 0,
      Target_resources_fini 0 1, Images_free 0, Render_pass_fini]"
    by (simp add: scratch_eval)
  from chl_scratch_ensure_rollback
    [of env_view1_fails chl_scratch_zero 2 ?e VK_FORMAT_R8G8B8A8_SRGB "snd ?r"] inv run
  have "live (snd ?r) = {}" by blast
  with inv no tr show ?thesis by simp
qed

section \<open>Properties of the renderer\<close>

lemmas prim_defs =
  emit_def os_monotonic_get_ns_def comp_target_check_ready_def comp_target_has_images_def
  comp_target_acquire_def comp_target_present_def comp_target_wait_for_present_def
  render_distortion_images_ensure_def comp_target_mark_def renderer_wait_queue_idle_def

lemmas frame_defs =
  comp_frame_is_invalid_locked_def comp_frame_clear_locked_def
  comp_frame_move_and_clear_locked_def

lemmas kind_defs =
  is_clock_def is_lag_def is_acquire_def is_present_def is_submit_def is_fence_wait_def
  is_fence_reset_def is_peek_event_def

lemmas renderer_defs =
  renderer_create_renderings_and_fences_def renderer_close_renderings_and_fences_def
  renderer_ensure_images_and_renderings_def renderer_wait_for_last_fence_def
  renderer_submit_queue_def is_stale_def renderer_acquire_swapchain_image_def
  renderer_resize_def renderer_present_swapchain_image_def renderer_wait_for_present_def
  dispatch_graphics_def dispatch_compute_def draw_finish_def draw_render_def
  comp_renderer_draw_def comp_window_peek_blit_def peek_start_def
  peek_blit_commands_def peek_blit_submit_def peek_blit_present_def

lemmas example_defs = env_fine_def renderer0_def frame7_def frame_none_def

lemma quiet_append [simp]: "quiet (xs @ ys) \<longleftrightarrow> quiet xs \<and> quiet ys"
  by (auto simp: quiet_def)

lemma quiet_Nil [simp]: "quiet []"
  by (simp add: quiet_def)

lemma quiet_Cons [simp]: "quiet (e # es) \<longleftrightarrow> quiet_event e \<and> quiet es"
  by (auto simp: quiet_def)

lemma quiet_event_simps [simp]:
  "quiet_event (Target_check_ready b)" "quiet_event (Target_has_images b)"
  "quiet_event (Target_create_images u)" "quiet_event (Distortion_images_ensure b)"
  "quiet_event Queue_wait_idle" "quiet_event (Renderings_created n)"
  "quiet_event Renderings_closed" "quiet_event (Fences_created n)"
  "quiet_event Fences_destroyed" "quiet_event (Log_error s)"
  by (simp_all add: quiet_event_def kind_defs)

lemma quiet_filter:
  assumes "quiet evs"
  shows "filter is_clock evs = []" "filter is_lag evs = []" "filter is_acquire evs = []"
    "filter is_present evs = []" "filter is_submit evs = []" "filter is_fence_wait evs = []"
    "filter is_fence_reset evs = []" "filter is_peek_event evs = []"
  using assms by (auto simp: quiet_def quiet_event_def filter_empty_conv)

lemma close_events_quiet [simp]: "quiet (close_events r)"
  by (simp add: close_events_def)

lemma create_events_quiet [simp]: "quiet (create_events compute n)"
  by (simp add: create_events_def)

lemma recreate_events_quiet [simp]: "quiet (recreate_events c_peek r ok n)"
  by (simp add: recreate_events_def)

lemma close_events_cong:
  "buffer_count r' = buffer_count r \<Longrightarrow> rtr_array r' = rtr_array r \<Longrightarrow> fences r' = fences r
   \<Longrightarrow> close_events r' = close_events r"
  by (simp add: close_events_def)

lemma close_trace:
  "trace (renderer_close_renderings_and_fences r) = trace r @ close_events r"
  by (simp add: renderer_close_renderings_and_fences_def close_events_def emit_def Let_def)

lemma close_fields [simp]:
  "acquired_buffer (renderer_close_renderings_and_fences r) = - 1"
  "fenced_buffer (renderer_close_renderings_and_fences r) = - 1"
  "buffer_count (renderer_close_renderings_and_fences r) = 0"
  "rendering (renderer_close_renderings_and_fences r) = rendering r"
  "waited (renderer_close_renderings_and_fences r) = waited r"
  "use_compute (renderer_close_renderings_and_fences r) = use_compute r"
  "rtr_array (renderer_close_renderings_and_fences r) \<longleftrightarrow> rtr_array r \<and> buffer_count r = 0"
  "fences (renderer_close_renderings_and_fences r) \<longleftrightarrow> fences r \<and> buffer_count r = 0"
  by (auto simp: renderer_close_renderings_and_fences_def emit_def Let_def word_greater_zero_iff)

lemma create_trace:
  assumes "renderer_create_renderings_and_fences r = Inr r'" and "buffer_count r \<noteq> 0"
  shows "trace r' = trace r @ create_events (use_compute r) (buffer_count r) \<and>
         acquired_buffer r' = acquired_buffer r \<and> fenced_buffer r' = fenced_buffer r \<and>
         buffer_count r' = buffer_count r \<and> fences r' \<and>
         rendering r' = rendering r \<and> waited r' = waited r \<and> use_compute r' = use_compute r"
  using assms
  by (auto simp: renderer_create_renderings_and_fences_def create_events_def emit_def Let_def
      split: if_splits)

lemma image_usage_eq:
  "(if c_peek \<noteq> None
    then (if compute then 0 OR VK_IMAGE_USAGE_STORAGE_BIT
          else 0 OR VK_IMAGE_USAGE_COLOR_ATTACHMENT_BIT) OR VK_IMAGE_USAGE_TRANSFER_SRC_BIT
    else (if compute then 0 OR VK_IMAGE_USAGE_STORAGE_BIT
          else 0 OR VK_IMAGE_USAGE_COLOR_ATTACHMENT_BIT)) =
   target_image_usage compute c_peek"
  by (simp add: target_image_usage_def)

lemma ensure_not_ready:
  assumes "\<not> o_check_ready env (trace r)"
  shows "renderer_ensure_images_and_renderings env c_peek force r =
           Inr (False, emit (Target_check_ready False) r)"
  using assms by (simp add: renderer_ensure_images_and_renderings_def comp_target_check_ready_def)

text \<open>
  What \<open>renderer_ensure_images_and_renderings\<close> does when it decides to create: \<open>r2\<close>
  is the state after its checks, \<open>evs2\<close> the events of the checks.
\<close>

lemma ensure_create:
  assumes run: "renderer_ensure_images_and_renderings env c_peek force r = Inr (ok, r')"
    and ready: "o_check_ready env (trace r)"
    and create: "force \<or> \<not> o_has_images env (trace r @ [Target_check_ready True]) \<or>
                 buffer_count r = 0"
  shows "trace r' = trace r @
           (Target_check_ready True #
            (if force then []
             else [Target_has_images (o_has_images env (trace r @ [Target_check_ready True]))]) @
            tl (recreate_events c_peek r ok (buffer_count r'))) \<and>
         acquired_buffer r' = - 1 \<and> fenced_buffer r' = - 1 \<and>
         (if ok then buffer_count r' \<noteq> 0 \<and> fences r' else buffer_count r' = 0) \<and>
         rendering r' = rendering r \<and> waited r' = waited r \<and> use_compute r' = use_compute r"
proof -
  let ?r1 = "emit (Target_check_ready True) r"
  define r2 where "r2 = (if force then ?r1
      else emit (Target_has_images (o_has_images env (trace ?r1))) ?r1)"
  define r4 where "r4 = renderer_close_renderings_and_fences (renderer_wait_queue_idle r2)"
  define r5 where "r5 = emit (Target_create_images (target_image_usage (use_compute r) c_peek)) r4"
  define b where "b = o_distortion_images_ensure env (trace r5)"
  define r6 where "r6 = emit (Distortion_images_ensure b) r5"
  have f2: "buffer_count r2 = buffer_count r" "rtr_array r2 = rtr_array r" "fences r2 = fences r"
    "use_compute r2 = use_compute r" "rendering r2 = rendering r" "waited r2 = waited r"
    by (simp_all add: r2_def emit_def)
  have t2: "trace r2 = trace r @ Target_check_ready True #
      (if force then []
       else [Target_has_images (o_has_images env (trace r @ [Target_check_ready True]))])"
    by (simp add: r2_def emit_def)
  have ce: "close_events (renderer_wait_queue_idle r2) = close_events r"
    by (rule close_events_cong) (simp_all add: renderer_wait_queue_idle_def emit_def f2)
  have t4: "trace r4 = trace r2 @ Queue_wait_idle # close_events r"
    unfolding r4_def close_trace ce by (simp add: renderer_wait_queue_idle_def emit_def)
  have f4: "use_compute r4 = use_compute r"
    by (simp add: r4_def renderer_wait_queue_idle_def emit_def f2)
  have t6: "trace r6 = trace r2 @ Queue_wait_idle # close_events r @
      [Target_create_images (target_image_usage (use_compute r) c_peek), Distortion_images_ensure b]"
    by (simp add: r6_def r5_def t4 emit_def)
  have f6: "acquired_buffer r6 = - 1" "fenced_buffer r6 = - 1" "buffer_count r6 = 0"
    "rendering r6 = rendering r" "waited r6 = waited r" "use_compute r6 = use_compute r"
    by (simp_all add: r6_def r5_def r4_def emit_def renderer_wait_queue_idle_def f2)
  have df: "renderer_ensure_images_and_renderings env c_peek force r =
      (let r5' = emit (Target_create_images (target_image_usage (use_compute r4) c_peek)) r4
       in case render_distortion_images_ensure env r5' of
            (ok, r6') \<Rightarrow>
              if \<not> ok then Inr (False, r6')
              else (case renderer_create_renderings_and_fences
                          (r6'\<lparr>buffer_count := o_image_count env (trace r6')\<rparr>) of
                      Inl e \<Rightarrow> Inl e
                    | Inr r7 \<Rightarrow>
                        if buffer_count r7 = 0
                        then Inl (Assertion_failed ''r->buffer_count != 0'')
                        else Inr (True, r7)))"
  proof (cases force)
    case True
    then show ?thesis using ready
      unfolding renderer_ensure_images_and_renderings_def comp_target_check_ready_def
        Let_def image_usage_eq r4_def r2_def
      by simp
  next
    case nf: False
    show ?thesis
    proof (cases "o_has_images env (trace r @ [Target_check_ready True])")
      case True
      with create nf have "buffer_count r = 0" by blast
      then show ?thesis using ready nf True
        unfolding renderer_ensure_images_and_renderings_def comp_target_check_ready_def
          comp_target_has_images_def Let_def image_usage_eq r4_def r2_def
        by (simp add: emit_def)
    next
      case False
      then show ?thesis using ready nf
        unfolding renderer_ensure_images_and_renderings_def comp_target_check_ready_def
          comp_target_has_images_def Let_def image_usage_eq r4_def r2_def
        by (simp add: emit_def)
    qed
  qed
  have unfold: "renderer_ensure_images_and_renderings env c_peek force r =
      (if \<not> b then Inr (False, r6)
       else (case renderer_create_renderings_and_fences
                   (r6\<lparr>buffer_count := o_image_count env (trace r6)\<rparr>) of
               Inl e \<Rightarrow> Inl e
             | Inr r7 \<Rightarrow>
                 if buffer_count r7 = 0
                 then Inl (Assertion_failed ''r->buffer_count != 0'')
                 else Inr (True, r7)))"
    unfolding df f4 render_distortion_images_ensure_def Let_def r6_def b_def r5_def
    by simp
  show ?thesis
  proof (cases b)
    case False
    then have "r' = r6" "ok = False" using run unfold by simp_all
    then show ?thesis using False t2 t6 f6 by (simp add: recreate_events_def)
  next
    case True
    let ?r6' = "r6\<lparr>buffer_count := o_image_count env (trace r6)\<rparr>"
    from True obtain r7 where c7: "renderer_create_renderings_and_fences ?r6' = Inr r7"
      and r': "r' = r7" and ok: "ok = True" and n0: "buffer_count r7 \<noteq> 0"
      using run unfold by (auto split: sum.splits if_splits)
    have "buffer_count ?r6' \<noteq> 0"
    proof
      assume z: "buffer_count ?r6' = 0"
      with c7 have "buffer_count r7 = 0"
        by (auto simp: renderer_create_renderings_and_fences_def emit_def split: if_splits)
      with n0 show False by simp
    qed
    from create_trace [OF c7 this] have
      t7: "trace r7 = trace r6 @ create_events (use_compute r) (buffer_count r7)"
      and f7: "acquired_buffer r7 = - 1" "fenced_buffer r7 = - 1" "fences r7"
        "rendering r7 = rendering r" "waited r7 = waited r" "use_compute r7 = use_compute r"
      using f6 by simp_all
    show ?thesis using True t2 t6 t7 f7 r' ok n0 by (simp add: recreate_events_def)
  qed
qed

lemma ensure_no_create:
  assumes ready: "o_check_ready env (trace r)"
    and keep: "\<not> (force \<or> \<not> o_has_images env (trace r @ [Target_check_ready True]) \<or>
                 buffer_count r = 0)"
  shows "renderer_ensure_images_and_renderings env c_peek force r =
           Inr (True, emit (Target_has_images True) (emit (Target_check_ready True) r))"
  using assms
  by (simp add: renderer_ensure_images_and_renderings_def comp_target_check_ready_def
      comp_target_has_images_def emit_def)

lemma ensure_extends:
  assumes run: "renderer_ensure_images_and_renderings env c_peek force r = Inr (ok, r')"
  shows "(\<exists>evs. trace r' = trace r @ evs \<and> quiet evs) \<and>
         (ok \<longrightarrow> o_check_ready env (trace r)) \<and>
         (force \<and> o_check_ready env (trace r) \<longrightarrow> acquired_buffer r' = - 1) \<and>
         (\<not> o_check_ready env (trace r) \<longrightarrow> acquired_buffer r' = acquired_buffer r) \<and>
         (acquired_buffer r' = acquired_buffer r \<or> acquired_buffer r' = - 1) \<and>
         rendering r' = rendering r \<and> waited r' = waited r \<and> use_compute r' = use_compute r"
proof (cases "o_check_ready env (trace r)")
  case False
  from run ensure_not_ready [OF False, of c_peek force] show ?thesis
    using False by (auto simp: emit_def)
next
  case ready: True
  show ?thesis
  proof (cases "force \<or> \<not> o_has_images env (trace r @ [Target_check_ready True]) \<or>
                 buffer_count r = 0")
    case False
    from run ensure_no_create [OF ready False, of c_peek] show ?thesis
      using ready False by (auto simp: emit_def)
  next
    case True
    from ensure_create [OF run ready True] have
      t: "trace r' = trace r @
           (Target_check_ready True #
            (if force then []
             else [Target_has_images (o_has_images env (trace r @ [Target_check_ready True]))]) @
            tl (recreate_events c_peek r ok (buffer_count r')))"
      and f: "acquired_buffer r' = - 1" "rendering r' = rendering r" "waited r' = waited r"
        "use_compute r' = use_compute r"
      by simp_all
    have "quiet (Target_check_ready True #
            (if force then []
             else [Target_has_images (o_has_images env (trace r @ [Target_check_ready True]))]) @
            tl (recreate_events c_peek r ok (buffer_count r')))"
      by (simp add: recreate_events_def)
    with t have "\<exists>evs. trace r' = trace r @ evs \<and> quiet evs" by blast
    then show ?thesis using f ready by simp
  qed
qed

text \<open>A forced call on a ready target.\<close>

lemma ensure_forced:
  assumes run: "renderer_ensure_images_and_renderings env c_peek True r = Inr (ok, r')"
    and ready: "o_check_ready env (trace r)"
  shows "trace r' = trace r @ recreate_events c_peek r ok (buffer_count r') \<and>
         acquired_buffer r' = - 1 \<and> fenced_buffer r' = - 1 \<and>
         (if ok then buffer_count r' \<noteq> 0 \<and> fences r' else buffer_count r' = 0) \<and>
         rendering r' = rendering r \<and> waited r' = waited r \<and> use_compute r' = use_compute r"
  using ensure_create [OF run ready] by (simp add: recreate_events_def)

lemma acquire_cases:
  assumes run: "renderer_acquire_swapchain_image env c_peek r = Inr r'"
  obtains
    (not_ready) "renderer_ensure_images_and_renderings env c_peek False r = Inr (False, r')"
  | (direct) r1 ret index where
      "renderer_ensure_images_and_renderings env c_peek False r = Inr (True, r1)"
      "o_acquire env (trace r1) = (ret, index)" "\<not> is_stale ret"
      "r' = (if ret \<noteq> VK_SUCCESS
             then emit (Log_error ''comp_target_acquire'')
                    (emit (Target_acquire ret (case index of None \<Rightarrow> 0 | Some i \<Rightarrow> i)) r1)
             else emit (Target_acquire ret (case index of None \<Rightarrow> 0 | Some i \<Rightarrow> i)) r1)
            \<lparr>acquired_buffer := (case index of None \<Rightarrow> 0 | Some i \<Rightarrow> i)\<rparr>"
  | (recreate_failed) r1 ret index r3 where
      "renderer_ensure_images_and_renderings env c_peek False r = Inr (True, r1)"
      "o_acquire env (trace r1) = (ret, index)" "is_stale ret"
      "renderer_ensure_images_and_renderings env c_peek True
         (emit (Target_acquire ret (case index of None \<Rightarrow> 0 | Some i \<Rightarrow> i)) r1) = Inr (False, r3)"
      "r' = emit (Log_error ''force re-create image and renderings failed'') r3"
  | (retried) r1 ret index r3 ret2 index2 where
      "renderer_ensure_images_and_renderings env c_peek False r = Inr (True, r1)"
      "o_acquire env (trace r1) = (ret, index)" "is_stale ret"
      "renderer_ensure_images_and_renderings env c_peek True
         (emit (Target_acquire ret (case index of None \<Rightarrow> 0 | Some i \<Rightarrow> i)) r1) = Inr (True, r3)"
      "o_acquire env (trace r3) = (ret2, index2)"
      "r' = (if ret2 \<noteq> VK_SUCCESS
             then emit (Log_error ''comp_target_acquire'')
                    (emit (Target_acquire ret2
                       (case index2 of None \<Rightarrow> (case index of None \<Rightarrow> 0 | Some i \<Rightarrow> i) | Some i \<Rightarrow> i)) r3)
             else emit (Target_acquire ret2
                       (case index2 of None \<Rightarrow> (case index of None \<Rightarrow> 0 | Some i \<Rightarrow> i) | Some i \<Rightarrow> i)) r3)
            \<lparr>acquired_buffer :=
               (case index2 of None \<Rightarrow> (case index of None \<Rightarrow> 0 | Some i \<Rightarrow> i) | Some i \<Rightarrow> i)\<rparr>"
  using run
  unfolding renderer_acquire_swapchain_image_def comp_target_acquire_def Let_def
  by (auto split: if_splits sum.splits prod.splits)

lemma new_events_append [simp]:
  "trace r' = trace r @ evs \<Longrightarrow> new_events r r' = evs"
  by (simp add: new_events_def)

lemma calm_simps [simp]:
  "calm []"
  "calm (e # es) \<longleftrightarrow> (quiet_event e \<or> is_acquire e) \<and> calm es"
  "calm (xs @ ys) \<longleftrightarrow> calm xs \<and> calm ys"
  by (auto simp: calm_def)

lemma quiet_calm: "quiet evs \<Longrightarrow> calm evs"
  by (auto simp: quiet_def calm_def)

lemma acquire_not_other:
  assumes "is_acquire e"
  shows "\<not> is_clock e \<and> \<not> is_lag e \<and> \<not> is_present e \<and> \<not> is_submit e \<and>
      \<not> is_fence_wait e \<and> \<not> is_fence_reset e \<and> \<not> is_peek_event e"
  using assms by (cases e) (simp_all add: kind_defs)

lemma calm_filter:
  assumes "calm evs"
  shows "filter is_clock evs = []" "filter is_lag evs = []"
    "filter is_present evs = []" "filter is_submit evs = []" "filter is_fence_wait evs = []"
    "filter is_fence_reset evs = []" "filter is_peek_event evs = []"
proof -
  have "\<forall>e \<in> set evs. \<not> is_clock e \<and> \<not> is_lag e \<and> \<not> is_present e \<and> \<not> is_submit e \<and>
      \<not> is_fence_wait e \<and> \<not> is_fence_reset e \<and> \<not> is_peek_event e"
    using assms acquire_not_other by (auto simp: calm_def quiet_event_def)
  then show "filter is_clock evs = []" "filter is_lag evs = []"
    "filter is_present evs = []" "filter is_submit evs = []" "filter is_fence_wait evs = []"
    "filter is_fence_reset evs = []" "filter is_peek_event evs = []"
    by (simp_all add: filter_empty_conv)
qed

lemma is_acquire_simp [simp]: "is_acquire (Target_acquire ret i)"
  by (simp add: is_acquire_def)

lemma acquire_extends:
  assumes run: "renderer_acquire_swapchain_image env c_peek r = Inr r'"
  shows "(\<exists>evs. trace r' = trace r @ evs \<and> calm evs) \<and>
         rendering r' = rendering r \<and> waited r' = waited r"
  using run
proof (cases rule: acquire_cases)
  case not_ready
  from ensure_extends [OF this] show ?thesis by (auto dest: quiet_calm)
next
  case (direct r1 ret index)
  from ensure_extends [OF direct(1)] direct(4) show ?thesis
    by (auto simp: emit_def dest: quiet_calm)
next
  case (recreate_failed r1 ret index r3)
  from ensure_extends [OF recreate_failed(1)] ensure_extends [OF recreate_failed(4)]
    recreate_failed(5)
  show ?thesis
    by (auto simp: emit_def dest: quiet_calm)
next
  case (retried r1 ret index r3 ret2 index2)
  from ensure_extends [OF retried(1)] ensure_extends [OF retried(4)] retried(6)
  show ?thesis
    by (auto simp: emit_def dest: quiet_calm)
qed

lemma kind_simps [simp]:
  "is_clock (Clock t)" "\<not> is_lag (Clock t)"
  "\<not> is_clock (Log_frame_lag d)" "is_lag (Log_frame_lag d)"
  "\<not> is_clock (Target_check_ready b)" "\<not> is_lag (Target_check_ready b)"
  "\<not> is_clock (Target_wait_for_present x)" "\<not> is_lag (Target_wait_for_present x)"
  by (simp_all add: kind_defs)

text \<open>
  Claim C7, as amended. \<open>renderer_wait_for_present\<close> has no status to return. When the
  target is not ready it returns at once: one readiness check, no clock reading, no
  warning. When the target is ready it reads the clock twice, before and after the
  wait (or the substitute acquire), and logs the frame lag warning, once, exactly when
  the second reading is more than one millisecond after the first and more than one
  millisecond after the desired present time, in the 64-bit unsigned arithmetic of the
  code; the logged lag is the second reading minus the desired present time.
\<close>

theorem missed_deadline_warning:
  assumes run: "renderer_wait_for_present env c_peek desired r = Inr r'"
  shows "(\<not> o_check_ready env (trace r) \<longrightarrow> new_events r r' = [Target_check_ready False]) \<and>
         (o_check_ready env (trace r) \<longrightarrow>
            (\<exists>before_ns after_ns.
               filter is_clock (new_events r r') = [Clock before_ns, Clock after_ns] \<and>
               filter is_lag (new_events r r') =
                 (if before_ns + U_TIME_1MS_IN_NS < after_ns \<and>
                     desired + U_TIME_1MS_IN_NS < after_ns
                  then [Log_frame_lag (after_ns - desired)] else [])))"
proof (cases "o_check_ready env (trace r)")
  case False
  with run have "trace r' = trace r @ [Target_check_ready False]"
    by (auto simp: renderer_wait_for_present_def comp_target_check_ready_def emit_def)
  with False show ?thesis by simp
next
  case True
  define r1 where "r1 = emit (Target_check_ready True) r"
  define before_ns where "before_ns = o_now_ns env (trace r1)"
  define r2 where "r2 = emit (Clock before_ns) r1"
  have t2: "trace r2 = trace r @ [Target_check_ready True, Clock before_ns]"
    by (simp add: r2_def r1_def emit_def)
  define mid where "mid =
    (if o_wait_for_present_supported env
     then (case comp_target_wait_for_present env r2 of
             (result, r3) \<Rightarrow>
               if result = VK_ERROR_EXTENSION_NOT_PRESENT
               then Inl (Assertion_failed ''result != VK_ERROR_EXTENSION_NOT_PRESENT'')
               else Inr r3)
     else renderer_acquire_swapchain_image env c_peek r2)"
  have unfold: "renderer_wait_for_present env c_peek desired r =
     (case mid of
        Inl e \<Rightarrow> Inl e
      | Inr r4 \<Rightarrow>
          (case os_monotonic_get_ns env r4 of
             (after_ns, r5) \<Rightarrow>
               if before_ns + U_TIME_1MS_IN_NS < after_ns \<and>
                  desired + U_TIME_1MS_IN_NS < after_ns
               then Inr (emit (Log_frame_lag (after_ns - desired)) r5)
               else Inr r5))"
    using True
    unfolding mid_def r2_def before_ns_def r1_def renderer_wait_for_present_def
      comp_target_check_ready_def Let_def
    by (simp add: os_monotonic_get_ns_def Let_def)
  from run unfold obtain r4 where mid: "mid = Inr r4"
    by (cases mid) auto
  have "\<exists>evs. trace r4 = trace r2 @ evs \<and> filter is_clock evs = [] \<and> filter is_lag evs = []"
  proof (cases "o_wait_for_present_supported env")
    case True
    with mid show ?thesis
      by (auto simp: mid_def comp_target_wait_for_present_def emit_def Let_def split: if_splits)
  next
    case False
    with mid have "renderer_acquire_swapchain_image env c_peek r2 = Inr r4" by (simp add: mid_def)
    from acquire_extends [OF this] show ?thesis by (auto dest: calm_filter(1,2))
  qed
  then obtain evs where evs: "trace r4 = trace r2 @ evs" "filter is_clock evs = []"
    "filter is_lag evs = []" by blast
  define after_ns where "after_ns = o_now_ns env (trace r4)"
  have "trace r' = trace r @ [Target_check_ready True, Clock before_ns] @ evs @ Clock after_ns #
      (if before_ns + U_TIME_1MS_IN_NS < after_ns \<and> desired + U_TIME_1MS_IN_NS < after_ns
       then [Log_frame_lag (after_ns - desired)] else [])"
    using run unfold mid evs(1) t2
    by (auto simp: os_monotonic_get_ns_def emit_def Let_def after_ns_def split: if_splits)
  then have "new_events r r' = [Target_check_ready True, Clock before_ns] @ evs @ Clock after_ns #
      (if before_ns + U_TIME_1MS_IN_NS < after_ns \<and> desired + U_TIME_1MS_IN_NS < after_ns
       then [Log_frame_lag (after_ns - desired)] else [])"
    by simp
  then have "filter is_clock (new_events r r') = [Clock before_ns, Clock after_ns] \<and>
             filter is_lag (new_events r r') =
               (if before_ns + U_TIME_1MS_IN_NS < after_ns \<and> desired + U_TIME_1MS_IN_NS < after_ns
                then [Log_frame_lag (after_ns - desired)] else [])"
    using evs(2,3) by simp
  with True show ?thesis by blast
qed

lemmas wait_eval =
  renderer_wait_for_present_def comp_target_check_ready_def os_monotonic_get_ns_def
  comp_target_wait_for_present_def emit_def Let_def U_TIME_1MS_IN_NS_def example_defs

text \<open>
  The claim C7 as stated fails: the wait returns at 10.5 ms, more than a millisecond after
  the desired present time 0, and no warning is logged, since the wait itself took only
  half a millisecond.
\<close>

theorem missed_deadline_counterexample:
  "\<exists>r'. renderer_wait_for_present env_short_wait None 0 renderer0 = Inr r' \<and>
      trace r' = [Target_check_ready True, Clock 10000000,
                  Target_wait_for_present VK_SUCCESS, Clock 10500000] \<and>
      (0 :: 64 word) + U_TIME_1MS_IN_NS < 10500000 \<and>
      filter is_lag (trace r') = []"
  by (simp add: wait_eval env_short_wait_def)

theorem missed_deadline_warning_witness:
  "\<exists>r'. renderer_wait_for_present env_long_wait None 0 renderer0 = Inr r' \<and>
      filter is_clock (new_events renderer0 r') = [Clock 10000000, Clock 15000000] \<and>
      filter is_lag (new_events renderer0 r') = [Log_frame_lag 15000000]"
proof -
  obtain r' where run: "renderer_wait_for_present env_long_wait None 0 renderer0 = Inr r'"
    and tr: "trace r' = [Target_check_ready True, Clock 10000000,
                  Target_wait_for_present VK_SUCCESS, Clock 15000000, Log_frame_lag 15000000]"
    by (simp add: wait_eval env_long_wait_def)
  have ready: "o_check_ready env_long_wait (trace renderer0)"
    by (simp add: env_long_wait_def env_fine_def)
  have clocks: "filter is_clock (new_events renderer0 r') = [Clock 10000000, Clock 15000000]"
    using tr by (simp add: new_events_def renderer0_def)
  from missed_deadline_warning [OF run] ready obtain before_ns after_ns where
    c: "filter is_clock (new_events renderer0 r') = [Clock before_ns, Clock after_ns]" and
    l: "filter is_lag (new_events renderer0 r') =
          (if before_ns + U_TIME_1MS_IN_NS < after_ns \<and> 0 + U_TIME_1MS_IN_NS < after_ns
           then [Log_frame_lag (after_ns - 0)] else [])"
    by blast
  from c clocks have "before_ns = 10000000" "after_ns = 15000000" by simp_all
  with l have "filter is_lag (new_events renderer0 r') = [Log_frame_lag 15000000]"
    by (simp add: U_TIME_1MS_IN_NS_def)
  with run clocks show ?thesis by blast
qed

lemma pending_fence_append:
  "pending_fence (tr @ evs) = foldl fence_step (pending_fence tr) evs"
  by (simp add: pending_fence_def)

lemma wait_for_last_fence_eq:
  "renderer_wait_for_last_fence env r =
     (if sint (fenced_buffer r) < 0 then r
      else r\<lparr>fenced_buffer := - 1,
             trace := trace r @
               Fence_wait (fenced_buffer r) (o_wait_for_fences env (trace r)) #
               (if o_wait_for_fences env (trace r) \<noteq> VK_SUCCESS
                then [Log_error ''vkWaitForFences''] else [])\<rparr>)"
  by (simp add: renderer_wait_for_last_fence_def emit_def Let_def)

lemma wait_for_last_fence_fields:
  "trace (renderer_wait_for_last_fence env r) = trace r @ wait_events env r"
  "sint (fenced_buffer (renderer_wait_for_last_fence env r)) < 0"
  "acquired_buffer (renderer_wait_for_last_fence env r) = acquired_buffer r"
  "rendering (renderer_wait_for_last_fence env r) = rendering r"
  "waited (renderer_wait_for_last_fence env r) = waited r"
  by (simp_all add: wait_for_last_fence_eq wait_events_def)

lemma wait_events_props:
  "filter is_fence_wait (wait_events env r) =
     (if sint (fenced_buffer r) < 0 then []
      else [Fence_wait (fenced_buffer r) (o_wait_for_fences env (trace r))])"
  "filter is_fence_reset (wait_events env r) = []"
  "filter is_submit (wait_events env r) = []"
  "fence_inv r \<Longrightarrow> foldl fence_step (pending_fence (trace r)) (wait_events env r) = None"
  "submits_ok p (wait_events env r)"
  by (simp_all add: wait_events_def kind_defs fence_inv_def fence_step_def)

lemma submit_queue_cases:
  assumes run: "renderer_submit_queue env r = Inr (ret, r')"
  obtains
    (reset_failed) x where "x \<noteq> VK_SUCCESS" "ret = x"
      "trace r' = trace r @ wait_events env r @
         [Fence_reset (acquired_buffer r) x, Log_error ''vkResetFences'']"
      "sint (fenced_buffer r') < 0"
  | (submitted) t1 t2 where
      "trace r' = trace r @ wait_events env r @
         [Fence_reset (acquired_buffer r) VK_SUCCESS,
          Clock t1, Target_mark COMP_TARGET_TIMING_POINT_SUBMIT_BEGIN (frame_id (rendering r)) t1,
          Queue_submit (acquired_buffer r) ret,
          Clock t2, Target_mark COMP_TARGET_TIMING_POINT_SUBMIT_END (frame_id (rendering r)) t2] @
         (if ret \<noteq> VK_SUCCESS then [Log_error ''vk_cmd_submit_locked''] else [])"
      "if ret = VK_SUCCESS then fenced_buffer r' = acquired_buffer r
       else sint (fenced_buffer r') < 0"
proof -
  let ?r1 = "renderer_wait_for_last_fence env r"
  note f = wait_for_last_fence_fields [of env r]
  from run have a: "0 \<le> sint (frame_id (rendering r))" "0 \<le> sint (acquired_buffer r)"
    by (auto simp: renderer_submit_queue_def Let_def f split: if_splits)
  show thesis
  proof (cases "o_reset_fences env (trace ?r1) = VK_SUCCESS")
    case False
    with run a show thesis
      by (intro reset_failed [of "o_reset_fences env (trace ?r1)"])
        (auto simp: renderer_submit_queue_def Let_def f emit_def)
  next
    case True
    with run a show thesis
      by (intro submitted)
        (auto simp: renderer_submit_queue_def Let_def f prim_defs split: if_splits)
  qed
qed

lemma submits_ok_append:
  "submits_ok p (xs @ ys) \<longleftrightarrow> submits_ok p xs \<and> submits_ok (foldl fence_step p xs) ys"
  by (induction xs arbitrary: p) auto

lemma fence_inv_after:
  assumes "trace r' = trace r @ evs"
    and "foldl fence_step (pending_fence (trace r)) evs =
           (if sint (fenced_buffer r') < 0 then None else Some (fenced_buffer r'))"
  shows "fence_inv r'"
  using assms by (simp add: fence_inv_def pending_fence_append)

text \<open>
  Claim C6. A call of \<open>renderer_submit_queue\<close> that returns waits on one fence at
  most, the one of \<open>fenced_buffer\<close>, and only when \<open>fenced_buffer\<close> is not negative;
  from the reset of the fence of the acquired buffer on, which precedes the submission,
  it waits on nothing. The only fence it resets and submits with is the one of
  \<open>acquired_buffer\<close>. After a successful submission \<open>fenced_buffer\<close> is the acquired
  buffer, after a failed one it is negative. If \<open>fenced_buffer\<close> told the truth about
  the outstanding fence before the call, it does so afterwards, and the submission was
  made with no fence outstanding: the fence of the previous use has been waited on.
\<close>

theorem fence_reuse_invariant:
  assumes run: "renderer_submit_queue env r = Inr (ret, r')"
  shows "filter is_fence_wait (new_events r r') =
           (if sint (fenced_buffer r) < 0 then []
            else [Fence_wait (fenced_buffer r) (o_wait_for_fences env (trace r))]) \<and>
         filter is_fence_wait (dropWhile (\<lambda>e. \<not> is_fence_reset e) (new_events r r')) = [] \<and>
         (\<exists>x. filter is_fence_reset (new_events r r') = [Fence_reset (acquired_buffer r) x]) \<and>
         (filter is_submit (new_events r r') = [] \<or>
          filter is_submit (new_events r r') = [Queue_submit (acquired_buffer r) ret]) \<and>
         (if ret = VK_SUCCESS
          then fenced_buffer r' = acquired_buffer r \<and> 0 \<le> sint (acquired_buffer r) \<and>
               filter is_submit (new_events r r') = [Queue_submit (acquired_buffer r) VK_SUCCESS]
          else sint (fenced_buffer r') < 0) \<and>
         (fence_inv r \<longrightarrow> fence_inv r' \<and> submits_ok (pending_fence (trace r)) (new_events r r'))"
proof -
  have acq: "0 \<le> sint (acquired_buffer r)"
    using run
    by (auto simp: renderer_submit_queue_def Let_def wait_for_last_fence_fields split: if_splits)
  note w = wait_events_props
  have dw: "\<And>es. filter is_fence_wait
      (dropWhile (\<lambda>e. \<not> is_fence_reset e) (wait_events env r @ Fence_reset (acquired_buffer r) VK_SUCCESS # es))
      = filter is_fence_wait es"
    "\<And>x es. filter is_fence_wait
      (dropWhile (\<lambda>e. \<not> is_fence_reset e) (wait_events env r @ Fence_reset (acquired_buffer r) x # es))
      = filter is_fence_wait es"
    by (simp_all add: wait_events_def kind_defs)
  from run show ?thesis
  proof (cases rule: submit_queue_cases)
    case (reset_failed x)
    have inv: "fence_inv r \<Longrightarrow> fence_inv r'"
      using reset_failed w(4)
      by (intro fence_inv_after [OF reset_failed(3)]) (simp add: fence_step_def)
    have ok: "fence_inv r \<Longrightarrow> submits_ok (pending_fence (trace r))
        (wait_events env r @ [Fence_reset (acquired_buffer r) x, Log_error ''vkResetFences''])"
      using w(4,5) by (simp add: submits_ok_append kind_defs fence_step_def)
    show ?thesis
      using reset_failed inv ok w(1,2,3) dw(2)
      by (simp add: kind_defs)
  next
    case (submitted t1 t2)
    let ?mid = "[Fence_reset (acquired_buffer r) VK_SUCCESS,
          Clock t1, Target_mark COMP_TARGET_TIMING_POINT_SUBMIT_BEGIN (frame_id (rendering r)) t1,
          Queue_submit (acquired_buffer r) ret,
          Clock t2, Target_mark COMP_TARGET_TIMING_POINT_SUBMIT_END (frame_id (rendering r)) t2] @
         (if ret \<noteq> VK_SUCCESS then [Log_error ''vk_cmd_submit_locked''] else [])"
    have step: "fence_inv r \<Longrightarrow>
        foldl fence_step (pending_fence (trace r)) (wait_events env r @ ?mid) =
          (if ret = VK_SUCCESS then Some (acquired_buffer r) else None)"
      using w(4) by (simp add: fence_step_def)
    have inv: "fence_inv r \<Longrightarrow> fence_inv r'"
      using submitted(2) step acq
      by (intro fence_inv_after [OF submitted(1)]) (auto split: if_splits)
    have ok: "fence_inv r \<Longrightarrow> submits_ok (pending_fence (trace r)) (wait_events env r @ ?mid)"
      using w(4,5) by (simp add: submits_ok_append kind_defs fence_step_def)
    show ?thesis
      using submitted inv ok w(1,2,3) dw(1) acq
      by (simp add: kind_defs)
  qed
qed

theorem fence_reuse_invariant_witness:
  "fence_inv renderer_in_flight \<and>
   (\<exists>r'. renderer_submit_queue env_fine renderer_in_flight = Inr (VK_SUCCESS, r') \<and>
      filter is_fence_wait (new_events renderer_in_flight r') = [Fence_wait 0 VK_SUCCESS] \<and>
      filter is_submit (new_events renderer_in_flight r') = [Queue_submit 1 VK_SUCCESS] \<and>
      fenced_buffer r' = 1 \<and> fence_inv r')"
proof -
  have inv: "fence_inv renderer_in_flight"
    by (simp add: fence_inv_def pending_fence_def fence_step_def renderer_in_flight_def
        example_defs)
  obtain r' where run: "renderer_submit_queue env_fine renderer_in_flight = Inr (VK_SUCCESS, r')"
    by (simp add: renderer_submit_queue_def renderer_wait_for_last_fence_def prim_defs frame_defs
        Let_def renderer_in_flight_def example_defs)
  from fence_reuse_invariant [OF run] inv run show ?thesis
    by (simp add: renderer_in_flight_def example_defs)
qed

lemma ensure_acquired:
  assumes run: "renderer_ensure_images_and_renderings env c_peek force r = Inr (ok, r')"
  shows "acquired_buffer r' = acquired_buffer r \<or> acquired_buffer r' = - 1"
  using ensure_extends [OF run] by blast

lemma recreate_events_cong:
  "buffer_count r' = buffer_count r \<Longrightarrow> rtr_array r' = rtr_array r \<Longrightarrow> fences r' = fences r \<Longrightarrow>
   use_compute r' = use_compute r \<Longrightarrow>
   recreate_events c_peek r' ok n = recreate_events c_peek r ok n"
  by (simp add: recreate_events_def close_events_def)

text \<open>
  The acquire that finds the images stale, with a forced recreation that succeeds: the
  function returns, and this is what it has done since its first acquire.
\<close>

lemma acquire_retried:
  assumes neg: "sint (acquired_buffer r) < 0"
    and e1: "renderer_ensure_images_and_renderings env c_peek False r = Inr (True, r1)"
    and stale: "is_stale (fst (o_acquire env (trace r1)))"
    and e2: "renderer_ensure_images_and_renderings env c_peek True
               (emit (first_acquire env r1) r1) = Inr (True, r3)"
  shows "\<exists>r'. renderer_acquire_swapchain_image env c_peek r = Inr r' \<and>
           new_events r1 r' =
             first_acquire env r1 # recreate_events c_peek r1 True (buffer_count r') @
             Target_acquire (fst (o_acquire env (trace r3))) (acquired_buffer r') #
             (if fst (o_acquire env (trace r3)) \<noteq> VK_SUCCESS
              then [Log_error ''comp_target_acquire''] else []) \<and>
           acquired_buffer r' =
             (case snd (o_acquire env (trace r3)) of
                Some i \<Rightarrow> i
              | None \<Rightarrow> (case snd (o_acquire env (trace r1)) of Some i \<Rightarrow> i | None \<Rightarrow> 0)) \<and>
           fenced_buffer r' = - 1 \<and> buffer_count r' \<noteq> 0 \<and> fences r' \<and>
           rendering r' = rendering r \<and> waited r' = waited r"
proof -
  obtain ret idx where oa1: "o_acquire env (trace r1) = (ret, idx)"
    by (cases "o_acquire env (trace r1)")
  obtain ret2 idx2 where oa2: "o_acquire env (trace r3) = (ret2, idx2)"
    by (cases "o_acquire env (trace r3)")
  define i1 where "i1 = (case idx of None \<Rightarrow> 0 | Some i \<Rightarrow> i)"
  define i2 where "i2 = (case idx2 of None \<Rightarrow> i1 | Some i \<Rightarrow> i)"
  have fa: "first_acquire env r1 = Target_acquire ret i1"
    by (simp add: first_acquire_def oa1 i1_def)
  let ?r2 = "emit (Target_acquire ret i1) r1"
  have e2': "renderer_ensure_images_and_renderings env c_peek True ?r2 = Inr (True, r3)"
    using e2 fa by simp
  have st: "is_stale ret" using stale oa1 by simp
  define r' where "r' =
    (if ret2 \<noteq> VK_SUCCESS
     then emit (Log_error ''comp_target_acquire'') (emit (Target_acquire ret2 i2) r3)
     else emit (Target_acquire ret2 i2) r3)\<lparr>acquired_buffer := i2\<rparr>"
  have run: "renderer_acquire_swapchain_image env c_peek r = Inr r'"
    unfolding renderer_acquire_swapchain_image_def
    using neg st
    by (simp add: e1 comp_target_acquire_def oa1 oa2 e2' Let_def r'_def i1_def [symmetric]
        i2_def [symmetric])
  from ensure_extends [OF e1] have f1: "rendering r1 = rendering r" "waited r1 = waited r"
    by simp_all
  from ensure_extends [OF e2'] have ready: "o_check_ready env (trace ?r2)" by simp
  from ensure_forced [OF e2' ready] have
    t3: "trace r3 = trace ?r2 @ recreate_events c_peek ?r2 True (buffer_count r3)"
    and f3: "fenced_buffer r3 = - 1" "buffer_count r3 \<noteq> 0" "fences r3"
      "rendering r3 = rendering ?r2" "waited r3 = waited ?r2"
    by simp_all
  have rc: "recreate_events c_peek ?r2 True (buffer_count r3) =
      recreate_events c_peek r1 True (buffer_count r3)"
    by (rule recreate_events_cong) (simp_all add: emit_def)
  have fr: "buffer_count r' = buffer_count r3" "acquired_buffer r' = i2"
    "fenced_buffer r' = fenced_buffer r3" "fences r' = fences r3"
    "rendering r' = rendering r3" "waited r' = waited r3"
    by (simp_all add: r'_def emit_def)
  have tr: "trace r' = trace r1 @
      (Target_acquire ret i1 # recreate_events c_peek r1 True (buffer_count r3) @
       Target_acquire ret2 i2 #
       (if ret2 \<noteq> VK_SUCCESS then [Log_error ''comp_target_acquire''] else []))"
    using t3 rc by (simp add: r'_def emit_def)
  have "new_events r1 r' =
      first_acquire env r1 # recreate_events c_peek r1 True (buffer_count r') @
      Target_acquire (fst (o_acquire env (trace r3))) (acquired_buffer r') #
      (if fst (o_acquire env (trace r3)) \<noteq> VK_SUCCESS
       then [Log_error ''comp_target_acquire''] else [])"
    using tr fa fr(1,2) oa2 by (simp add: new_events_def)
  moreover have "acquired_buffer r' =
      (case snd (o_acquire env (trace r3)) of
         Some i \<Rightarrow> i
       | None \<Rightarrow> (case snd (o_acquire env (trace r1)) of Some i \<Rightarrow> i | None \<Rightarrow> 0))"
    using fr(2) oa1 oa2 by (simp add: i2_def i1_def split: option.splits)
  moreover have "fenced_buffer r' = - 1" "buffer_count r' \<noteq> 0" "fences r'"
    "rendering r' = rendering r" "waited r' = waited r"
    using fr f3 f1 by (simp_all add: emit_def)
  ultimately show ?thesis using run by blast
qed

text \<open>The three ways through \<open>renderer_resize\<close>.\<close>

lemma resize_not_ready:
  assumes "\<not> o_check_ready env (trace r)"
  shows "renderer_resize env c_peek r =
           Inr (renderer_close_renderings_and_fences (emit (Target_check_ready False) r))"
  using assms by (simp add: renderer_resize_def comp_target_check_ready_def)

lemma resize_gone_between:
  assumes "o_check_ready env (trace r)"
    and "\<not> o_check_ready env (trace r @ [Target_check_ready True])"
  shows "renderer_resize env c_peek r =
           Inr (emit (Target_check_ready False) (emit (Target_check_ready True) r))"
proof -
  have "\<not> o_check_ready env (trace (emit (Target_check_ready True) r))"
    using assms(2) by (simp add: emit_def)
  from ensure_not_ready [OF this] assms(1) show ?thesis
    by (simp add: renderer_resize_def comp_target_check_ready_def)
qed

lemma resize_ready:
  assumes run: "renderer_resize env c_peek r = Inr r'"
    and ready: "o_check_ready env (trace r)"
      "o_check_ready env (trace r @ [Target_check_ready True])"
  shows "\<exists>ok. trace r' = trace r @
             Target_check_ready True # recreate_events c_peek r ok (buffer_count r') \<and>
           acquired_buffer r' = - 1 \<and> fenced_buffer r' = - 1 \<and>
           (if ok then buffer_count r' \<noteq> 0 \<and> fences r' else buffer_count r' = 0) \<and>
           rendering r' = rendering r \<and> waited r' = waited r"
proof -
  let ?r1 = "emit (Target_check_ready True) r"
  from run ready(1) obtain ok where
    e: "renderer_ensure_images_and_renderings env c_peek True ?r1 = Inr (ok, r')"
    by (auto simp: renderer_resize_def comp_target_check_ready_def split: sum.splits)
  have rd: "o_check_ready env (trace ?r1)" using ready(2) by (simp add: emit_def)
  have rc: "recreate_events c_peek ?r1 ok (buffer_count r') =
      recreate_events c_peek r ok (buffer_count r')"
    by (rule recreate_events_cong) (simp_all add: emit_def)
  from ensure_forced [OF e rd] show ?thesis
    unfolding rc by (intro exI [of _ ok]) (simp add: emit_def)
qed

lemma present_stale_unfold:
  assumes "\<not> comp_frame_is_invalid_locked (rendering r)"
    and "is_stale (o_present env (trace r))"
  shows "renderer_present_swapchain_image env c_peek r =
           renderer_resize env c_peek ((emit (present_event env r) r)\<lparr>acquired_buffer := - 1\<rparr>)"
  using assms
  by (simp add: renderer_present_swapchain_image_def comp_target_present_def present_event_def
      Let_def)

text \<open>
  A present that answers out-of-date or suboptimal, by what the target answers to the
  two readiness checks of the resize path.
\<close>

lemma present_stale:
  assumes valid: "\<not> comp_frame_is_invalid_locked (rendering r)"
    and stale: "is_stale (o_present env (trace r))"
  shows "(\<not> o_check_ready env (trace r @ [present_event env r]) \<longrightarrow>
            (\<exists>r'. renderer_present_swapchain_image env c_peek r = Inr r' \<and>
                new_events r r' =
                  present_event env r # Target_check_ready False # close_events r \<and>
                acquired_buffer r' = - 1 \<and> fenced_buffer r' = - 1 \<and> buffer_count r' = 0 \<and>
                (rtr_array r' \<longleftrightarrow> rtr_array r \<and> buffer_count r = 0) \<and>
                (fences r' \<longleftrightarrow> fences r \<and> buffer_count r = 0) \<and>
                rendering r' = rendering r \<and> waited r' = waited r))"
    and "(o_check_ready env (trace r @ [present_event env r]) \<and>
          \<not> o_check_ready env (trace r @ [present_event env r, Target_check_ready True]) \<longrightarrow>
            (\<exists>r'. renderer_present_swapchain_image env c_peek r = Inr r' \<and>
                new_events r r' =
                  [present_event env r, Target_check_ready True, Target_check_ready False] \<and>
                acquired_buffer r' = - 1 \<and> fenced_buffer r' = fenced_buffer r \<and>
                buffer_count r' = buffer_count r \<and>
                rtr_array r' = rtr_array r \<and> fences r' = fences r \<and>
                rendering r' = rendering r \<and> waited r' = waited r))"
    and "(o_check_ready env (trace r @ [present_event env r]) \<and>
          o_check_ready env (trace r @ [present_event env r, Target_check_ready True]) \<longrightarrow>
            (\<forall>r'. renderer_present_swapchain_image env c_peek r = Inr r' \<longrightarrow>
               (\<exists>ok. new_events r r' =
                        present_event env r # Target_check_ready True #
                        recreate_events c_peek r ok (buffer_count r') \<and>
                      acquired_buffer r' = - 1 \<and> fenced_buffer r' = - 1 \<and>
                      (if ok then buffer_count r' \<noteq> 0 \<and> fences r' else buffer_count r' = 0) \<and>
                      rendering r' = rendering r \<and> waited r' = waited r)))"
proof -
  let ?r2 = "(emit (present_event env r) r)\<lparr>acquired_buffer := - 1\<rparr>"
  note u = present_stale_unfold [OF valid stale, of c_peek]
  have t2: "trace ?r2 = trace r @ [present_event env r]" by (simp add: emit_def)
  have f2: "buffer_count ?r2 = buffer_count r" "rtr_array ?r2 = rtr_array r"
    "fences ?r2 = fences r" "use_compute ?r2 = use_compute r"
    "rendering ?r2 = rendering r" "waited ?r2 = waited r" "fenced_buffer ?r2 = fenced_buffer r"
    by (simp_all add: emit_def)
  have ce: "close_events (emit (Target_check_ready False) ?r2) = close_events r"
    by (rule close_events_cong) (simp_all add: emit_def)
  show "(\<not> o_check_ready env (trace r @ [present_event env r]) \<longrightarrow>
            (\<exists>r'. renderer_present_swapchain_image env c_peek r = Inr r' \<and>
                new_events r r' =
                  present_event env r # Target_check_ready False # close_events r \<and>
                acquired_buffer r' = - 1 \<and> fenced_buffer r' = - 1 \<and> buffer_count r' = 0 \<and>
                (rtr_array r' \<longleftrightarrow> rtr_array r \<and> buffer_count r = 0) \<and>
                (fences r' \<longleftrightarrow> fences r \<and> buffer_count r = 0) \<and>
                rendering r' = rendering r \<and> waited r' = waited r))"
  proof
    assume "\<not> o_check_ready env (trace r @ [present_event env r])"
    then have "\<not> o_check_ready env (trace ?r2)" by (simp add: emit_def)
    from resize_not_ready [OF this, of c_peek] have
      run: "renderer_present_swapchain_image env c_peek r =
          Inr (renderer_close_renderings_and_fences (emit (Target_check_ready False) ?r2))"
      unfolding u .
    let ?r' = "renderer_close_renderings_and_fences (emit (Target_check_ready False) ?r2)"
    have "trace ?r' = trace r @ present_event env r # Target_check_ready False # close_events r"
      unfolding close_trace ce by (simp add: emit_def)
    then have "new_events r ?r' =
        present_event env r # Target_check_ready False # close_events r"
      by (simp add: new_events_def)
    moreover have "acquired_buffer ?r' = - 1" "fenced_buffer ?r' = - 1" "buffer_count ?r' = 0"
      "rtr_array ?r' \<longleftrightarrow> rtr_array r \<and> buffer_count r = 0"
      "fences ?r' \<longleftrightarrow> fences r \<and> buffer_count r = 0"
      "rendering ?r' = rendering r" "waited ?r' = waited r"
      by (simp_all add: emit_def)
    ultimately show "\<exists>r'. renderer_present_swapchain_image env c_peek r = Inr r' \<and>
                new_events r r' =
                  present_event env r # Target_check_ready False # close_events r \<and>
                acquired_buffer r' = - 1 \<and> fenced_buffer r' = - 1 \<and> buffer_count r' = 0 \<and>
                (rtr_array r' \<longleftrightarrow> rtr_array r \<and> buffer_count r = 0) \<and>
                (fences r' \<longleftrightarrow> fences r \<and> buffer_count r = 0) \<and>
                rendering r' = rendering r \<and> waited r' = waited r"
      using run by blast
  qed
  show "(o_check_ready env (trace r @ [present_event env r]) \<and>
          \<not> o_check_ready env (trace r @ [present_event env r, Target_check_ready True]) \<longrightarrow>
            (\<exists>r'. renderer_present_swapchain_image env c_peek r = Inr r' \<and>
                new_events r r' =
                  [present_event env r, Target_check_ready True, Target_check_ready False] \<and>
                acquired_buffer r' = - 1 \<and> fenced_buffer r' = fenced_buffer r \<and>
                buffer_count r' = buffer_count r \<and>
                rtr_array r' = rtr_array r \<and> fences r' = fences r \<and>
                rendering r' = rendering r \<and> waited r' = waited r))"
  proof
    assume a: "o_check_ready env (trace r @ [present_event env r]) \<and>
          \<not> o_check_ready env (trace r @ [present_event env r, Target_check_ready True])"
    then have "o_check_ready env (trace ?r2)"
      "\<not> o_check_ready env (trace ?r2 @ [Target_check_ready True])"
      by (simp_all add: emit_def)
    from resize_gone_between [OF this, of c_peek] have
      run: "renderer_present_swapchain_image env c_peek r =
          Inr (emit (Target_check_ready False) (emit (Target_check_ready True) ?r2))"
      unfolding u .
    show "\<exists>r'. renderer_present_swapchain_image env c_peek r = Inr r' \<and>
                new_events r r' =
                  [present_event env r, Target_check_ready True, Target_check_ready False] \<and>
                acquired_buffer r' = - 1 \<and> fenced_buffer r' = fenced_buffer r \<and>
                buffer_count r' = buffer_count r \<and>
                rtr_array r' = rtr_array r \<and> fences r' = fences r \<and>
                rendering r' = rendering r \<and> waited r' = waited r"
      unfolding run by (simp add: emit_def new_events_def)
  qed
  show "(o_check_ready env (trace r @ [present_event env r]) \<and>
          o_check_ready env (trace r @ [present_event env r, Target_check_ready True]) \<longrightarrow>
            (\<forall>r'. renderer_present_swapchain_image env c_peek r = Inr r' \<longrightarrow>
               (\<exists>ok. new_events r r' =
                        present_event env r # Target_check_ready True #
                        recreate_events c_peek r ok (buffer_count r') \<and>
                      acquired_buffer r' = - 1 \<and> fenced_buffer r' = - 1 \<and>
                      (if ok then buffer_count r' \<noteq> 0 \<and> fences r' else buffer_count r' = 0) \<and>
                      rendering r' = rendering r \<and> waited r' = waited r)))"
  proof (intro impI allI)
    fix r'
    assume a: "o_check_ready env (trace r @ [present_event env r]) \<and>
          o_check_ready env (trace r @ [present_event env r, Target_check_ready True])"
      and run: "renderer_present_swapchain_image env c_peek r = Inr r'"
    from a have rd: "o_check_ready env (trace ?r2)"
      "o_check_ready env (trace ?r2 @ [Target_check_ready True])"
      by (simp_all add: emit_def)
    from run have rs: "renderer_resize env c_peek ?r2 = Inr r'" unfolding u .
    have rc: "\<And>ok n. recreate_events c_peek ?r2 ok n = recreate_events c_peek r ok n"
      by (rule recreate_events_cong) (simp_all add: emit_def)
    from resize_ready [OF rs rd] obtain ok where
      "trace r' = trace ?r2 @
             Target_check_ready True # recreate_events c_peek r ok (buffer_count r')"
      "acquired_buffer r' = - 1" "fenced_buffer r' = - 1"
      "if ok then buffer_count r' \<noteq> 0 \<and> fences r' else buffer_count r' = 0"
      "rendering r' = rendering ?r2" "waited r' = waited ?r2"
      unfolding rc by blast
    then show "\<exists>ok. new_events r r' =
                        present_event env r # Target_check_ready True #
                        recreate_events c_peek r ok (buffer_count r') \<and>
                      acquired_buffer r' = - 1 \<and> fenced_buffer r' = - 1 \<and>
                      (if ok then buffer_count r' \<noteq> 0 \<and> fences r' else buffer_count r' = 0) \<and>
                      rendering r' = rendering r \<and> waited r' = waited r"
      by (intro exI [of _ ok]) (simp add: emit_def new_events_def)
  qed
qed

lemma present_extends:
  assumes run: "renderer_present_swapchain_image env c_peek r = Inr r'"
  shows "\<exists>evs. trace r' = trace r @ present_event env r # evs \<and> quiet evs \<and>
           acquired_buffer r' = - 1 \<and> rendering r' = rendering r \<and> waited r' = waited r"
proof (cases "is_stale (o_present env (trace r))")
  case False
  with run have "r' = (if o_present env (trace r) \<noteq> VK_SUCCESS
      then emit (Log_error ''vk_swapchain_present'')
        ((emit (present_event env r) r)\<lparr>acquired_buffer := - 1\<rparr>)
      else (emit (present_event env r) r)\<lparr>acquired_buffer := - 1\<rparr>)"
    by (auto simp: renderer_present_swapchain_image_def comp_target_present_def present_event_def
        Let_def split: if_splits)
  then show ?thesis by (simp add: emit_def)
next
  case stale: True
  from run have valid: "\<not> comp_frame_is_invalid_locked (rendering r)"
    by (auto simp: renderer_present_swapchain_image_def split: if_splits)
  note ps = present_stale [OF valid stale, of c_peek]
  consider (gone) "\<not> o_check_ready env (trace r @ [present_event env r])"
    | (between) "o_check_ready env (trace r @ [present_event env r])"
        "\<not> o_check_ready env (trace r @ [present_event env r, Target_check_ready True])"
    | (ready) "o_check_ready env (trace r @ [present_event env r])"
        "o_check_ready env (trace r @ [present_event env r, Target_check_ready True])"
    by blast
  then have "\<exists>evs. new_events r r' = present_event env r # evs \<and> quiet evs \<and>
           acquired_buffer r' = - 1 \<and> rendering r' = rendering r \<and> waited r' = waited r"
  proof cases
    case gone
    with ps(1) run show ?thesis by auto
  next
    case between
    with ps(2) run show ?thesis by auto
  next
    case ready
    with ps(3) run obtain ok where
      "new_events r r' = present_event env r # Target_check_ready True #
                        recreate_events c_peek r ok (buffer_count r')"
      "acquired_buffer r' = - 1" "rendering r' = rendering r" "waited r' = waited r"
      by blast
    then show ?thesis by simp
  qed
  moreover have "\<exists>evs0. trace r' = trace r @ evs0"
  proof -
    from run stale have "renderer_resize env c_peek
        ((emit (present_event env r) r)\<lparr>acquired_buffer := - 1\<rparr>) = Inr r'"
      using present_stale_unfold [OF valid stale, of c_peek] by simp
    then show ?thesis
    proof (cases "o_check_ready env (trace ((emit (present_event env r) r)\<lparr>acquired_buffer := - 1\<rparr>))")
      case False
      from resize_not_ready [OF False, of c_peek] \<open>renderer_resize env c_peek
        ((emit (present_event env r) r)\<lparr>acquired_buffer := - 1\<rparr>) = Inr r'\<close>
      show ?thesis by (auto simp: close_trace emit_def)
    next
      case True
      with \<open>renderer_resize env c_peek
        ((emit (present_event env r) r)\<lparr>acquired_buffer := - 1\<rparr>) = Inr r'\<close>
      obtain ok where "renderer_ensure_images_and_renderings env c_peek True
          (emit (Target_check_ready True) ((emit (present_event env r) r)\<lparr>acquired_buffer := - 1\<rparr>))
          = Inr (ok, r')"
        by (auto simp: renderer_resize_def comp_target_check_ready_def split: sum.splits)
      from ensure_extends [OF this] show ?thesis by (auto simp: emit_def)
    qed
  qed
  ultimately show ?thesis by (auto simp: new_events_def)
qed

text \<open>
  Claim C2. When \<open>comp_renderer_draw\<close> is entered with a valid waited frame and an empty
  rendering slot, and \<open>comp_target_check_ready\<close> answers false after the frame has been
  moved and its begin has been marked, the call returns \<open>XRT_SUCCESS\<close>. Its events are
  exactly the begin mark, the readiness check, the submit-begin mark and the submit-end
  mark of that frame id, each mark with a fresh reading of the clock: no acquire, no
  submission, no present. Both frame slots are invalid afterwards, and the acquired and
  the fenced buffer are untouched. This holds with or without a peek window.
\<close>

theorem discarded_frame_timing:
  assumes waited_valid: "\<not> comp_frame_is_invalid_locked (waited r)"
    and rendering_free: "comp_frame_is_invalid_locked (rendering r)"
    and not_ready:
      "\<not> o_check_ready env
           (trace r @ [Clock (o_now_ns env (trace r)),
                       Target_mark COMP_TARGET_TIMING_POINT_BEGIN (frame_id (waited r))
                         (o_now_ns env (trace r))])"
  shows "\<exists>r'. comp_renderer_draw env c_peek r = Some (Inr (XRT_SUCCESS, r')) \<and>
           (\<exists>t0 t1 t2. trace r' = trace r @
              [Clock t0, Target_mark COMP_TARGET_TIMING_POINT_BEGIN (frame_id (waited r)) t0,
               Target_check_ready False,
               Clock t1, Target_mark COMP_TARGET_TIMING_POINT_SUBMIT_BEGIN (frame_id (waited r)) t1,
               Clock t2, Target_mark COMP_TARGET_TIMING_POINT_SUBMIT_END (frame_id (waited r)) t2]) \<and>
           comp_frame_is_invalid_locked (rendering r') \<and>
           comp_frame_is_invalid_locked (waited r') \<and>
           acquired_buffer r' = acquired_buffer r \<and> fenced_buffer r' = fenced_buffer r"
  using assms
  by (simp add: comp_renderer_draw_def prim_defs frame_defs Let_def)

theorem discarded_frame_timing_witness:
  "\<exists>r'. comp_renderer_draw env_not_ready None renderer0 =
            Some (Inr (XRT_SUCCESS, r')) \<and>
      (\<exists>t0 t1 t2. trace r' =
         [Clock t0, Target_mark COMP_TARGET_TIMING_POINT_BEGIN 7 t0,
          Target_check_ready False,
          Clock t1, Target_mark COMP_TARGET_TIMING_POINT_SUBMIT_BEGIN 7 t1,
          Clock t2, Target_mark COMP_TARGET_TIMING_POINT_SUBMIT_END 7 t2]) \<and>
      comp_frame_is_invalid_locked (rendering r')"
proof -
  have w: "\<not> comp_frame_is_invalid_locked (waited renderer0)"
    by (simp add: renderer0_def frame7_def frame_defs)
  have f: "comp_frame_is_invalid_locked (rendering renderer0)"
    by (simp add: renderer0_def frame_none_def frame_defs)
  have n: "\<not> o_check_ready env_not_ready
           (trace renderer0 @ [Clock (o_now_ns env_not_ready (trace renderer0)),
                       Target_mark COMP_TARGET_TIMING_POINT_BEGIN (frame_id (waited renderer0))
                         (o_now_ns env_not_ready (trace renderer0))])"
    by (simp add: env_not_ready_def)
  have i: "frame_id (waited renderer0) = 7" "trace renderer0 = []"
    by (simp_all add: renderer0_def frame7_def)
  from discarded_frame_timing [OF w f n, of None] show ?thesis
    unfolding i by auto
qed

text \<open>
  Claim C3, at the input where the code leaves it. With a queue submission that fails,
  \<open>comp_renderer_draw\<close> (entered with frame 7 waited for and an empty rendering slot)
  returns \<open>XRT_ERROR_VULKAN\<close> and frame 7 is still in the rendering slot: this return
  path does not clear it. The next call, with frame 8 waited for, stops at the entry
  assertion that the rendering slot is empty.
\<close>

theorem draw_error_return_keeps_rendering_slot:
  "(case comp_renderer_draw env_submit_fails None renderer0 of
      Some (Inr (xret, r')) \<Rightarrow>
        xret = XRT_ERROR_VULKAN \<and> rendering r' = frame7 \<and>
        \<not> comp_frame_is_invalid_locked (rendering r') \<and>
        comp_renderer_draw env_submit_fails None (r'\<lparr>waited := frame8\<rparr>) =
          Some (Inl (Assertion_failed ''comp_frame_is_invalid_locked(&c->frame.rendering)''))
    | _ \<Rightarrow> False)"
  by (simp add: env_submit_fails_def frame8_def example_defs renderer_defs prim_defs frame_defs Let_def)

lemma peek_wait_ready_returns:
  assumes "o_peek_check_ready env (tr @ replicate n (Peek_check_ready False))"
    and "\<forall>m<n. \<not> o_peek_check_ready env (tr @ replicate m (Peek_check_ready False))"
  shows "peek_wait_ready env tr =
           Some (tr @ replicate n (Peek_check_ready False) @ [Peek_check_ready True])"
  using assms
proof (induction n arbitrary: tr)
  case 0
  then show ?case by (subst peek_wait_ready.simps) simp
next
  case (Suc n)
  from Suc.prems(2) have nr: "\<not> o_peek_check_ready env tr" by force
  have a: "o_peek_check_ready env ((tr @ [Peek_check_ready False]) @ replicate n (Peek_check_ready False))"
    using Suc.prems(1) by simp
  have b: "\<forall>m<n. \<not> o_peek_check_ready env
             ((tr @ [Peek_check_ready False]) @ replicate m (Peek_check_ready False))"
  proof (intro allI impI)
    fix m assume "m < n"
    then have "Suc m < Suc n" by simp
    with Suc.prems(2) have "\<not> o_peek_check_ready env (tr @ replicate (Suc m) (Peek_check_ready False))"
      by blast
    then show "\<not> o_peek_check_ready env
             ((tr @ [Peek_check_ready False]) @ replicate m (Peek_check_ready False))"
      by simp
  qed
  have "peek_wait_ready env tr = peek_wait_ready env (tr @ [Peek_check_ready False])"
    using nr by (subst peek_wait_ready.simps) simp
  also have "\<dots> = Some ((tr @ [Peek_check_ready False]) @ replicate n (Peek_check_ready False) @
      [Peek_check_ready True])"
    by (rule Suc.IH [OF a b])
  finally show ?case by simp
qed

lemma peek_wait_ready_Some:
  assumes run: "peek_wait_ready env tr = Some y"
  shows "\<exists>n. o_peek_check_ready env (tr @ replicate n (Peek_check_ready False)) \<and>
             y = tr @ replicate n (Peek_check_ready False) @ [Peek_check_ready True]"
proof (rule peek_wait_ready.raw_induct
    [where P = "\<lambda>env tr y. \<exists>n. o_peek_check_ready env (tr @ replicate n (Peek_check_ready False)) \<and>
             y = tr @ replicate n (Peek_check_ready False) @ [Peek_check_ready True]",
     OF _ run])
  fix f :: "env \<Rightarrow> event list \<Rightarrow> event list option" and env tr y
  assume IH: "\<And>env tr y. f env tr = Some y \<Longrightarrow>
      \<exists>n. o_peek_check_ready env (tr @ replicate n (Peek_check_ready False)) \<and>
          y = tr @ replicate n (Peek_check_ready False) @ [Peek_check_ready True]"
    and step: "(if o_peek_check_ready env tr then Some (tr @ [Peek_check_ready True])
       else f env (tr @ [Peek_check_ready False])) = Some y"
  show "\<exists>n. o_peek_check_ready env (tr @ replicate n (Peek_check_ready False)) \<and>
          y = tr @ replicate n (Peek_check_ready False) @ [Peek_check_ready True]"
  proof (cases "o_peek_check_ready env tr")
    case True
    with step have "o_peek_check_ready env (tr @ replicate 0 (Peek_check_ready False)) \<and>
        y = tr @ replicate 0 (Peek_check_ready False) @ [Peek_check_ready True]" by simp
    then show ?thesis by (rule exI)
  next
    case False
    with step have "f env (tr @ [Peek_check_ready False]) = Some y" by simp
    from IH [OF this] obtain n where
      "o_peek_check_ready env ((tr @ [Peek_check_ready False]) @ replicate n (Peek_check_ready False))"
      "y = (tr @ [Peek_check_ready False]) @ replicate n (Peek_check_ready False) @ [Peek_check_ready True]"
      by blast
    then have "o_peek_check_ready env (tr @ replicate (Suc n) (Peek_check_ready False)) \<and>
        y = tr @ replicate (Suc n) (Peek_check_ready False) @ [Peek_check_ready True]" by simp
    then show ?thesis by (rule exI)
  qed
qed

lemma peek_wait_ready_iff:
  "peek_wait_ready env tr \<noteq> None \<longleftrightarrow>
     (\<exists>n. o_peek_check_ready env (tr @ replicate n (Peek_check_ready False)))"
proof
  assume "peek_wait_ready env tr \<noteq> None"
  then obtain y where "peek_wait_ready env tr = Some y" by auto
  from peek_wait_ready_Some [OF this] show
    "\<exists>n. o_peek_check_ready env (tr @ replicate n (Peek_check_ready False))" by blast
next
  let ?P = "\<lambda>n. o_peek_check_ready env (tr @ replicate n (Peek_check_ready False))"
  assume ex: "\<exists>n. ?P n"
  define k where "k = (LEAST n. ?P n)"
  have "?P k" unfolding k_def using ex by (rule LeastI_ex)
  moreover have "\<forall>m<k. \<not> ?P m" unfolding k_def using not_less_Least by blast
  ultimately show "peek_wait_ready env tr \<noteq> None"
    using peek_wait_ready_returns [of env tr k] by simp
qed

lemma peek_events_simps [simp]:
  "peek_events []"
  "peek_events (e # es) \<longleftrightarrow> is_peek_or_log e \<and> peek_events es"
  "peek_events (xs @ ys) \<longleftrightarrow> peek_events xs \<and> peek_events ys"
  by (auto simp: peek_events_def)

lemma is_peek_or_log_simps [simp]:
  "is_peek_or_log Peek_create_images" "is_peek_or_log (Peek_check_ready b)"
  "is_peek_or_log (Peek_acquire x c)" "is_peek_or_log (Peek_commands i x)"
  "is_peek_or_log (Peek_submit x)" "is_peek_or_log (Peek_present i x)"
  "is_peek_or_log (Log_error s)"
  by (simp_all add: is_peek_or_log_def is_peek_event_def)

lemma peek_blit_present_extends:
  "\<exists>evs. peek_blit_present env dst tr = tr @ evs \<and> peek_events evs"
  by (simp add: peek_blit_present_def Let_def)

lemma peek_blit_submit_extends:
  "\<exists>evs. peek_blit_submit env dst tr = tr @ evs \<and> peek_events evs"
proof (cases "o_peek_submit env tr = VK_SUCCESS")
  case True
  obtain evs where "peek_blit_present env dst (tr @ [Peek_submit VK_SUCCESS])
      = (tr @ [Peek_submit VK_SUCCESS]) @ evs" "peek_events evs"
    using peek_blit_present_extends by blast
  with True show ?thesis
    by (intro exI [of _ "Peek_submit VK_SUCCESS # evs"]) (simp add: peek_blit_submit_def Let_def)
next
  case False
  then show ?thesis by (simp add: peek_blit_submit_def Let_def)
qed

text \<open>
  The part of the blit after the polling loop leaves defined behaviour exactly when the
  acquire has not written \<open>current\<close>.
\<close>

lemma peek_blit_commands_Inl:
  "peek_blit_commands env tr = Inl e \<longleftrightarrow>
     e = Indeterminate_read \<and> snd (o_peek_acquire env tr) = None"
  by (cases "o_peek_acquire env tr")
    (auto simp: peek_blit_commands_def Let_def split: option.splits)

lemma peek_blit_commands_extends:
  assumes run: "peek_blit_commands env tr = Inr tr'"
  shows "\<exists>evs. tr' = tr @ evs \<and> peek_events evs"
proof -
  obtain ret current where oa: "o_peek_acquire env tr = (ret, current)"
    by (cases "o_peek_acquire env tr")
  from run oa obtain dst where cur: "current = Some dst"
    by (cases current) (simp_all add: peek_blit_commands_def Let_def)
  define tr2 where "tr2 = (if ret \<noteq> VK_SUCCESS
      then (tr @ [Peek_acquire ret current]) @ [Log_error ''comp_target_acquire'']
      else tr @ [Peek_acquire ret current])"
  have "\<exists>evs2. tr2 = tr @ evs2 \<and> peek_events evs2" by (simp add: tr2_def)
  then obtain evs2 where e2: "tr2 = tr @ evs2" "peek_events evs2" by blast
  have unfold: "peek_blit_commands env tr =
      (if o_peek_end_command_buffer env tr2 \<noteq> VK_SUCCESS
       then Inr ((tr2 @ [Peek_commands dst (o_peek_end_command_buffer env tr2)]) @
              [Log_error ''Could not end command buffer.''])
       else Inr (peek_blit_submit env dst
              (tr2 @ [Peek_commands dst (o_peek_end_command_buffer env tr2)])))"
    unfolding peek_blit_commands_def Let_def tr2_def oa cur by simp
  show ?thesis
  proof (cases "o_peek_end_command_buffer env tr2 = VK_SUCCESS")
    case True
    obtain evs where "peek_blit_submit env dst (tr2 @ [Peek_commands dst VK_SUCCESS])
        = (tr2 @ [Peek_commands dst VK_SUCCESS]) @ evs" "peek_events evs"
      using peek_blit_submit_extends by blast
    with True e2 unfold run show ?thesis
      by (intro exI [of _ "evs2 @ Peek_commands dst VK_SUCCESS # evs"]) simp
  next
    case False
    with e2 unfold run show ?thesis by auto
  qed
qed

lemma peek_blit_extends:
  assumes "comp_window_peek_blit env w tr = Some (Inr tr')"
  shows "\<exists>evs. tr' = tr @ evs \<and> peek_events evs"
proof (cases "hidden w \<or> \<not> running w")
  case True
  with assms show ?thesis by (simp add: comp_window_peek_blit_def)
next
  case False
  with assms obtain tr2 where w: "peek_wait_ready env (peek_start env w tr) = Some tr2"
    and tr': "peek_blit_commands env tr2 = Inr tr'"
    by (auto simp: comp_window_peek_blit_def split: option.splits)
  from peek_wait_ready_Some [OF w] obtain n where
    tr2: "tr2 = peek_start env w tr @ replicate n (Peek_check_ready False) @ [Peek_check_ready True]"
    by blast
  have "\<exists>evs0. peek_start env w tr = tr @ evs0 \<and> peek_events evs0"
    by (simp add: peek_start_def)
  then obtain evs0 where s: "peek_start env w tr = tr @ evs0" "peek_events evs0"
    by blast
  have rep: "peek_events (replicate n (Peek_check_ready False))"
    by (simp add: peek_events_def)
  from peek_blit_commands_extends [OF tr'] obtain evs3 where
    e3: "tr' = tr2 @ evs3" "peek_events evs3" by blast
  show ?thesis
    using s tr2 e3 rep
    by (intro exI [of _ "evs0 @ replicate n (Peek_check_ready False) @ [Peek_check_ready True] @ evs3"])
      simp
qed

lemma peek_blit_returns_iff:
  assumes "\<not> hidden w" "running w"
  shows "comp_window_peek_blit env w tr \<noteq> None \<longleftrightarrow>
     (\<exists>n. o_peek_check_ready env (peek_start env w tr @ replicate n (Peek_check_ready False)))"
  using assms peek_wait_ready_iff [of env "peek_start env w tr"]
  by (auto simp: comp_window_peek_blit_def split: option.splits)

lemma wait_for_present_extends:
  assumes run: "renderer_wait_for_present env c_peek desired r = Inr r'"
  shows "(\<exists>evs. trace r' = trace r @ evs) \<and> rendering r' = rendering r \<and> waited r' = waited r"
proof (cases "o_check_ready env (trace r)")
  case False
  with run show ?thesis
    by (auto simp: renderer_wait_for_present_def comp_target_check_ready_def emit_def)
next
  case True
  define r2 where "r2 = emit (Clock (o_now_ns env (trace (emit (Target_check_ready True) r))))
      (emit (Target_check_ready True) r)"
  have f2: "\<exists>evs. trace r2 = trace r @ evs" "rendering r2 = rendering r" "waited r2 = waited r"
    by (simp_all add: r2_def emit_def)
  define mid where "mid =
    (if o_wait_for_present_supported env
     then (case comp_target_wait_for_present env r2 of
             (result, r3) \<Rightarrow>
               if result = VK_ERROR_EXTENSION_NOT_PRESENT
               then Inl (Assertion_failed ''result != VK_ERROR_EXTENSION_NOT_PRESENT'')
               else Inr r3)
     else renderer_acquire_swapchain_image env c_peek r2)"
  have unfold: "renderer_wait_for_present env c_peek desired r =
     (case mid of
        Inl e \<Rightarrow> Inl e
      | Inr r4 \<Rightarrow>
          (case os_monotonic_get_ns env r4 of
             (after_ns, r5) \<Rightarrow>
               if o_now_ns env (trace (emit (Target_check_ready True) r)) + U_TIME_1MS_IN_NS < after_ns \<and>
                  desired + U_TIME_1MS_IN_NS < after_ns
               then Inr (emit (Log_frame_lag (after_ns - desired)) r5)
               else Inr r5))"
    using True
    unfolding mid_def r2_def renderer_wait_for_present_def comp_target_check_ready_def Let_def
    by (simp add: os_monotonic_get_ns_def Let_def)
  from run unfold obtain r4 where mid: "mid = Inr r4"
    by (cases mid) auto
  have f4: "(\<exists>evs. trace r4 = trace r2 @ evs) \<and> rendering r4 = rendering r2 \<and> waited r4 = waited r2"
  proof (cases "o_wait_for_present_supported env")
    case True
    with mid show ?thesis
      by (auto simp: mid_def comp_target_wait_for_present_def emit_def Let_def split: if_splits)
  next
    case False
    with mid have "renderer_acquire_swapchain_image env c_peek r2 = Inr r4" by (simp add: mid_def)
    from acquire_extends [OF this] show ?thesis by blast
  qed
  have "(\<exists>evs. trace r' = trace r4 @ evs) \<and> rendering r' = rendering r4 \<and> waited r' = waited r4"
    using run unfold mid
    by (auto simp: os_monotonic_get_ns_def emit_def Let_def split: if_splits)
  with f2 f4 show ?thesis by auto
qed

lemma draw_finish_props:
  assumes run: "draw_finish env c_peek r = Inr (xret, r')"
  shows "(\<exists>evs. trace r' = trace r @ evs \<and>
            (xret = XRT_SUCCESS \<or> Mirror_do_blit xret \<in> set evs)) \<and>
         comp_frame_is_invalid_locked (rendering r') \<and> waited r' = waited r"
proof -
  from run obtain r1 where p: "renderer_present_swapchain_image env c_peek r = Inr r1"
    by (auto simp: draw_finish_def split: sum.splits)
  from present_extends [OF p] obtain evs1 where
    t1: "trace r1 = trace r @ evs1" and f1: "waited r1 = waited r" by blast
  define r4 where "r4 = emit (Mirror_is_ready_and_active
        (o_mirror_is_ready_and_active env (trace (emit Mirror_fixup_ui_state
           (r1\<lparr>rendering := comp_frame_clear_locked (rendering r1)\<rparr>)))))
      (emit Mirror_fixup_ui_state (r1\<lparr>rendering := comp_frame_clear_locked (rendering r1)\<rparr>))"
  define active where "active = o_mirror_is_ready_and_active env (trace (emit Mirror_fixup_ui_state
           (r1\<lparr>rendering := comp_frame_clear_locked (rendering r1)\<rparr>)))"
  define x where "x = (if active then o_mirror_do_blit env (trace r4) else XRT_SUCCESS)"
  define r5 where "r5 = (if active then emit (Mirror_do_blit x) r4 else r4)"
  define r7 where "r7 = emit Frame_state_fini (renderer_wait_queue_idle r5)"
  define r8 where "r8 =
    (if x = XRT_SUCCESS
     then (case o_get_timestamps env (trace r7) of
             None \<Rightarrow> emit (Get_timestamps False) r7
           | Some (gpu_start_ns, gpu_end_ns) \<Rightarrow>
               (case os_monotonic_get_ns env (emit (Get_timestamps True) r7) of
                  (now_ns, r') \<Rightarrow>
                    emit (Target_info_gpu (frame_id (rendering r1)) gpu_start_ns gpu_end_ns now_ns) r'))
     else r7)"
  have unfold: "draw_finish env c_peek r =
      (case renderer_wait_for_present env c_peek (desired_present_time_ns (rendering r1)) r8 of
         Inl e \<Rightarrow> Inl e
       | Inr r9 \<Rightarrow> Inr (x, emit Target_update_timings r9))"
    unfolding draw_finish_def Let_def r8_def r7_def r5_def x_def r4_def active_def
    by (simp add: p)
  from run unfold obtain r9 where
    w: "renderer_wait_for_present env c_peek (desired_present_time_ns (rendering r1)) r8 = Inr r9"
    and res: "xret = x" "r' = emit Target_update_timings r9"
    by (auto split: sum.splits)
  have t5: "\<exists>evs. trace r5 = trace r1 @ evs \<and> (x = XRT_SUCCESS \<or> Mirror_do_blit x \<in> set evs)"
    by (auto simp: r5_def r4_def x_def emit_def)
  have f5: "comp_frame_is_invalid_locked (rendering r5)" "waited r5 = waited r1"
    by (simp_all add: r5_def r4_def emit_def frame_defs)
  have t8: "\<exists>evs. trace r8 = trace r5 @ evs"
    by (auto simp: r8_def r7_def renderer_wait_queue_idle_def os_monotonic_get_ns_def emit_def
        Let_def split: option.splits)
  have f8: "rendering r8 = rendering r5" "waited r8 = waited r5"
    by (auto simp: r8_def r7_def renderer_wait_queue_idle_def os_monotonic_get_ns_def emit_def
        Let_def split: option.splits)
  from wait_for_present_extends [OF w] obtain evs9 where
    t9: "trace r9 = trace r8 @ evs9" and f9: "rendering r9 = rendering r8" "waited r9 = waited r8"
    by blast
  from t5 obtain evs5 where e5: "trace r5 = trace r1 @ evs5"
    "x = XRT_SUCCESS \<or> Mirror_do_blit x \<in> set evs5" by blast
  from t8 obtain evs8 where e8: "trace r8 = trace r5 @ evs8" by blast
  have "trace r' = trace r @ (evs1 @ evs5 @ evs8 @ evs9 @ [Target_update_timings])"
    using res t1 e5(1) e8 t9 by (simp add: emit_def)
  moreover have "xret = XRT_SUCCESS \<or>
      Mirror_do_blit xret \<in> set (evs1 @ evs5 @ evs8 @ evs9 @ [Target_update_timings])"
    using e5(2) res(1) by auto
  ultimately have "\<exists>evs. trace r' = trace r @ evs \<and>
            (xret = XRT_SUCCESS \<or> Mirror_do_blit xret \<in> set evs)" by blast
  moreover have "comp_frame_is_invalid_locked (rendering r')" "waited r' = waited r"
    using res f5 f8 f9 f1 by (simp_all add: emit_def)
  ultimately show ?thesis by blast
qed

lemma submit_queue_frames:
  assumes run: "renderer_submit_queue env r = Inr (ret, r')"
  shows "rendering r' = rendering r \<and> waited r' = waited r"
proof -
  note f = wait_for_last_fence_fields [of env r]
  from run show ?thesis
    by (auto simp: renderer_submit_queue_def Let_def f prim_defs split: if_splits)
qed

lemma failed_submission_simps [simp]:
  "is_failed_submission (Fence_reset i x) \<longleftrightarrow> x \<noteq> VK_SUCCESS"
  "is_failed_submission (Queue_submit i x) \<longleftrightarrow> x \<noteq> VK_SUCCESS"
  by (simp_all add: is_failed_submission_def)

lemma submit_queue_failure:
  assumes run: "renderer_submit_queue env r = Inr (ret, r')"
  shows "\<exists>evs. trace r' = trace r @ evs \<and>
           (ret \<noteq> VK_SUCCESS \<longrightarrow> (\<exists>e \<in> set evs. is_failed_submission e))"
  using run
proof (cases rule: submit_queue_cases)
  case (reset_failed x)
  then show ?thesis by auto
next
  case (submitted t1 t2)
  then show ?thesis by auto
qed

lemma dispatch_props:
  assumes run: "(if use_compute r then dispatch_compute env r else dispatch_graphics env r)
                  = Inr (res, r')"
  shows "(\<exists>evs. trace r' = trace r @ evs \<and>
            (res \<noteq> VK_SUCCESS \<longrightarrow> (\<exists>e \<in> set evs. is_failed_submission e))) \<and>
         rendering r' = rendering r \<and> waited r' = waited r"
proof -
  let ?r0 = "emit (Pipeline (use_compute r) (acquired_buffer r)) r"
  from run obtain r1 where sq: "renderer_submit_queue env ?r0 = Inr (res, r1)"
    and r': "r' = (if res \<noteq> VK_SUCCESS then emit (Log_error ''renderer_submit_queue'') r1 else r1)"
    by (auto simp: dispatch_compute_def dispatch_graphics_def split: if_splits sum.splits)
  from submit_queue_failure [OF sq] obtain evs where
    evs: "trace r1 = trace ?r0 @ evs" "res \<noteq> VK_SUCCESS \<longrightarrow> (\<exists>e \<in> set evs. is_failed_submission e)"
    by blast
  from submit_queue_frames [OF sq] have f: "rendering r1 = rendering r" "waited r1 = waited r"
    by (simp_all add: emit_def)
  have "trace r' = trace r @ (Pipeline (use_compute r) (acquired_buffer r) # evs @
      (if res \<noteq> VK_SUCCESS then [Log_error ''renderer_submit_queue''] else []))"
    using r' evs(1) by (simp add: emit_def)
  moreover have "res \<noteq> VK_SUCCESS \<longrightarrow> (\<exists>e \<in> set (Pipeline (use_compute r) (acquired_buffer r) # evs @
      (if res \<noteq> VK_SUCCESS then [Log_error ''renderer_submit_queue''] else [])). is_failed_submission e)"
    using evs(2) by auto
  ultimately have "\<exists>evs. trace r' = trace r @ evs \<and>
            (res \<noteq> VK_SUCCESS \<longrightarrow> (\<exists>e \<in> set evs. is_failed_submission e))" by blast
  moreover have "rendering r' = rendering r" "waited r' = waited r"
    using r' f by (simp_all add: emit_def)
  ultimately show ?thesis by blast
qed

lemma draw_render_props:
  assumes run: "draw_render env c_peek r = Some (Inr (xret, r'))"
  shows "(\<exists>evs. trace r' = trace r @ evs \<and>
            (xret = XRT_SUCCESS \<or> (\<exists>e \<in> set evs. is_failed_submission e) \<or>
             Mirror_do_blit xret \<in> set evs)) \<and>
         (comp_frame_is_invalid_locked (rendering r') \<or>
          xret = XRT_ERROR_VULKAN \<and> rendering r' = rendering r)"
proof -
  let ?r2 = "emit Target_update_timings (emit Target_flush r)"
  define acq where "acq = (if sint (acquired_buffer ?r2) < 0
               then renderer_acquire_swapchain_image env c_peek ?r2 else Inr ?r2)"
  from run obtain r3 where a: "acq = Inr r3"
    unfolding draw_render_def Let_def acq_def by (auto split: sum.splits)
  have f3: "(\<exists>evs. trace r3 = trace r @ evs) \<and> rendering r3 = rendering r"
  proof (cases "sint (acquired_buffer ?r2) < 0")
    case True
    with a have "renderer_acquire_swapchain_image env c_peek ?r2 = Inr r3" by (simp add: acq_def)
    from acquire_extends [OF this] show ?thesis by (auto simp: emit_def)
  next
    case False
    with a show ?thesis by (auto simp: acq_def emit_def)
  qed
  let ?r5 = "emit Frame_state_init (emit Target_update_timings r3)"
  define disp where "disp = (if use_compute ?r5 then dispatch_compute env ?r5
                            else dispatch_graphics env ?r5)"
  have unfold: "draw_render env c_peek r =
      (if \<not> (\<not> one_projection_layer_fast_path r3 \<or> 1 \<le> layer_count r3)
       then Some (Inl (Assertion_failed ''!fast_path || c->base.layer_accum.layer_count >= 1''))
       else (case disp of
               Inl e \<Rightarrow> Some (Inl e)
             | Inr (res, r6) \<Rightarrow>
                 if res \<noteq> VK_SUCCESS then Some (Inr (XRT_ERROR_VULKAN, r6))
                 else
                   (case (case c_peek of
                            None \<Rightarrow> Some (Inr (trace r6))
                          | Some w \<Rightarrow> comp_window_peek_blit env w (trace r6)) of
                      None \<Rightarrow> None
                    | Some (Inl e) \<Rightarrow> Some (Inl e)
                    | Some (Inr tr) \<Rightarrow> Some (draw_finish env c_peek (r6\<lparr>trace := tr\<rparr>)))))"
    using a unfolding draw_render_def Let_def acq_def disp_def
    by (simp add: emit_def)
  from run unfold obtain res r6 where d: "disp = Inr (res, r6)"
    by (cases disp) (auto split: if_splits)
  from dispatch_props [OF d [unfolded disp_def]] obtain evs6 where
    e6: "trace r6 = trace ?r5 @ evs6"
      "res \<noteq> VK_SUCCESS \<longrightarrow> (\<exists>e \<in> set evs6. is_failed_submission e)"
    and f6: "rendering r6 = rendering ?r5"
    by blast
  from f3 obtain evs3 where e3: "trace r3 = trace r @ evs3" by blast
  have t6: "trace r6 = trace r @ (evs3 @ [Target_update_timings, Frame_state_init] @ evs6)"
    using e6(1) e3 by (simp add: emit_def)
  have r6: "rendering r6 = rendering r" using f6 f3 by (simp add: emit_def)
  show ?thesis
  proof (cases "res = VK_SUCCESS")
    case False
    with run unfold d have "xret = XRT_ERROR_VULKAN" "r' = r6" by (auto split: if_splits)
    moreover have "\<exists>e \<in> set (evs3 @ [Target_update_timings, Frame_state_init] @ evs6).
        is_failed_submission e"
      using e6(2) False by auto
    ultimately show ?thesis using t6 r6 by blast
  next
    case True
    with run unfold d obtain tr where
      pk: "(case c_peek of None \<Rightarrow> Some (Inr (trace r6))
            | Some w \<Rightarrow> comp_window_peek_blit env w (trace r6)) = Some (Inr tr)"
      and fin: "draw_finish env c_peek (r6\<lparr>trace := tr\<rparr>) = Inr (xret, r')"
      by (auto split: if_splits option.splits sum.splits)
    have "\<exists>evsp. tr = trace r6 @ evsp"
    proof (cases c_peek)
      case None
      with pk show ?thesis by simp
    next
      case (Some w)
      with pk have "comp_window_peek_blit env w (trace r6) = Some (Inr tr)" by simp
      from peek_blit_extends [OF this] show ?thesis by blast
    qed
    then obtain evsp where ep: "tr = trace r6 @ evsp" by blast
    from draw_finish_props [OF fin] obtain evsf where
      ef: "trace r' = tr @ evsf" "xret = XRT_SUCCESS \<or> Mirror_do_blit xret \<in> set evsf"
      and inv: "comp_frame_is_invalid_locked (rendering r')"
      by auto
    have "trace r' = trace r @
        (evs3 @ [Target_update_timings, Frame_state_init] @ evs6 @ evsp @ evsf)"
      using ef(1) ep t6 by simp
    moreover have "xret = XRT_SUCCESS \<or> Mirror_do_blit xret \<in>
        set (evs3 @ [Target_update_timings, Frame_state_init] @ evs6 @ evsp @ evsf)"
      using ef(2) by auto
    ultimately show ?thesis using inv by blast
  qed
qed

lemma draw_props:
  assumes run: "comp_renderer_draw env c_peek r = Some (Inr (xret, r'))"
  shows "(\<exists>evs. trace r' = trace r @ evs \<and>
            (xret = XRT_SUCCESS \<or> (\<exists>e \<in> set evs. is_failed_submission e) \<or>
             Mirror_do_blit xret \<in> set evs)) \<and>
         (comp_frame_is_invalid_locked (rendering r') \<or>
          xret = XRT_ERROR_VULKAN \<and> rendering r' = waited r)"
proof -
  from run have pre: "\<not> comp_frame_is_invalid_locked (waited r)"
    "comp_frame_is_invalid_locked (rendering r)"
    by (auto simp: comp_renderer_draw_def split: if_splits)
  define r2 where "r2 = comp_target_mark env COMP_TARGET_TIMING_POINT_BEGIN (frame_id (waited r))
      (r\<lparr>rendering := waited r, waited := comp_frame_clear_locked (waited r)\<rparr>)"
  have t2: "\<exists>evs. trace r2 = trace r @ evs" and f2: "rendering r2 = waited r"
    by (simp_all add: r2_def prim_defs Let_def)
  define r3 where "r3 = emit (Target_check_ready (o_check_ready env (trace r2))) r2"
  have t3: "\<exists>evs. trace r3 = trace r @ evs" and f3: "rendering r3 = waited r"
    using t2 f2 by (auto simp: r3_def emit_def)
  have unfold: "comp_renderer_draw env c_peek r =
      (if \<not> o_check_ready env (trace r2)
       then Some (Inr (XRT_SUCCESS,
         (comp_target_mark env COMP_TARGET_TIMING_POINT_SUBMIT_END (frame_id (waited r))
            (comp_target_mark env COMP_TARGET_TIMING_POINT_SUBMIT_BEGIN (frame_id (waited r)) r3))
         \<lparr>rendering := comp_frame_clear_locked
            (rendering (comp_target_mark env COMP_TARGET_TIMING_POINT_SUBMIT_END (frame_id (waited r))
              (comp_target_mark env COMP_TARGET_TIMING_POINT_SUBMIT_BEGIN (frame_id (waited r)) r3)))\<rparr>))
       else draw_render env c_peek r3)"
    using pre unfolding comp_renderer_draw_def Let_def r3_def r2_def
    by (simp add: comp_frame_move_and_clear_locked_def comp_target_check_ready_def)
  show ?thesis
  proof (cases "o_check_ready env (trace r2)")
    case False
    with run unfold have x: "xret = XRT_SUCCESS"
      and r': "r' = (comp_target_mark env COMP_TARGET_TIMING_POINT_SUBMIT_END (frame_id (waited r))
            (comp_target_mark env COMP_TARGET_TIMING_POINT_SUBMIT_BEGIN (frame_id (waited r)) r3))
         \<lparr>rendering := comp_frame_clear_locked
            (rendering (comp_target_mark env COMP_TARGET_TIMING_POINT_SUBMIT_END (frame_id (waited r))
              (comp_target_mark env COMP_TARGET_TIMING_POINT_SUBMIT_BEGIN (frame_id (waited r)) r3)))\<rparr>"
      by simp_all
    from t3 obtain evs3 where "trace r3 = trace r @ evs3" by blast
    then have "\<exists>evs. trace r' = trace r @ evs"
      unfolding r' by (simp add: prim_defs Let_def)
    moreover have "comp_frame_is_invalid_locked (rendering r')"
      unfolding r' by (simp add: frame_defs)
    ultimately show ?thesis using x by blast
  next
    case True
    with run unfold have "draw_render env c_peek r3 = Some (Inr (xret, r'))" by simp
    from draw_render_props [OF this] t3 f3 show ?thesis by auto
  qed
qed

text \<open>
  Claim C1, as amended. First part: \<open>renderer_acquire_swapchain_image\<close> is entered
  with no buffer acquired, has ensured the images (state \<open>r1\<close>) and gets out-of-date or
  suboptimal from its first \<open>comp_target_acquire\<close>. When the forced recreation that
  follows succeeds (state \<open>r3\<close>), the function returns, and from that first acquire on
  its calls are exactly these: the forced recreation on a ready target, in which
  \<open>comp_target_create_images\<close> is called once; one retried \<open>comp_target_acquire\<close>;
  and one error line if and only if the retried acquire did not answer \<open>VK_SUCCESS\<close>.
  Whatever the retried acquire answers, the index that is left in \<open>buffer_index\<close> (the
  one it wrote, else the one the first acquire wrote, else 0) is recorded as the acquired
  buffer; no fence is outstanding, and both frame slots are as they were.

  Second part: \<open>renderer_present_swapchain_image\<close> is entered with a frame in the
  rendering slot and gets out-of-date or suboptimal from \<open>comp_target_present\<close>. There
  is no second present, the acquired buffer is reset to \<open>-1\<close> and the frame slots are as
  they were. When the target is not ready at the check of \<open>renderer_resize\<close>, the call
  returns, having closed the renderings and fences and created nothing. When the target
  is ready at that check and not at the check of the forced recreation, the call returns
  and has neither closed nor created anything. When the target is ready at both checks,
  a call that returns has made the forced recreation, with one
  \<open>comp_target_create_images\<close>.

  Third part: a status of \<open>comp_renderer_draw\<close> other than \<open>XRT_SUCCESS\<close> goes with a
  failed fence reset or queue submission of the frame, or is the status of the debug
  mirror's blit; neither an acquire nor a present has a status to hand on.

  The statement says nothing on a forced recreation that fails after a stale acquire.
\<close>

theorem stale_swapchain_recovery:
  "(sint (acquired_buffer r) < 0 \<and>
    renderer_ensure_images_and_renderings env c_peek False r = Inr (True, r1) \<and>
    is_stale (fst (o_acquire env (trace r1))) \<and>
    renderer_ensure_images_and_renderings env c_peek True (emit (first_acquire env r1) r1)
      = Inr (True, r3) \<longrightarrow>
      (\<exists>r'. renderer_acquire_swapchain_image env c_peek r = Inr r' \<and>
         new_events r1 r' =
           first_acquire env r1 # recreate_events c_peek r1 True (buffer_count r') @
           Target_acquire (fst (o_acquire env (trace r3))) (acquired_buffer r') #
           (if fst (o_acquire env (trace r3)) \<noteq> VK_SUCCESS
            then [Log_error ''comp_target_acquire''] else []) \<and>
         acquired_buffer r' =
           (case snd (o_acquire env (trace r3)) of
              Some i \<Rightarrow> i
            | None \<Rightarrow> (case snd (o_acquire env (trace r1)) of Some i \<Rightarrow> i | None \<Rightarrow> 0)) \<and>
         fenced_buffer r' = - 1 \<and> buffer_count r' \<noteq> 0 \<and> fences r' \<and>
         rendering r' = rendering r \<and> waited r' = waited r)) \<and>
   (\<not> comp_frame_is_invalid_locked (rendering p) \<and> is_stale (o_present env (trace p)) \<longrightarrow>
      (\<not> o_check_ready env (trace p @ [present_event env p]) \<longrightarrow>
         (\<exists>p'. renderer_present_swapchain_image env c_peek p = Inr p' \<and>
            new_events p p' = present_event env p # Target_check_ready False # close_events p \<and>
            acquired_buffer p' = - 1 \<and> fenced_buffer p' = - 1 \<and> buffer_count p' = 0 \<and>
            (rtr_array p' \<longleftrightarrow> rtr_array p \<and> buffer_count p = 0) \<and>
            (fences p' \<longleftrightarrow> fences p \<and> buffer_count p = 0) \<and>
            rendering p' = rendering p \<and> waited p' = waited p)) \<and>
      (o_check_ready env (trace p @ [present_event env p]) \<and>
       \<not> o_check_ready env (trace p @ [present_event env p, Target_check_ready True]) \<longrightarrow>
         (\<exists>p'. renderer_present_swapchain_image env c_peek p = Inr p' \<and>
            new_events p p' =
              [present_event env p, Target_check_ready True, Target_check_ready False] \<and>
            acquired_buffer p' = - 1 \<and> fenced_buffer p' = fenced_buffer p \<and>
            buffer_count p' = buffer_count p \<and>
            rtr_array p' = rtr_array p \<and> fences p' = fences p \<and>
            rendering p' = rendering p \<and> waited p' = waited p)) \<and>
      (o_check_ready env (trace p @ [present_event env p]) \<and>
       o_check_ready env (trace p @ [present_event env p, Target_check_ready True]) \<longrightarrow>
         (\<forall>p'. renderer_present_swapchain_image env c_peek p = Inr p' \<longrightarrow>
            (\<exists>ok. new_events p p' =
                     present_event env p # Target_check_ready True #
                     recreate_events c_peek p ok (buffer_count p') \<and>
                   acquired_buffer p' = - 1 \<and> fenced_buffer p' = - 1 \<and>
                   (if ok then buffer_count p' \<noteq> 0 \<and> fences p' else buffer_count p' = 0) \<and>
                   rendering p' = rendering p \<and> waited p' = waited p)))) \<and>
   (comp_renderer_draw env c_peek d = Some (Inr (xret, d')) \<longrightarrow>
      xret = XRT_SUCCESS \<or> (\<exists>e \<in> set (new_events d d'). is_failed_submission e) \<or>
      Mirror_do_blit xret \<in> set (new_events d d'))"
proof (intro conjI)
  show "sint (acquired_buffer r) < 0 \<and>
    renderer_ensure_images_and_renderings env c_peek False r = Inr (True, r1) \<and>
    is_stale (fst (o_acquire env (trace r1))) \<and>
    renderer_ensure_images_and_renderings env c_peek True (emit (first_acquire env r1) r1)
      = Inr (True, r3) \<longrightarrow>
      (\<exists>r'. renderer_acquire_swapchain_image env c_peek r = Inr r' \<and>
         new_events r1 r' =
           first_acquire env r1 # recreate_events c_peek r1 True (buffer_count r') @
           Target_acquire (fst (o_acquire env (trace r3))) (acquired_buffer r') #
           (if fst (o_acquire env (trace r3)) \<noteq> VK_SUCCESS
            then [Log_error ''comp_target_acquire''] else []) \<and>
         acquired_buffer r' =
           (case snd (o_acquire env (trace r3)) of
              Some i \<Rightarrow> i
            | None \<Rightarrow> (case snd (o_acquire env (trace r1)) of Some i \<Rightarrow> i | None \<Rightarrow> 0)) \<and>
         fenced_buffer r' = - 1 \<and> buffer_count r' \<noteq> 0 \<and> fences r' \<and>
         rendering r' = rendering r \<and> waited r' = waited r)"
    using acquire_retried [of r env c_peek r1 r3] by blast
next
  show "\<not> comp_frame_is_invalid_locked (rendering p) \<and> is_stale (o_present env (trace p)) \<longrightarrow>
      (\<not> o_check_ready env (trace p @ [present_event env p]) \<longrightarrow>
         (\<exists>p'. renderer_present_swapchain_image env c_peek p = Inr p' \<and>
            new_events p p' = present_event env p # Target_check_ready False # close_events p \<and>
            acquired_buffer p' = - 1 \<and> fenced_buffer p' = - 1 \<and> buffer_count p' = 0 \<and>
            (rtr_array p' \<longleftrightarrow> rtr_array p \<and> buffer_count p = 0) \<and>
            (fences p' \<longleftrightarrow> fences p \<and> buffer_count p = 0) \<and>
            rendering p' = rendering p \<and> waited p' = waited p)) \<and>
      (o_check_ready env (trace p @ [present_event env p]) \<and>
       \<not> o_check_ready env (trace p @ [present_event env p, Target_check_ready True]) \<longrightarrow>
         (\<exists>p'. renderer_present_swapchain_image env c_peek p = Inr p' \<and>
            new_events p p' =
              [present_event env p, Target_check_ready True, Target_check_ready False] \<and>
            acquired_buffer p' = - 1 \<and> fenced_buffer p' = fenced_buffer p \<and>
            buffer_count p' = buffer_count p \<and>
            rtr_array p' = rtr_array p \<and> fences p' = fences p \<and>
            rendering p' = rendering p \<and> waited p' = waited p)) \<and>
      (o_check_ready env (trace p @ [present_event env p]) \<and>
       o_check_ready env (trace p @ [present_event env p, Target_check_ready True]) \<longrightarrow>
         (\<forall>p'. renderer_present_swapchain_image env c_peek p = Inr p' \<longrightarrow>
            (\<exists>ok. new_events p p' =
                     present_event env p # Target_check_ready True #
                     recreate_events c_peek p ok (buffer_count p') \<and>
                   acquired_buffer p' = - 1 \<and> fenced_buffer p' = - 1 \<and>
                   (if ok then buffer_count p' \<noteq> 0 \<and> fences p' else buffer_count p' = 0) \<and>
                   rendering p' = rendering p \<and> waited p' = waited p)))"
  proof (rule impI)
    assume "\<not> comp_frame_is_invalid_locked (rendering p) \<and> is_stale (o_present env (trace p))"
    then have v: "\<not> comp_frame_is_invalid_locked (rendering p)"
      and s: "is_stale (o_present env (trace p))" by simp_all
    from present_stale [OF v s, of c_peek]
    show "(\<not> o_check_ready env (trace p @ [present_event env p]) \<longrightarrow>
         (\<exists>p'. renderer_present_swapchain_image env c_peek p = Inr p' \<and>
            new_events p p' = present_event env p # Target_check_ready False # close_events p \<and>
            acquired_buffer p' = - 1 \<and> fenced_buffer p' = - 1 \<and> buffer_count p' = 0 \<and>
            (rtr_array p' \<longleftrightarrow> rtr_array p \<and> buffer_count p = 0) \<and>
            (fences p' \<longleftrightarrow> fences p \<and> buffer_count p = 0) \<and>
            rendering p' = rendering p \<and> waited p' = waited p)) \<and>
      (o_check_ready env (trace p @ [present_event env p]) \<and>
       \<not> o_check_ready env (trace p @ [present_event env p, Target_check_ready True]) \<longrightarrow>
         (\<exists>p'. renderer_present_swapchain_image env c_peek p = Inr p' \<and>
            new_events p p' =
              [present_event env p, Target_check_ready True, Target_check_ready False] \<and>
            acquired_buffer p' = - 1 \<and> fenced_buffer p' = fenced_buffer p \<and>
            buffer_count p' = buffer_count p \<and>
            rtr_array p' = rtr_array p \<and> fences p' = fences p \<and>
            rendering p' = rendering p \<and> waited p' = waited p)) \<and>
      (o_check_ready env (trace p @ [present_event env p]) \<and>
       o_check_ready env (trace p @ [present_event env p, Target_check_ready True]) \<longrightarrow>
         (\<forall>p'. renderer_present_swapchain_image env c_peek p = Inr p' \<longrightarrow>
            (\<exists>ok. new_events p p' =
                     present_event env p # Target_check_ready True #
                     recreate_events c_peek p ok (buffer_count p') \<and>
                   acquired_buffer p' = - 1 \<and> fenced_buffer p' = - 1 \<and>
                   (if ok then buffer_count p' \<noteq> 0 \<and> fences p' else buffer_count p' = 0) \<and>
                   rendering p' = rendering p \<and> waited p' = waited p)))"
      by (intro conjI)
  qed
next
  show "comp_renderer_draw env c_peek d = Some (Inr (xret, d')) \<longrightarrow>
      xret = XRT_SUCCESS \<or> (\<exists>e \<in> set (new_events d d'). is_failed_submission e) \<or>
      Mirror_do_blit xret \<in> set (new_events d d')"
  proof
    assume "comp_renderer_draw env c_peek d = Some (Inr (xret, d'))"
    from draw_props [OF this] obtain evs where
      "trace d' = trace d @ evs"
      "xret = XRT_SUCCESS \<or> (\<exists>e \<in> set evs. is_failed_submission e) \<or>
       Mirror_do_blit xret \<in> set evs"
      by blast
    then show "xret = XRT_SUCCESS \<or> (\<exists>e \<in> set (new_events d d'). is_failed_submission e) \<or>
      Mirror_do_blit xret \<in> set (new_events d d')"
      by (simp add: new_events_def)
  qed
qed

text \<open>
  The claim C1 as stated fails in two places. With a target whose acquire answers
  out-of-date every time, \<open>comp_renderer_draw\<close> does not drop frame 7: it submits it for
  the index left in \<open>buffer_index\<close>, presents it and returns \<open>XRT_SUCCESS\<close>. And with a
  present that answers out-of-date on a target that is not ready, the resize path closes
  the renderings and fences and recreates no images.
\<close>

theorem stale_twice_counterexample:
  "(case comp_renderer_draw env_always_stale None renderer0 of
      Some (Inr (xret, r')) \<Rightarrow>
        xret = XRT_SUCCESS \<and>
        take 2 (filter is_acquire (trace r')) =
          [Target_acquire VK_ERROR_OUT_OF_DATE_KHR 0, Target_acquire VK_ERROR_OUT_OF_DATE_KHR 0] \<and>
        filter is_submit (trace r') = [Queue_submit 0 VK_SUCCESS] \<and>
        filter is_present (trace r') = [Target_present 0 7 VK_SUCCESS]
    | _ \<Rightarrow> False) \<and>
   (case renderer_present_swapchain_image env_target_gone None renderer_in_flight of
      Inr r' \<Rightarrow>
        new_events renderer_in_flight r' =
          [Target_present 1 7 VK_ERROR_OUT_OF_DATE_KHR, Target_check_ready False,
           Renderings_closed, Fences_destroyed]
    | _ \<Rightarrow> False)"
proof
  show "(case comp_renderer_draw env_always_stale None renderer0 of
      Some (Inr (xret, r')) \<Rightarrow>
        xret = XRT_SUCCESS \<and>
        take 2 (filter is_acquire (trace r')) =
          [Target_acquire VK_ERROR_OUT_OF_DATE_KHR 0, Target_acquire VK_ERROR_OUT_OF_DATE_KHR 0] \<and>
        filter is_submit (trace r') = [Queue_submit 0 VK_SUCCESS] \<and>
        filter is_present (trace r') = [Target_present 0 7 VK_SUCCESS]
    | _ \<Rightarrow> False)"
    by (simp add: env_always_stale_def example_defs renderer_defs prim_defs frame_defs kind_defs
        Let_def)
  show "(case renderer_present_swapchain_image env_target_gone None renderer_in_flight of
      Inr r' \<Rightarrow>
        new_events renderer_in_flight r' =
          [Target_present 1 7 VK_ERROR_OUT_OF_DATE_KHR, Target_check_ready False,
           Renderings_closed, Fences_destroyed]
    | _ \<Rightarrow> False)"
    by (simp add: env_target_gone_def renderer_in_flight_def example_defs
        renderer_present_swapchain_image_def renderer_resize_def
        renderer_close_renderings_and_fences_def is_stale_def prim_defs frame_defs
        new_events_def Let_def)
qed

theorem stale_swapchain_recovery_witness:
  "(\<exists>r'. renderer_acquire_swapchain_image env_stale_once None
            (renderer_in_flight\<lparr>acquired_buffer := - 1\<rparr>) = Inr r' \<and>
      new_events
        (emit (Target_has_images True)
           (emit (Target_check_ready True) (renderer_in_flight\<lparr>acquired_buffer := - 1\<rparr>))) r' =
        [Target_acquire VK_ERROR_OUT_OF_DATE_KHR 0,
         Target_check_ready True, Queue_wait_idle, Renderings_closed, Fences_destroyed,
         Target_create_images VK_IMAGE_USAGE_COLOR_ATTACHMENT_BIT, Distortion_images_ensure True,
         Renderings_created 2, Fences_created 2,
         Target_acquire VK_SUCCESS 1] \<and>
      acquired_buffer r' = 1 \<and> fenced_buffer r' = - 1 \<and> fences r') \<and>
   (\<exists>p'. renderer_present_swapchain_image env_target_gone None renderer_in_flight = Inr p' \<and>
      new_events renderer_in_flight p' =
        [Target_present 1 7 VK_ERROR_OUT_OF_DATE_KHR, Target_check_ready False,
         Renderings_closed, Fences_destroyed] \<and>
      buffer_count p' = 0 \<and> \<not> rtr_array p' \<and> \<not> fences p')"
proof
  let ?r = "renderer_in_flight\<lparr>acquired_buffer := - 1\<rparr>"
  define r1 where "r1 = emit (Target_has_images True) (emit (Target_check_ready True) ?r)"
  have t1: "trace r1 = [Queue_submit 0 VK_SUCCESS, Target_check_ready True, Target_has_images True]"
    and f1: "buffer_count r1 = 2" "rtr_array r1" "fences r1" "\<not> use_compute r1"
    by (simp_all add: r1_def emit_def renderer_in_flight_def renderer0_def)
  have neg: "sint (acquired_buffer ?r) < 0" by simp
  have e1: "renderer_ensure_images_and_renderings env_stale_once None False ?r = Inr (True, r1)"
    unfolding r1_def
    by (rule ensure_no_create)
      (simp_all add: env_stale_once_def env_fine_def renderer_in_flight_def renderer0_def)
  have oa1: "o_acquire env_stale_once (trace r1) = (VK_ERROR_OUT_OF_DATE_KHR, None)"
    by (simp add: t1 env_stale_once_def env_fine_def kind_defs)
  have fa: "first_acquire env_stale_once r1 = Target_acquire VK_ERROR_OUT_OF_DATE_KHR 0"
    by (simp add: first_acquire_def oa1)
  have st: "is_stale (fst (o_acquire env_stale_once (trace r1)))"
    by (simp add: oa1 is_stale_def)
  obtain r3 where e2: "renderer_ensure_images_and_renderings env_stale_once None True
      (emit (first_acquire env_stale_once r1) r1) = Inr (True, r3)"
    and t3: "trace r3 = trace r1 @
        [Target_acquire VK_ERROR_OUT_OF_DATE_KHR 0,
         Target_check_ready True, Queue_wait_idle, Renderings_closed, Fences_destroyed,
         Target_create_images VK_IMAGE_USAGE_COLOR_ATTACHMENT_BIT, Distortion_images_ensure True,
         Renderings_created 2, Fences_created 2]"
    and b3: "buffer_count r3 = 2"
    unfolding fa unfolding r1_def
    by (simp add: env_stale_once_def env_fine_def renderer_in_flight_def renderer0_def
        renderer_ensure_images_and_renderings_def renderer_create_renderings_and_fences_def
        renderer_close_renderings_and_fences_def prim_defs Let_def)
  have oa3: "o_acquire env_stale_once (trace r3) = (VK_SUCCESS, Some 1)"
    by (simp add: t3 t1 env_stale_once_def env_fine_def kind_defs)
  note A = stale_swapchain_recovery [where r = ?r and env = env_stale_once and c_peek = None
      and ?r1.0 = r1 and ?r3.0 = r3, THEN conjunct1, rule_format]
  from A [OF conjI [OF neg conjI [OF e1 conjI [OF st e2]]]]
  obtain r' where run: "renderer_acquire_swapchain_image env_stale_once None ?r = Inr r'"
    and ne: "new_events r1 r' =
           first_acquire env_stale_once r1 # recreate_events None r1 True (buffer_count r') @
           Target_acquire (fst (o_acquire env_stale_once (trace r3))) (acquired_buffer r') #
           (if fst (o_acquire env_stale_once (trace r3)) \<noteq> VK_SUCCESS
            then [Log_error ''comp_target_acquire''] else [])"
    and acq: "acquired_buffer r' =
           (case snd (o_acquire env_stale_once (trace r3)) of
              Some i \<Rightarrow> i
            | None \<Rightarrow> (case snd (o_acquire env_stale_once (trace r1)) of Some i \<Rightarrow> i | None \<Rightarrow> 0))"
    and fr: "fenced_buffer r' = - 1" "fences r'"
    by blast
  have acq': "acquired_buffer r' = 1" using acq by (simp add: oa3)
  have "r' = (emit (Target_acquire VK_SUCCESS 1) r3)\<lparr>acquired_buffer := 1\<rparr>"
    using run neg e2 [unfolded fa]
    by (simp add: renderer_acquire_swapchain_image_def e1 comp_target_acquire_def oa1 oa3
        is_stale_def Let_def)
  then have b': "buffer_count r' = 2" using b3 by (simp add: emit_def)
  have re: "recreate_events None r1 True 2 =
      [Target_check_ready True, Queue_wait_idle, Renderings_closed, Fences_destroyed,
       Target_create_images VK_IMAGE_USAGE_COLOR_ATTACHMENT_BIT, Distortion_images_ensure True,
       Renderings_created 2, Fences_created 2]"
    by (simp add: recreate_events_def close_events_def create_events_def target_image_usage_def f1)
  have "new_events r1 r' =
        [Target_acquire VK_ERROR_OUT_OF_DATE_KHR 0,
         Target_check_ready True, Queue_wait_idle, Renderings_closed, Fences_destroyed,
         Target_create_images VK_IMAGE_USAGE_COLOR_ATTACHMENT_BIT, Distortion_images_ensure True,
         Renderings_created 2, Fences_created 2,
         Target_acquire VK_SUCCESS 1]"
    using ne by (simp add: b' re fa oa3 acq')
  with run acq' fr show "\<exists>r'. renderer_acquire_swapchain_image env_stale_once None ?r = Inr r' \<and>
      new_events (emit (Target_has_images True) (emit (Target_check_ready True) ?r)) r' =
        [Target_acquire VK_ERROR_OUT_OF_DATE_KHR 0,
         Target_check_ready True, Queue_wait_idle, Renderings_closed, Fences_destroyed,
         Target_create_images VK_IMAGE_USAGE_COLOR_ATTACHMENT_BIT, Distortion_images_ensure True,
         Renderings_created 2, Fences_created 2,
         Target_acquire VK_SUCCESS 1] \<and>
      acquired_buffer r' = 1 \<and> fenced_buffer r' = - 1 \<and> fences r'"
    unfolding r1_def by blast
next
  let ?p = renderer_in_flight
  have v: "\<not> comp_frame_is_invalid_locked (rendering ?p)"
    by (simp add: renderer_in_flight_def frame7_def frame_defs)
  have s: "is_stale (o_present env_target_gone (trace ?p))"
    by (simp add: env_target_gone_def is_stale_def)
  have pe: "present_event env_target_gone ?p = Target_present 1 7 VK_ERROR_OUT_OF_DATE_KHR"
    by (simp add: present_event_def env_target_gone_def renderer_in_flight_def frame7_def)
  have nr: "\<not> o_check_ready env_target_gone (trace ?p @ [present_event env_target_gone ?p])"
    by (simp add: env_target_gone_def)
  have ce: "close_events ?p = [Renderings_closed, Fences_destroyed]"
    by (simp add: close_events_def renderer_in_flight_def)
  have f: "buffer_count ?p = 2" by (simp add: renderer_in_flight_def)
  note B = stale_swapchain_recovery [where p = ?p and env = env_target_gone and c_peek = None,
      THEN conjunct2, THEN conjunct1, rule_format, OF conjI [OF v s], THEN conjunct1, rule_format]
  from B [OF nr] obtain p' where
    "renderer_present_swapchain_image env_target_gone None ?p = Inr p'"
    "new_events ?p p' =
       present_event env_target_gone ?p # Target_check_ready False # close_events ?p"
    "buffer_count p' = 0" "rtr_array p' \<longleftrightarrow> rtr_array ?p \<and> buffer_count ?p = 0"
    "fences p' \<longleftrightarrow> fences ?p \<and> buffer_count ?p = 0"
    by blast
  then show "\<exists>p'. renderer_present_swapchain_image env_target_gone None ?p = Inr p' \<and>
      new_events ?p p' =
        [Target_present 1 7 VK_ERROR_OUT_OF_DATE_KHR, Target_check_ready False,
         Renderings_closed, Fences_destroyed] \<and>
      buffer_count p' = 0 \<and> \<not> rtr_array p' \<and> \<not> fences p'"
    unfolding pe ce f by (intro exI [of _ p']) simp
qed

text \<open>
  What the statement above leaves out. When the forced recreation after a stale acquire
  fails, here because the target is no longer ready, \<open>renderer_acquire_swapchain_image\<close>
  writes an error line and returns with no buffer acquired, and \<open>comp_renderer_draw\<close>,
  which does not look at that, goes on to dispatch with the index \<open>-1\<close> and stops at
  the assertion of \<open>renderer_submit_queue\<close> that a buffer is acquired.
\<close>

lemma failed_recreation_reaches_assertion:
  "comp_renderer_draw env_target_vanishes None renderer0 =
     Some (Inl (Assertion_failed ''r->acquired_buffer >= 0''))"
  by (simp add: env_target_vanishes_def example_defs renderer_defs prim_defs frame_defs kind_defs
      Let_def)
text \<open>
  Claim C8, as amended. When the peek window is hidden or not running,
  \<open>comp_window_peek_blit\<close> returns at once with no event at all: no acquire, no
  submission, no present. When the window is shown and running, the blit comes back if
  and only if the peek target answers ready at some poll of its loop; until then it keeps
  polling. A blit that returns has added events of the peek window and error lines only,
  and it has no status: a status of \<open>comp_renderer_draw\<close> other than \<open>XRT_SUCCESS\<close> goes
  with a failed fence reset or queue submission of the frame itself, or is the status of
  the debug mirror's blit.

  The statement says nothing on a blit whose acquire has left \<open>current\<close> unwritten.
\<close>

theorem peek_blit_best_effort:
  "(hidden w \<or> \<not> running w \<longrightarrow> comp_window_peek_blit env w tr = Some (Inr tr)) \<and>
   (\<not> hidden w \<and> running w \<longrightarrow>
      (comp_window_peek_blit env w tr \<noteq> None \<longleftrightarrow>
         (\<exists>n. o_peek_check_ready env
                (peek_start env w tr @ replicate n (Peek_check_ready False))))) \<and>
   (comp_window_peek_blit env w tr = Some (Inr tr') \<longrightarrow>
      (\<exists>evs. tr' = tr @ evs \<and> (\<forall>e \<in> set evs. is_peek_or_log e))) \<and>
   (comp_renderer_draw env c_peek r = Some (Inr (xret, r')) \<longrightarrow>
      xret = XRT_SUCCESS \<or> (\<exists>e \<in> set (new_events r r'). is_failed_submission e) \<or>
      Mirror_do_blit xret \<in> set (new_events r r'))"
proof (intro conjI impI)
  assume "hidden w \<or> \<not> running w"
  then show "comp_window_peek_blit env w tr = Some (Inr tr)"
    by (simp add: comp_window_peek_blit_def)
next
  assume "\<not> hidden w \<and> running w"
  then show "comp_window_peek_blit env w tr \<noteq> None \<longleftrightarrow>
         (\<exists>n. o_peek_check_ready env
                (peek_start env w tr @ replicate n (Peek_check_ready False)))"
    using peek_blit_returns_iff by blast
next
  assume "comp_window_peek_blit env w tr = Some (Inr tr')"
  from peek_blit_extends [OF this]
  show "\<exists>evs. tr' = tr @ evs \<and> (\<forall>e \<in> set evs. is_peek_or_log e)"
    by (simp add: peek_events_def)
next
  assume "comp_renderer_draw env c_peek r = Some (Inr (xret, r'))"
  from draw_props [OF this] obtain evs where
    "trace r' = trace r @ evs"
    "xret = XRT_SUCCESS \<or> (\<exists>e \<in> set evs. is_failed_submission e) \<or> Mirror_do_blit xret \<in> set evs"
    by blast
  then show "xret = XRT_SUCCESS \<or> (\<exists>e \<in> set (new_events r r'). is_failed_submission e) \<or>
      Mirror_do_blit xret \<in> set (new_events r r')"
    by (simp add: new_events_def)
qed

lemma peek_never_ready:
  "peek_wait_ready env_peek_never_ready tr = None"
  using peek_wait_ready_iff [of env_peek_never_ready tr]
  by (simp add: env_peek_never_ready_def)

lemma peek_blit_never_ready:
  "comp_window_peek_blit env_peek_never_ready peek_shown tr = None"
  by (simp add: comp_window_peek_blit_def peek_never_ready peek_shown_def)

lemma env_peek_never_ready_fields:
  "o_now_ns env_peek_never_ready = (\<lambda>tr. 0)"
  "o_check_ready env_peek_never_ready = (\<lambda>tr. True)"
  "o_has_images env_peek_never_ready = (\<lambda>tr. True)"
  "o_image_count env_peek_never_ready = (\<lambda>tr. 2)"
  "o_acquire env_peek_never_ready = (\<lambda>tr. (VK_SUCCESS, Some 0))"
  "o_distortion_images_ensure env_peek_never_ready = (\<lambda>tr. True)"
  "o_wait_for_fences env_peek_never_ready = (\<lambda>tr. VK_SUCCESS)"
  "o_reset_fences env_peek_never_ready = (\<lambda>tr. VK_SUCCESS)"
  "o_cmd_submit env_peek_never_ready = (\<lambda>tr. VK_SUCCESS)"
  by (simp_all add: env_peek_never_ready_def env_fine_def)

text \<open>
  The claim C8 as stated fails where it has the blit never block: with a peek window
  that is shown and running and a peek target that is never ready, the blit does not
  return, and neither does \<open>comp_renderer_draw\<close>.
\<close>

theorem peek_blit_blocks_counterexample:
  "\<not> hidden peek_shown \<and> running peek_shown \<and>
   comp_window_peek_blit env_peek_never_ready peek_shown [] = None \<and>
   comp_renderer_draw env_peek_never_ready (Some peek_shown) renderer0 = None"
proof -
  have "comp_renderer_draw env_peek_never_ready (Some peek_shown) renderer0 = None"
    by (simp add: peek_blit_never_ready env_peek_never_ready_fields
        renderer0_def frame7_def frame_none_def
        renderer_create_renderings_and_fences_def renderer_close_renderings_and_fences_def
        renderer_ensure_images_and_renderings_def renderer_wait_for_last_fence_def
        renderer_submit_queue_def is_stale_def renderer_acquire_swapchain_image_def
        dispatch_graphics_def dispatch_compute_def draw_render_def comp_renderer_draw_def
        prim_defs frame_defs Let_def)
  then show ?thesis by (simp add: peek_blit_never_ready) (simp add: peek_shown_def)
qed

theorem peek_blit_best_effort_witness:
  "comp_window_peek_blit env_fine (peek_shown\<lparr>hidden := True\<rparr>) [] = Some (Inr []) \<and>
   comp_window_peek_blit env_fine (peek_shown\<lparr>running := False\<rparr>) [] = Some (Inr []) \<and>
   comp_window_peek_blit env_fine peek_shown [] \<noteq> None"
proof -
  have h: "hidden (peek_shown\<lparr>hidden := True\<rparr>) \<or> \<not> running (peek_shown\<lparr>hidden := True\<rparr>)"
    by simp
  have s: "hidden (peek_shown\<lparr>running := False\<rparr>) \<or> \<not> running (peek_shown\<lparr>running := False\<rparr>)"
    by simp
  have v: "\<not> hidden peek_shown \<and> running peek_shown" by (simp add: peek_shown_def)
  have "o_peek_check_ready env_fine
     (peek_start env_fine peek_shown [] @ replicate 0 (Peek_check_ready False))"
    by (simp add: env_fine_def)
  then have ex: "\<exists>n. o_peek_check_ready env_fine
     (peek_start env_fine peek_shown [] @ replicate n (Peek_check_ready False))"
    by (rule exI)
  from peek_blit_best_effort [of "peek_shown\<lparr>hidden := True\<rparr>" env_fine "[]"] h
  have a: "comp_window_peek_blit env_fine (peek_shown\<lparr>hidden := True\<rparr>) [] = Some (Inr [])"
    by blast
  from peek_blit_best_effort [of "peek_shown\<lparr>running := False\<rparr>" env_fine "[]"] s
  have b: "comp_window_peek_blit env_fine (peek_shown\<lparr>running := False\<rparr>) [] = Some (Inr [])"
    by blast
  from peek_blit_best_effort [of peek_shown env_fine "[]"] v ex
  have "comp_window_peek_blit env_fine peek_shown [] \<noteq> None" by blast
  with a b show ?thesis by simp
qed
end
